(* ===== verification/Prelude.thy ===== *)
theory Prelude
  imports Main "HOL-Library.Word"
begin

text \<open>
  Shared vocabulary of the development: Go's machine integers, byte slices with
  bounds-checked access, results that are an error or a value, and the generic
  lemmas and lemma collections the component theories use.

  \<^item> Go's \<open>int\<close> (64 bits on the supported targets linux/amd64 and linux/arm64) is
    an \<open>int\<close> whose sums go through \<open>goint\<close>, the wrap-around of two's complement.
  \<^item> \<open>uint64\<close> is \<open>64 word\<close>, \<open>byte\<close> is \<open>8 word\<close>.
  \<^item> A \<open>[]byte\<close> is a list of bytes; indexing and slicing out of bounds is a run-time
    panic and so a value of the result, never an unspecified term.
  \<^item> Go's pair (value, error) is the sum \<open>'e + 'a\<close>; \<open>bindE\<close> is the early return
    \<^verbatim>\<open>if err != nil { return err }\<close>.
\<close>

type_synonym byte = "8 word"
type_synonym u64 = "64 word"

named_theorems go_simps "evaluation of Go integers, slices and error results"
named_theorems bindE_intros "introduction rules for successful sequences"

section \<open>Results\<close>

definition bindE :: "'e + 'a \<Rightarrow> ('a \<Rightarrow> 'e + 'b) \<Rightarrow> 'e + 'b" where
  "bindE m k = (case m of Inl e \<Rightarrow> Inl e | Inr x \<Rightarrow> k x)"

lemma bindE_simps [simp, go_simps]:
  "bindE (Inl e) k = Inl e"
  "bindE (Inr x) k = k x"
  by (simp_all add: bindE_def)

lemma bindE_cong [fundef_cong]:
  assumes "m = m'" and "\<And>x. m' = Inr x \<Longrightarrow> k x = k' x"
  shows "bindE m k = bindE m' k'"
  using assms by (cases m') simp_all

lemma bindE_assoc: "bindE (bindE m k) h = bindE m (\<lambda>x. bindE (k x) h)"
  by (cases m) simp_all

lemma bindE_Inr_iff: "bindE m k = Inr y \<longleftrightarrow> (\<exists>x. m = Inr x \<and> k x = Inr y)"
  by (cases m) simp_all

lemma bindE_Inl_iff: "bindE m k = Inl e \<longleftrightarrow> m = Inl e \<or> (\<exists>x. m = Inr x \<and> k x = Inl e)"
  by (cases m) simp_all

lemma bindE_InrE [elim?]:
  assumes "bindE m k = Inr y"
  obtains x where "m = Inr x" and "k x = Inr y"
  using assms by (auto simp: bindE_Inr_iff)

lemma bindE_InrI [bindE_intros]: "m = Inr x \<Longrightarrow> k x = Inr y \<Longrightarrow> bindE m k = Inr y"
  by simp

lemma bindE_split:
  "P (bindE m k) \<longleftrightarrow> (\<forall>e. m = Inl e \<longrightarrow> P (Inl e)) \<and> (\<forall>x. m = Inr x \<longrightarrow> P (k x))"
  by (cases m) simp_all

section \<open>Go's int\<close>

definition goint :: "int \<Rightarrow> int" where
  "goint x = (x + 2 ^ 63) mod 2 ^ 64 - 2 ^ 63"

definition fits :: "'a list \<Rightarrow> bool" where
  "fits xs \<longleftrightarrow> int (length xs) < 2 ^ 63"

lemma goint_id [simp]: "- (2 ^ 63) \<le> x \<Longrightarrow> x < 2 ^ 63 \<Longrightarrow> goint x = x"
  by (simp add: goint_def)

lemma goint_range: "- (2 ^ 63) \<le> goint x" "goint x < 2 ^ 63"
  using pos_mod_bound [of "2 ^ 64" "x + 2 ^ 63"] pos_mod_sign [of "2 ^ 64" "x + 2 ^ 63"]
  by (simp_all add: goint_def)

lemma goint_overflow: "2 ^ 63 \<le> x \<Longrightarrow> x < 2 ^ 64 \<Longrightarrow> goint x = x - 2 ^ 64"
proof -
  assume a: "2 ^ 63 \<le> x" "x < 2 ^ 64"
  have "(x + 2 ^ 63) mod 2 ^ 64 = (x + 2 ^ 63 - 2 ^ 64) mod 2 ^ 64"
    using a by (intro mod_pos_geq) auto
  also have "\<dots> = x + 2 ^ 63 - 2 ^ 64"
    using a by (intro mod_pos_pos_trivial) auto
  finally show ?thesis by (simp add: goint_def)
qed

lemma goint_sum_cases:
  assumes "0 \<le> x" "x < 2 ^ 63" "0 \<le> y" "y < 2 ^ 63"
  shows "goint (x + y) = x + y \<and> x + y < 2 ^ 63 \<or> goint (x + y) < 0 \<and> 2 ^ 63 \<le> x + y"
proof (cases "x + y < 2 ^ 63")
  case True
  with assms show ?thesis by simp
next
  case False
  with assms goint_overflow [of "x + y"] show ?thesis by simp
qed

lemma goint_sum_nonneg:
  assumes "0 \<le> x" "x < 2 ^ 63" "0 \<le> y" "y < 2 ^ 63" "0 \<le> goint (x + y)"
  shows "goint (x + y) = x + y" "x + y < 2 ^ 63"
  using goint_sum_cases [OF assms(1-4)] assms(5) by auto

lemma goint_Suc: "0 \<le> i \<Longrightarrow> i < int (length xs) \<Longrightarrow> fits xs \<Longrightarrow> goint (i + 1) = i + 1"
  unfolding fits_def by (intro goint_id) linarith+

lemma fits_append: "fits (xs @ ys) \<Longrightarrow> fits xs" "fits (xs @ ys) \<Longrightarrow> fits ys"
  by (auto simp: fits_def)

lemma fits_takedrop: "fits xs \<Longrightarrow> fits (take n xs)" "fits xs \<Longrightarrow> fits (drop n xs)"
  by (auto simp: fits_def)

section \<open>Words\<close>

lemma unat_byte: "n < 256 \<Longrightarrow> unat (word_of_nat n :: byte) = n"
  by (simp only: unat_of_nat take_bit_eq_mod) simp

lemma unat_u64: "n < 2 ^ 64 \<Longrightarrow> unat (word_of_nat n :: u64) = n"
  by (simp only: unat_of_nat take_bit_eq_mod) simp

lemma sint_u64: "n < 2 ^ 63 \<Longrightarrow> sint (word_of_nat n :: u64) = int n"
proof -
  assume "n < 2 ^ 63"
  moreover have "sint (word_of_int (int n) :: u64) = goint (int n)"
    by (simp only: int_word_sint) (simp add: goint_def)
  ultimately show ?thesis by simp
qed

lemma sint_u64_range: "- (2 ^ 63) \<le> sint (w :: u64)" "sint (w :: u64) < 2 ^ 63"
  using sint_ge [of w] sint_lt [of w] by simp_all

section \<open>Byte slices\<close>

text \<open>
  The accesses are generic in the error type; \<open>p\<close> is the value that stands for the
  run-time panic \<^verbatim>\<open>index out of range\<close> (or \<^verbatim>\<open>slice bounds out of range\<close>).
\<close>

definition read_at :: "'e \<Rightarrow> 'a list \<Rightarrow> int \<Rightarrow> 'e + 'a" where
  "read_at p d i = (if 0 \<le> i \<and> i < int (length d) then Inr (d ! nat i) else Inl p)"

definition write_at :: "'e \<Rightarrow> 'a list \<Rightarrow> int \<Rightarrow> 'a \<Rightarrow> 'e + 'a list" where
  "write_at p d i x = (if 0 \<le> i \<and> i < int (length d) then Inr (d[nat i := x]) else Inl p)"

definition subslice :: "'e \<Rightarrow> 'a list \<Rightarrow> int \<Rightarrow> int \<Rightarrow> 'e + 'a list" where
  "subslice p d lo hi =
     (if 0 \<le> lo \<and> lo \<le> hi \<and> hi \<le> int (length d)
      then Inr (take (nat (hi - lo)) (drop (nat lo) d)) else Inl p)"

text \<open>\<^verbatim>\<open>copy(d[i:], src)\<close>: slicing panics out of bounds, copying stops at the shorter end.\<close>

definition copy_at :: "'e \<Rightarrow> 'a list \<Rightarrow> int \<Rightarrow> 'a list \<Rightarrow> 'e + 'a list" where
  "copy_at p d i src =
     (if 0 \<le> i \<and> i \<le> int (length d)
      then Inr (take (nat i) d @ take (length d - nat i) src @ drop (nat i + length src) d)
      else Inl p)"

lemma read_at_nth [go_simps]: "n < length d \<Longrightarrow> read_at p d (int n) = Inr (d ! n)"
  by (simp add: read_at_def)

lemma read_at_append_Cons [go_simps]: "read_at p (xs @ y # ys) (int (length xs)) = Inr y"
  by (simp add: read_at_def)

lemma slice_middle [go_simps]:
  "subslice p (xs @ ys @ zs) (int (length xs)) (int (length xs) + int (length ys)) = Inr ys"
  by (simp add: subslice_def)

lemma slice_to_end [go_simps]:
  "n \<le> length d \<Longrightarrow> subslice p d (int n) (int (length d)) = Inr (drop n d)"
  by (simp add: subslice_def flip: of_nat_diff)

lemma write_at_middle [go_simps]:
  "write_at p (xs @ y # ys) (int (length xs)) z = Inr (xs @ z # ys)"
  by (simp add: write_at_def)

lemma copy_at_exact [go_simps]:
  "length src = length ys \<Longrightarrow>
   copy_at p (xs @ ys @ zs) (int (length xs)) src = Inr (xs @ src @ zs)"
  by (simp add: copy_at_def)

section \<open>Strings as bytes\<close>

text \<open>A Go string is a byte sequence; \<open>char\<close> has eight bits, so the two views agree.\<close>

definition bytes_of :: "string \<Rightarrow> byte list" where
  "bytes_of s = map (\<lambda>c. word_of_nat (of_char c)) s"

definition string_of :: "byte list \<Rightarrow> string" where
  "string_of b = map (\<lambda>x. char_of (unat x)) b"

lemma string_of_bytes_of [simp]: "string_of (bytes_of s) = s"
  by (induction s)
     (simp_all add: bytes_of_def string_of_def unat_of_nat take_bit_eq_mod)

lemma bytes_of_string_of [simp]: "bytes_of (string_of b) = b"
proof (induction b)
  case (Cons x b)
  have "unat x < 256" using unsigned_less [of x] by simp
  then have "unat x mod 256 = unat x" by simp
  with Cons show ?case by (simp add: bytes_of_def string_of_def)
qed (simp add: bytes_of_def string_of_def)

lemma string_of_Nil_iff [simp]: "string_of b = [] \<longleftrightarrow> b = []"
  by (simp add: string_of_def)

lemma bytes_of_Nil_iff [simp]: "bytes_of s = [] \<longleftrightarrow> s = []"
  by (simp add: bytes_of_def)

lemma length_bytes_of [simp]: "length (bytes_of s) = length s"
  by (simp add: bytes_of_def)

lemma length_string_of [simp]: "length (string_of b) = length b"
  by (simp add: string_of_def)

end
