(* ===== verification/Effects.thy ===== *)
theory Effects
  imports Prelude
begin

text \<open>
  Programs that call operations outside the repository. Such a program is a function of the
  calls made so far: what an operation answers may depend on all earlier calls (and on the
  initial state, which is fixed in the function that answers). It returns a value or stops with
  a panic or an error, and the calls it made are appended to the history. Nothing is assumed
  about the operations here; a component states what it relies on.

  \<open>calls Q m\<close> says that every call \<open>m\<close> makes satisfies \<open>Q\<close>, however it ends; \<open>each_calls\<close>
  describes the calls of a loop one by one.
\<close>

named_theorems calls_rules "rules for the calls a program can make"

type_synonym ('k, 'e, 'a) prog = "'k list \<Rightarrow> ('e + 'a) \<times> 'k list"

definition ret :: "'a \<Rightarrow> ('k, 'e, 'a) prog" where
  "ret x h = (Inr x, h)"

definition stop :: "'e \<Rightarrow> ('k, 'e, 'a) prog" where
  "stop e h = (Inl e, h)"

definition seqp :: "('k, 'e, 'a) prog \<Rightarrow> ('a \<Rightarrow> ('k, 'e, 'b) prog) \<Rightarrow> ('k, 'e, 'b) prog" where
  "seqp m k h = (case m h of (Inl e, h') \<Rightarrow> (Inl e, h') | (Inr x, h') \<Rightarrow> k x h')"

text \<open>Make a call and look at its error; the history contains the call in either case.\<close>

definition perform :: "('k list \<Rightarrow> 'k \<Rightarrow> 'x option) \<Rightarrow> 'k \<Rightarrow> ('k, 'e, 'x option) prog" where
  "perform err c h = (Inr (err h c), h @ [c])"

text \<open>Read something that depends on the calls so far.\<close>

definition ask :: "('k list \<Rightarrow> 'a) \<Rightarrow> ('k, 'e, 'a) prog" where
  "ask f h = (Inr (f h), h)"

text \<open>Stop on an error, with the stop value made from it.\<close>

definition check :: "('x \<Rightarrow> 'e) \<Rightarrow> 'x option \<Rightarrow> ('k, 'e, unit) prog" where
  "check f r = (case r of None \<Rightarrow> ret () | Some x \<Rightarrow> stop (f x))"

definition unwrap :: "('x \<Rightarrow> 'e) \<Rightarrow> 'x + 'a \<Rightarrow> ('k, 'e, 'a) prog" where
  "unwrap f r = (case r of Inl x \<Rightarrow> stop (f x) | Inr a \<Rightarrow> ret a)"

text \<open>Indexing a slice, and assigning to an element of it: a panic outside its bounds\<close>

definition at_index :: "'e \<Rightarrow> 'a list \<Rightarrow> nat \<Rightarrow> ('k, 'e, 'a) prog" where
  "at_index e xs i = (if i < length xs then ret (xs ! i) else stop e)"

definition set_index :: "'e \<Rightarrow> 'a list \<Rightarrow> nat \<Rightarrow> 'a \<Rightarrow> ('k, 'e, 'a list) prog" where
  "set_index e xs i x = (if i < length xs then ret (xs[i := x]) else stop e)"

fun each :: "('a \<Rightarrow> ('k, 'e, unit) prog) \<Rightarrow> 'a list \<Rightarrow> ('k, 'e, unit) prog" where
  "each f [] = ret ()"
| "each f (x # xs) = seqp (f x) (\<lambda>_. each f xs)"

text \<open>A loop that carries a value\<close>

fun foldp :: "('a \<Rightarrow> 'b \<Rightarrow> ('k, 'e, 'b) prog) \<Rightarrow> 'a list \<Rightarrow> 'b \<Rightarrow> ('k, 'e, 'b) prog" where
  "foldp f [] s = ret s"
| "foldp f (x # xs) s = seqp (f x s) (foldp f xs)"

lemmas prog_defs = ret_def stop_def seqp_def perform_def ask_def check_def unwrap_def

lemma check_simps [simp]: "check f None = ret ()" "check f (Some x) = stop (f x)"
  by (simp_all add: check_def)

lemma unwrap_simps [simp]: "unwrap f (Inr a) = ret a" "unwrap f (Inl x) = stop (f x)"
  by (simp_all add: unwrap_def)

lemma seqp_ret [simp]: "seqp (ret x) k = k x"
  by (rule ext) (simp add: prog_defs)

lemma seqp_stop [simp]: "seqp (stop e) k = stop e"
  by (rule ext) (simp add: prog_defs)

lemma seqp_Inr:
  "seqp m k h = (Inr y, h') \<longleftrightarrow> (\<exists>x h1. m h = (Inr x, h1) \<and> k x h1 = (Inr y, h'))"
  by (auto simp: seqp_def split: prod.splits sum.splits)

lemma seqp_InrE:
  assumes "seqp m k h = (Inr y, h')"
  obtains x h1 where "m h = (Inr x, h1)" "k x h1 = (Inr y, h')"
  using assms by (auto simp: seqp_Inr)

lemma ret_eq [simp]: "ret x h = (r, h') \<longleftrightarrow> r = Inr x \<and> h' = h"
  by (auto simp: ret_def)

lemma stop_eq [simp]: "stop e h = (r, h') \<longleftrightarrow> r = Inl e \<and> h' = h"
  by (auto simp: stop_def)

lemma ask_eq [simp]: "ask f h = (r, h') \<longleftrightarrow> r = Inr (f h) \<and> h' = h"
  by (auto simp: ask_def)

lemma perform_eq [simp]: "perform err c h = (r, h') \<longleftrightarrow> r = Inr (err h c) \<and> h' = h @ [c]"
  by (auto simp: perform_def)

lemma check_Inr [simp]: "check f r h = (Inr u, h') \<longleftrightarrow> r = None \<and> h' = h"
  by (cases r) auto

lemma unwrap_Inr [simp]: "unwrap f r h = (Inr a, h') \<longleftrightarrow> r = Inr a \<and> h' = h"
  by (cases r) auto

lemma at_index_Inr [simp]: "at_index e xs i h = (Inr x, h') \<longleftrightarrow> i < length xs \<and> x = xs ! i \<and> h' = h"
  by (auto simp: at_index_def)

lemma set_index_Inr [simp]:
  "set_index e xs i x h = (Inr ys, h') \<longleftrightarrow> i < length xs \<and> ys = xs[i := x] \<and> h' = h"
  by (auto simp: set_index_def)

lemma index_in_range [simp]:
  "i < length xs \<Longrightarrow> at_index e xs i = ret (xs ! i)"
  "i < length xs \<Longrightarrow> set_index e xs i x = ret (xs[i := x])"
  by (simp_all add: at_index_def set_index_def)

section \<open>The calls a program can make\<close>

definition calls :: "('k \<Rightarrow> bool) \<Rightarrow> ('k, 'e, 'a) prog \<Rightarrow> bool" where
  "calls Q m \<longleftrightarrow> (\<forall>h. \<exists>t. snd (m h) = h @ t \<and> list_all Q t)"

lemma callsD:
  assumes "calls Q m" "m h = (r, h')"
  obtains t where "h' = h @ t" "list_all Q t"
  using assms unfolding calls_def by (metis snd_conv)

lemma calls_ret [calls_rules, intro!]: "calls Q (ret x)"
  by (simp add: calls_def ret_def)

lemma calls_stop [calls_rules, intro!]: "calls Q (stop e)"
  by (simp add: calls_def stop_def)

lemma calls_ask [calls_rules, intro!]: "calls Q (ask f)"
  by (simp add: calls_def ask_def)

lemma calls_check [calls_rules, intro!]: "calls Q (check f r)"
  by (cases r) auto

lemma calls_at_index [calls_rules, intro!]: "calls Q (at_index e xs i)"
  by (simp add: calls_def at_index_def ret_def stop_def)

lemma calls_set_index [calls_rules, intro!]: "calls Q (set_index e xs i x)"
  by (simp add: calls_def set_index_def ret_def stop_def)

lemma calls_unwrap [calls_rules, intro!]: "calls Q (unwrap f r)"
  by (cases r) auto

lemma calls_perform [calls_rules]: "Q c \<Longrightarrow> calls Q (perform err c)"
  by (simp add: calls_def perform_def)

lemma calls_seqp [calls_rules]:
  assumes "calls Q m" "\<And>x. calls Q (k x)"
  shows "calls Q (seqp m k)"
  unfolding calls_def
proof
  fix h
  obtain r h1 where m: "m h = (r, h1)" by (cases "m h")
  with assms(1) obtain t where t: "h1 = h @ t" "list_all Q t" by (rule callsD)
  show "\<exists>t. snd (seqp m k h) = h @ t \<and> list_all Q t"
  proof (cases r)
    case (Inl e)
    with m t show ?thesis by (simp add: seqp_def)
  next
    case (Inr x)
    obtain r' h2 where k: "k x h1 = (r', h2)" by (cases "k x h1")
    with assms(2) obtain t' where "h2 = h1 @ t'" "list_all Q t'" by (rule callsD)
    with m Inr t k show ?thesis by (simp add: seqp_def)
  qed
qed

lemma calls_each [calls_rules]: "(\<And>x. calls Q (f x)) \<Longrightarrow> calls Q (each f xs)"
  by (induction xs) (auto intro: calls_seqp)

lemma calls_case_sum [calls_rules]:
  "(\<And>x. calls Q (f x)) \<Longrightarrow> (\<And>y. calls Q (g y)) \<Longrightarrow> calls Q (case s of Inl x \<Rightarrow> f x | Inr y \<Rightarrow> g y)"
  by (cases s) auto

lemma calls_case_option [calls_rules]:
  "calls Q f \<Longrightarrow> (\<And>y. calls Q (g y)) \<Longrightarrow> calls Q (case s of None \<Rightarrow> f | Some y \<Rightarrow> g y)"
  by (cases s) auto

lemma calls_case_prod [calls_rules]:
  "(\<And>x y. calls Q (f x y)) \<Longrightarrow> calls Q (case p of (x, y) \<Rightarrow> f x y)"
  by (cases p) auto

lemma calls_if [calls_rules]: "calls Q a \<Longrightarrow> calls Q b \<Longrightarrow> calls Q (if c then a else b)"
  by simp

lemma calls_mono: "calls Q m \<Longrightarrow> (\<And>c. Q c \<Longrightarrow> R c) \<Longrightarrow> calls R m"
  unfolding calls_def by (metis list.pred_mono_strong)

section \<open>Programs that make their calls in phases\<close>

text \<open>
  \<open>in_phases p a m b\<close>: the calls of \<open>m\<close> have phases between \<open>a\<close> and \<open>b\<close>, never going back.
\<close>

definition in_phases :: "('k \<Rightarrow> nat) \<Rightarrow> nat \<Rightarrow> ('k, 'e, 'a) prog \<Rightarrow> nat \<Rightarrow> bool" where
  "in_phases p a m b \<longleftrightarrow>
     (\<forall>h. \<exists>t. snd (m h) = h @ t \<and> sorted (map p t) \<and> list_all (\<lambda>c. a \<le> p c \<and> p c \<le> b) t)"

lemma in_phases_single: "calls (\<lambda>c. p c = a) m \<Longrightarrow> in_phases p a m a"
  unfolding calls_def in_phases_def
proof (intro allI)
  fix h
  assume "\<forall>h. \<exists>t. snd (m h) = h @ t \<and> list_all (\<lambda>c. p c = a) t"
  then obtain t where t: "snd (m h) = h @ t" "list_all (\<lambda>c. p c = a) t" by blast
  from t(2) have "sorted (map p t)" "list_all (\<lambda>c. a \<le> p c \<and> p c \<le> a) t"
    by (induction t) (auto simp: list_all_iff)
  with t(1) show "\<exists>t. snd (m h) = h @ t \<and> sorted (map p t) \<and> list_all (\<lambda>c. a \<le> p c \<and> p c \<le> a) t"
    by blast
qed

lemma in_phases_mono: "in_phases p a m b \<Longrightarrow> a' \<le> a \<Longrightarrow> b \<le> b' \<Longrightarrow> in_phases p a' m b'"
  unfolding in_phases_def list_all_iff by (meson le_trans)

lemma in_phases_seqp:
  assumes "in_phases p a m b" "\<And>x. in_phases p b (k x) c" "a \<le> b" "b \<le> c"
  shows "in_phases p a (seqp m k) c"
  unfolding in_phases_def
proof
  fix h
  obtain r h1 where m: "m h = (r, h1)" by (cases "m h")
  from assms(1) obtain t where t: "h1 = h @ t" "sorted (map p t)" "list_all (\<lambda>c. a \<le> p c \<and> p c \<le> b) t"
    unfolding in_phases_def by (metis m snd_conv)
  show "\<exists>t. snd (seqp m k h) = h @ t \<and> sorted (map p t) \<and> list_all (\<lambda>d. a \<le> p d \<and> p d \<le> c) t"
  proof (cases r)
    case (Inl e)
    with m t assms(4) show ?thesis by (auto simp: seqp_def list_all_iff)
  next
    case (Inr x)
    obtain r' h2 where k: "k x h1 = (r', h2)" by (cases "k x h1")
    from assms(2) obtain t' where t': "h2 = h1 @ t'" "sorted (map p t')"
      "list_all (\<lambda>d. b \<le> p d \<and> p d \<le> c) t'"
      unfolding in_phases_def by (metis k snd_conv)
    have "sorted (map p (t @ t'))" "list_all (\<lambda>d. a \<le> p d \<and> p d \<le> c) (t @ t')"
      using t t' assms(3,4) by (fastforce simp: sorted_append list_all_iff)+
    with m Inr t(1) k t'(1) show ?thesis by (auto simp: seqp_def)
  qed
qed

section \<open>The calls of a loop, one by one\<close>

text \<open>
  If the body, when it returns normally, made exactly one call \<open>c\<close> with \<open>R h x c\<close>, then the loop
  made one such call for every element, in order.
\<close>

lemma each_calls:
  assumes "\<And>x h u h'. f x h = (Inr u, h') \<Longrightarrow> \<exists>c. h' = h @ [c] \<and> R h x c"
    and "each f xs h = (Inr u, h')"
  shows "\<exists>t. h' = h @ t \<and> length t = length xs \<and> (\<forall>i < length xs. R (h @ take i t) (xs ! i) (t ! i))"
  using assms(2)
proof (induction xs arbitrary: h)
  case Nil
  then show ?case by simp
next
  case (Cons x xs)
  then obtain u1 h1 where f: "f x h = (Inr u1, h1)" and e: "each f xs h1 = (Inr u, h')"
    by (auto simp: seqp_Inr)
  from assms(1) [OF f] obtain c where c: "h1 = h @ [c]" "R h x c" by blast
  from Cons.IH [OF e] obtain t where
    t: "h' = h1 @ t" "length t = length xs" "\<forall>i < length xs. R (h1 @ take i t) (xs ! i) (t ! i)"
    by blast
  have "R (h @ take i (c # t)) ((x # xs) ! i) ((c # t) ! i)" if "i < length (x # xs)" for i
    using that c t(3) by (cases i) simp_all
  with c t show ?case by (intro exI [of _ "c # t"]) simp
qed

text \<open>A loop whose body, when it returns normally, made the call \<open>g x\<close>\<close>

lemma each_exact:
  assumes "\<And>x h u h'. f x h = (Inr u, h') \<Longrightarrow> h' = h @ [g x]" and "each f xs h = (Inr u, h')"
  shows "h' = h @ map g xs"
  using assms(2)
proof (induction xs arbitrary: h)
  case (Cons x xs)
  then obtain u1 h1 where "f x h = (Inr u1, h1)" "each f xs h1 = (Inr u, h')"
    by (auto simp: seqp_Inr)
  with assms(1) Cons.IH show ?case by fastforce
qed simp

text \<open>A loop whose body, when it returns normally, made the calls \<open>g x\<close>\<close>

lemma each_concat:
  assumes "\<And>x h u h'. x \<in> set xs \<Longrightarrow> f x h = (Inr u, h') \<Longrightarrow> h' = h @ g x" and "each f xs h = (Inr u, h')"
  shows "h' = h @ concat (map g xs)"
  using assms
proof (induction xs arbitrary: h)
  case (Cons x xs)
  then obtain u1 h1 where "f x h = (Inr u1, h1)" "each f xs h1 = (Inr u, h')"
    by (auto simp: seqp_Inr)
  with Cons.prems(1) [of x] Cons.IH [of h1] Cons.prems(1) show ?case by fastforce
qed simp

lemma each_map: "each f (map g xs) = each (\<lambda>x. f (g x)) xs"
  by (induction xs) simp_all

text \<open>A loop whose body returns normally whatever happens returns normally.\<close>

lemma each_returns:
  assumes "\<And>x h. fst (f x h) = Inr ()"
  shows "fst (each f xs h) = Inr ()"
proof (induction xs arbitrary: h)
  case Nil
  then show ?case by (simp add: ret_def)
next
  case (Cons x xs)
  obtain r h1 where f: "f x h = (r, h1)" by (cases "f x h")
  with assms [of x h] have "r = Inr ()" by simp
  with f Cons show ?case by (simp add: seqp_def)
qed

section \<open>Programs that return\<close>

text \<open>\<open>returns m\<close>: \<open>m\<close> neither panics nor exits, whatever was called before.\<close>

named_theorems returns_rules "rules for programs that return"

definition returns :: "('k, 'e, 'a) prog \<Rightarrow> bool" where
  "returns m \<longleftrightarrow> (\<forall>h. \<exists>x h'. m h = (Inr x, h'))"

lemma returnsE:
  assumes "returns m"
  obtains x h' where "m h = (Inr x, h')"
  using assms unfolding returns_def by blast

lemma returns_ret [returns_rules]: "returns (ret x)"
  by (simp add: returns_def)

lemma returns_ask [returns_rules]: "returns (ask f)"
  by (simp add: returns_def)

lemma returns_perform [returns_rules]: "returns (perform err c)"
  by (simp add: returns_def)

lemma returns_seqp:
  assumes "returns m" "\<And>x h h'. m h = (Inr x, h') \<Longrightarrow> returns (k x)"
  shows "returns (seqp m k)"
  unfolding returns_def
proof
  fix h
  obtain x h1 where m: "m h = (Inr x, h1)" using assms(1) by (rule returnsE)
  with assms(2) obtain y h2 where "k x h1 = (Inr y, h2)" by (meson returnsE)
  with m show "\<exists>y h'. seqp m k h = (Inr y, h')" by (simp add: seqp_def)
qed

lemma returns_bind [returns_rules]: "returns m \<Longrightarrow> (\<And>x. returns (k x)) \<Longrightarrow> returns (seqp m k)"
  by (rule returns_seqp)

text \<open>A call that is known not to fail, and a value that is known not to be an error\<close>

lemma returns_checked [returns_rules]:
  "(\<And>h. err h c = None) \<Longrightarrow> returns (seqp (perform err c) (check f))"
  by (simp add: returns_def seqp_def perform_def)

lemma returns_unwrap [returns_rules]: "(\<And>e. r \<noteq> Inl e) \<Longrightarrow> returns (unwrap f r)"
  by (cases r) (auto simp: returns_def)

lemma returns_check [returns_rules]: "r = None \<Longrightarrow> returns (check f r)"
  by (simp add: returns_def)

lemma returns_ask_unwrap [returns_rules]:
  "(\<And>h e. g h \<noteq> Inl e) \<Longrightarrow> (\<And>x. returns (k x)) \<Longrightarrow> returns (seqp (ask g) (\<lambda>r. seqp (unwrap f r) k))"
  by (rule returns_seqp [OF returns_ask]) (auto intro!: returns_rules)

lemma returns_each [returns_rules]: "(\<And>x. returns (f x)) \<Longrightarrow> returns (each f xs)"
  by (induction xs) (auto intro!: returns_rules)

lemma returns_foldp [returns_rules]: "(\<And>x s. returns (f x s)) \<Longrightarrow> returns (foldp f xs s)"
  by (induction xs arbitrary: s) (auto intro!: returns_rules)

lemma returns_if [returns_rules]: "returns a \<Longrightarrow> returns b \<Longrightarrow> returns (if c then a else b)"
  by simp

lemma returns_case_prod [returns_rules]: "(\<And>x y. returns (f x y)) \<Longrightarrow> returns (case p of (x, y) \<Rightarrow> f x y)"
  by (cases p) simp

lemma returns_case_option [returns_rules]:
  "returns f \<Longrightarrow> (\<And>y. returns (g y)) \<Longrightarrow> returns (case s of None \<Rightarrow> f | Some y \<Rightarrow> g y)"
  by (cases s) simp_all

lemma returns_case_sum [returns_rules]:
  "(\<And>x. returns (f x)) \<Longrightarrow> (\<And>y. returns (g y)) \<Longrightarrow> returns (case s of Inl x \<Rightarrow> f x | Inr y \<Rightarrow> g y)"
  by (cases s) simp_all

section \<open>What a program returns\<close>

text \<open>\<open>yields P m\<close>: if \<open>m\<close> returns a value, the value satisfies \<open>P\<close>.\<close>

definition yields :: "('a \<Rightarrow> bool) \<Rightarrow> ('k, 'e, 'a) prog \<Rightarrow> bool" where
  "yields P m \<longleftrightarrow> (\<forall>h x h'. m h = (Inr x, h') \<longrightarrow> P x)"

lemma yields_ret: "P x \<Longrightarrow> yields P (ret x)"
  by (simp add: yields_def)

lemma yields_stop: "yields P (stop e)"
  by (simp add: yields_def)

lemma yields_unwrap: "yields (\<lambda>x. r = Inr x) (unwrap f r)"
  by (simp add: yields_def)

lemma yields_seqp: "(\<And>x. yields P (k x)) \<Longrightarrow> yields P (seqp m k)"
  unfolding yields_def seqp_Inr by blast

lemma yields_seqp_yields:
  "yields P m \<Longrightarrow> (\<And>x. P x \<Longrightarrow> yields R (k x)) \<Longrightarrow> yields R (seqp m k)"
  unfolding yields_def seqp_Inr by blast

lemma yieldsD: "yields P m \<Longrightarrow> m h = (Inr x, h') \<Longrightarrow> P x"
  by (auto simp: yields_def)

section \<open>How a program stops\<close>

text \<open>\<open>stops P m\<close>: if \<open>m\<close> panics or exits, it does so with an \<open>e\<close> and after calls \<open>h'\<close> for which \<open>P e h'\<close>.\<close>

named_theorems stops_rules "rules for the ways a program can stop"

definition stops :: "('e \<Rightarrow> 'k list \<Rightarrow> bool) \<Rightarrow> ('k, 'e, 'a) prog \<Rightarrow> bool" where
  "stops P m \<longleftrightarrow> (\<forall>h e h'. m h = (Inl e, h') \<longrightarrow> P e h')"

lemma stopsD: "stops P m \<Longrightarrow> m h = (Inl e, h') \<Longrightarrow> P e h'"
  by (auto simp: stops_def)

lemma returns_stops: "returns m \<longleftrightarrow> stops (\<lambda>_ _. False) m"
proof
  assume s: "stops (\<lambda>_ _. False) m"
  show "returns m" unfolding returns_def
  proof
    fix h
    show "\<exists>x h'. m h = (Inr x, h')"
      using s by (cases "m h"; cases "fst (m h)") (auto simp: stops_def)
  qed
next
  assume "returns m"
  then show "stops (\<lambda>_ _. False) m"
    unfolding returns_def stops_def by (metis Pair_inject sum.distinct(1))
qed

lemma stops_leaf [stops_rules, intro!]:
  "stops P (ret x)" "stops P (ask f)" "stops P (perform err c)"
  by (simp_all add: stops_def)

lemma stops_stop [stops_rules]: "(\<And>h. P e h) \<Longrightarrow> stops P (stop e)"
  by (simp add: stops_def)

lemma stops_check [stops_rules]: "(\<And>x h. r = Some x \<Longrightarrow> P (f x) h) \<Longrightarrow> stops P (check f r)"
  by (cases r) (auto intro: stops_stop)

lemma stops_unwrap [stops_rules]: "(\<And>x h. r = Inl x \<Longrightarrow> P (f x) h) \<Longrightarrow> stops P (unwrap f r)"
  by (cases r) (auto intro: stops_stop)

lemma stops_seqp [stops_rules]: "stops P m \<Longrightarrow> (\<And>x. stops P (k x)) \<Longrightarrow> stops P (seqp m k)"
  by (fastforce simp: stops_def seqp_def split: prod.splits sum.splits)

lemma stops_ask [stops_rules]: "(\<And>h. stops P (k (f h))) \<Longrightarrow> stops P (seqp (ask f) k)"
  by (auto simp: stops_def seqp_def ask_def)

text \<open>A value that is looked up and must be there\<close>

lemma stops_lookup:
  assumes "\<And>x h. q h = Inl x \<Longrightarrow> P (w x) h" "\<And>y. stops P (k y)"
  shows "stops P (seqp (ask q) (\<lambda>r. seqp (unwrap w r) k))"
  unfolding stops_def
proof (intro allI impI)
  fix h e h'
  assume s: "seqp (ask q) (\<lambda>r. seqp (unwrap w r) k) h = (Inl e, h')"
  show "P e h'"
  proof (cases "q h")
    case (Inl x)
    with s assms(1) show ?thesis by (simp add: seqp_def ask_def)
  next
    case (Inr y)
    with s have "k y h = (Inl e, h')" by (simp add: seqp_def ask_def)
    with assms(2) show ?thesis by (rule stopsD)
  qed
qed

lemma stops_seqp_yields:
  "stops P m \<Longrightarrow> yields R m \<Longrightarrow> (\<And>x. R x \<Longrightarrow> stops P (k x)) \<Longrightarrow> stops P (seqp m k)"
  by (fastforce simp: stops_def yields_def seqp_def split: prod.splits sum.splits)

lemma stops_each [stops_rules]: "(\<And>x. x \<in> set xs \<Longrightarrow> stops P (f x)) \<Longrightarrow> stops P (each f xs)"
  by (induction xs) (auto intro: stops_seqp)

lemma stops_if [stops_rules]: "(c \<Longrightarrow> stops P a) \<Longrightarrow> (\<not> c \<Longrightarrow> stops P b) \<Longrightarrow> stops P (if c then a else b)"
  by simp

lemma stops_case_prod [stops_rules]: "(\<And>x y. p = (x, y) \<Longrightarrow> stops P (f x y)) \<Longrightarrow> stops P (case p of (x, y) \<Rightarrow> f x y)"
  by (cases p) simp

lemma stops_case_option [stops_rules]:
  "(s = None \<Longrightarrow> stops P f) \<Longrightarrow> (\<And>y. s = Some y \<Longrightarrow> stops P (g y)) \<Longrightarrow> stops P (case s of None \<Rightarrow> f | Some y \<Rightarrow> g y)"
  by (cases s) simp_all

lemma stops_case_sum [stops_rules]:
  "(\<And>x. s = Inl x \<Longrightarrow> stops P (f x)) \<Longrightarrow> (\<And>y. s = Inr y \<Longrightarrow> stops P (g y))
    \<Longrightarrow> stops P (case s of Inl x \<Rightarrow> f x | Inr y \<Rightarrow> g y)"
  by (cases s) simp_all

lemma stops_foldp_upto:
  assumes "\<And>i s. i < n \<Longrightarrow> I i s \<Longrightarrow> stops P (f i s) \<and> yields (I (Suc i)) (f i s)" and "I 0 s"
  shows "stops P (foldp f [0..<n] s) \<and> yields (I n) (foldp f [0..<n] s)"
proof -
  have "stops P (foldp f [k..<n] s) \<and> yields (I n) (foldp f [k..<n] s)" if "k \<le> n" "I k s" for k s
    using that
  proof (induction "n - k" arbitrary: k s)
    case 0
    then show ?case by (auto intro: yields_ret)
  next
    case (Suc d)
    then have k: "k < n" "[k..<n] = k # [Suc k..<n]" by (simp_all add: upt_conv_Cons)
    have x: "stops P (f k s)" "yields (I (Suc k)) (f k s)" using assms(1) k(1) Suc.prems(2) by auto
    have xs: "stops P (foldp f [Suc k..<n] s')" "yields (I n) (foldp f [Suc k..<n] s')" if "I (Suc k) s'" for s'
      using Suc.hyps(1) [of "Suc k" s'] Suc.hyps(2) k(1) that by auto
    show ?case
      using stops_seqp_yields [OF x xs(1)] yields_seqp_yields [OF x(2) xs(2)] by (simp add: k(2))
  qed
  from this [of 0 s] assms(2) show ?thesis by simp
qed

section \<open>Loops with an invariant\<close>

text \<open>The calls of a program whose continuation relies on the value it is given\<close>

lemma calls_seqp_yields:
  assumes "calls Q m" "yields P m" "\<And>x. P x \<Longrightarrow> calls Q (k x)"
  shows "calls Q (seqp m k)"
  unfolding calls_def
proof
  fix h
  obtain r h1 where m: "m h = (r, h1)" by (cases "m h")
  with assms(1) obtain t where t: "h1 = h @ t" "list_all Q t" by (rule callsD)
  show "\<exists>t. snd (seqp m k h) = h @ t \<and> list_all Q t"
  proof (cases r)
    case (Inl e)
    with m t show ?thesis by (simp add: seqp_def)
  next
    case (Inr x)
    with m assms(2) have "P x" by (auto simp: yields_def)
    obtain r' h2 where k: "k x h1 = (r', h2)" by (cases "k x h1")
    with assms(3) [OF \<open>P x\<close>] obtain t' where "h2 = h1 @ t'" "list_all Q t'" by (rule callsD)
    with m Inr t k show ?thesis by (simp add: seqp_def)
  qed
qed

lemma foldp_invariant:
  assumes "\<And>x s. x \<in> set xs \<Longrightarrow> I s \<Longrightarrow> calls Q (f x s) \<and> yields I (f x s)" and "I s"
  shows "calls Q (foldp f xs s) \<and> yields I (foldp f xs s)"
  using assms
proof (induction xs arbitrary: s)
  case Nil
  then show ?case by (auto intro: yields_ret)
next
  case (Cons x xs)
  have x: "calls Q (f x s)" "yields I (f x s)" using Cons.prems by auto
  have xs: "calls Q (foldp f xs s')" "yields I (foldp f xs s')" if "I s'" for s'
    using Cons.IH [of s'] Cons.prems(1) that by auto
  have "calls Q (seqp (f x s) (foldp f xs))"
    using x xs(1) by (rule calls_seqp_yields)
  moreover have "yields I (seqp (f x s) (foldp f xs))"
    using x(2) xs(2) unfolding yields_def seqp_Inr by blast
  ultimately show ?case by simp
qed

text \<open>The same for a loop over the numbers below \<open>n\<close>, with an invariant that counts\<close>

lemma foldp_upto:
  assumes "\<And>i s. i < n \<Longrightarrow> I i s \<Longrightarrow> calls Q (f i s) \<and> yields (I (Suc i)) (f i s)" and "I 0 s"
  shows "calls Q (foldp f [0..<n] s) \<and> yields (I n) (foldp f [0..<n] s)"
proof -
  have "calls Q (foldp f [k..<n] s) \<and> yields (I n) (foldp f [k..<n] s)" if "k \<le> n" "I k s" for k s
    using that
  proof (induction "n - k" arbitrary: k s)
    case 0
    then show ?case by (auto intro: yields_ret)
  next
    case (Suc d)
    then have k: "k < n" "[k..<n] = k # [Suc k..<n]" by (simp_all add: upt_conv_Cons)
    have x: "calls Q (f k s)" "yields (I (Suc k)) (f k s)" using assms(1) k(1) Suc.prems(2) by auto
    have xs: "calls Q (foldp f [Suc k..<n] s')" "yields (I n) (foldp f [Suc k..<n] s')" if "I (Suc k) s'" for s'
      using Suc.hyps(1) [of "Suc k" s'] Suc.hyps(2) k(1) that by auto
    have "calls Q (seqp (f k s) (foldp f [Suc k..<n]))" using x xs(1) by (rule calls_seqp_yields)
    moreover have "yields (I n) (seqp (f k s) (foldp f [Suc k..<n]))"
      using x(2) xs(2) unfolding yields_def seqp_Inr by blast
    ultimately show ?case by (simp add: k(2))
  qed
  from this [of 0 s] assms(2) show ?thesis by simp
qed

text \<open>An invariant of the value and the calls so far: of runs of the loop that return, and of steps that do\<close>

lemma foldp_upto_Inr:
  assumes "foldp f [0..<n] s h = (Inr s', h')" "I 0 s h"
    and "\<And>i s h s1 h1. i < n \<Longrightarrow> I i s h \<Longrightarrow> f i s h = (Inr s1, h1) \<Longrightarrow> I (Suc i) s1 h1"
  shows "I n s' h'"
proof -
  have "I n s' h'" if "foldp f [k..<n] s h = (Inr s', h')" "k \<le> n" "I k s h" for k s h
    using that
  proof (induction "n - k" arbitrary: k s h)
    case (Suc d)
    then have k: "k < n" "[k..<n] = k # [Suc k..<n]" by (simp_all add: upt_conv_Cons)
    with Suc.prems(1) obtain s1 h1 where "f k s h = (Inr s1, h1)" "foldp f [Suc k..<n] s1 h1 = (Inr s', h')"
      by (auto simp: seqp_Inr)
    with Suc k(1) assms(3) show ?case by (metis Suc_diff_Suc Suc_leI diff_Suc_1)
  qed simp
  from this [of 0 s h] assms(1,2) show ?thesis by simp
qed

lemma foldp_upto_run:
  assumes "\<And>i s h. i < n \<Longrightarrow> I i s h \<Longrightarrow> \<exists>s1 h1. f i s h = (Inr s1, h1) \<and> I (Suc i) s1 h1" and "I 0 s h"
  shows "\<exists>s' h'. foldp f [0..<n] s h = (Inr s', h') \<and> I n s' h'"
proof -
  have "\<exists>s' h'. foldp f [k..<n] s h = (Inr s', h') \<and> I n s' h'" if "k \<le> n" "I k s h" for k s h
    using that
  proof (induction "n - k" arbitrary: k s h)
    case (Suc d)
    then have k: "k < n" "[k..<n] = k # [Suc k..<n]" by (simp_all add: upt_conv_Cons)
    from assms(1) [OF k(1) Suc.prems(2)] obtain s1 h1 where s1: "f k s h = (Inr s1, h1)" "I (Suc k) s1 h1" by blast
    obtain s' h' where "foldp f [Suc k..<n] s1 h1 = (Inr s', h')" "I n s' h'"
      using Suc.hyps(1) [of "Suc k" s1 h1] Suc.hyps(2) k(1) s1(2) by fastforce
    then show ?case using s1(1) unfolding k(2) by (auto simp: seqp_Inr)
  qed (auto simp: ret_def)
  from this [of 0 s h] assms(2) show ?thesis by simp
qed

end
