(* ===== verification/GoStrings.thy ===== *)
theory GoStrings
  imports Prelude "HOL-Library.Sublist"
begin

text \<open>
  What the repository uses of Go's \<^verbatim>\<open>strings\<close>, \<^verbatim>\<open>strconv\<close> and \<^verbatim>\<open>path/filepath\<close> (on Unix):
  splitting and joining, decimal numbers, and the lexical operations on paths. A cleaned path is
  computed from its components.
\<close>

section \<open>Splitting and joining\<close>

text \<open>\<^verbatim>\<open>strings.Split(s, sep)\<close> for a separator of one character: never empty, \<^verbatim>\<open>[""]\<close> for \<^verbatim>\<open>""\<close>\<close>

fun Split :: "char \<Rightarrow> string \<Rightarrow> string list" where
  "Split sep [] = [[]]"
| "Split sep (c # s) =
     (if c = sep then [] # Split sep s
      else case Split sep s of [] \<Rightarrow> [[c]] | w # ws \<Rightarrow> (c # w) # ws)"

text \<open>\<^verbatim>\<open>strings.Join(words, sep)\<close>\<close>

fun Join_with :: "string \<Rightarrow> string list \<Rightarrow> string" where
  "Join_with sep [] = []"
| "Join_with sep [w] = w"
| "Join_with sep (w # ws) = w @ sep @ Join_with sep ws"

lemma Split_not_Nil [simp]: "Split sep s \<noteq> []"
  by (cases s) (auto split: list.splits)

lemma Split_no_sep: "w \<in> set (Split sep s) \<Longrightarrow> sep \<notin> set w"
  by (induction s arbitrary: w) (auto split: list.splits if_splits)

lemma Split_single: "sep \<notin> set w \<Longrightarrow> Split sep w = [w]"
  by (induction w) auto

lemma Split_append: "sep \<notin> set w \<Longrightarrow> Split sep (w @ sep # s) = w # Split sep s"
  by (induction w) auto

lemma Split_append_sep: "Split sep (s @ sep # t) = Split sep s @ Split sep t"
  by (induction s) (auto split: list.splits)

lemma last_Split_append: "last (Split sep (s @ sep # t)) = last (Split sep t)"
  by (simp add: Split_append_sep)

lemma Join_with_Cons: "ws \<noteq> [] \<Longrightarrow> Join_with sep (w # ws) = w @ sep @ Join_with sep ws"
  by (cases ws) simp_all

lemma Join_with_snoc: "ws \<noteq> [] \<Longrightarrow> Join_with sep (ws @ [w]) = Join_with sep ws @ sep @ w"
proof (induction ws)
  case (Cons v ws)
  then show ?case by (cases ws) simp_all
qed simp

lemma Join_with_nonempty:
  "ws \<noteq> [] \<Longrightarrow> \<forall>w \<in> set ws. w \<noteq> [] \<Longrightarrow> Join_with sep ws \<noteq> []"
proof (cases ws)
  case (Cons w ws')
  assume "\<forall>w \<in> set ws. w \<noteq> []"
  with Cons show ?thesis by (cases ws') simp_all
qed simp

lemma Join_Split: "Join_with [sep] (Split sep s) = s"
proof (induction s)
  case (Cons c s)
  obtain w ws where "Split sep s = w # ws" by (cases "Split sep s") simp_all
  with Cons show ?case by (cases ws) auto
qed simp

lemma Split_Join: "ws \<noteq> [] \<Longrightarrow> \<forall>w \<in> set ws. sep \<notin> set w \<Longrightarrow> Split sep (Join_with [sep] ws) = ws"
proof (induction ws)
  case (Cons w ws)
  then show ?case by (cases ws) (simp_all add: Split_single Split_append)
qed simp

definition HasPrefix :: "string \<Rightarrow> string \<Rightarrow> bool" where
  "HasPrefix s p \<longleftrightarrow> take (length p) s = p"

section \<open>Decimal numbers\<close>

definition digit :: "nat \<Rightarrow> char" where
  "digit d = char_of (48 + d)"

fun digits :: "nat \<Rightarrow> string" where
  "digits n = (if n < 10 then [digit n] else digits (n div 10) @ [digit (n mod 10)])"

declare digits.simps [simp del]

text \<open>\<^verbatim>\<open>strconv.Itoa\<close>\<close>

definition Itoa :: "int \<Rightarrow> string" where
  "Itoa i = (if i < 0 then ''-'' @ digits (nat (- i)) else digits (nat i))"

fun number :: "string \<Rightarrow> nat \<Rightarrow> nat" where
  "number [] n = n"
| "number (c # s) n = number s (10 * n + (of_char c - 48))"

lemma number_append: "number (s @ t) n = number t (number s n)"
  by (induction s arbitrary: n) simp_all

lemma of_char_digit: "d < 10 \<Longrightarrow> of_char (digit d) = (48 + d :: nat)"
  by (simp add: digit_def)

lemma number_digits: "number (digits n) 0 = n"
  by (induction n rule: digits.induct)
     (subst digits.simps, auto simp: number_append of_char_digit)

lemma digits_inj: "digits m = digits n \<longleftrightarrow> m = n"
  by (metis number_digits)

lemma digits_chars: "c \<in> set (digits n) \<Longrightarrow> 48 \<le> (of_char c :: nat) \<and> (of_char c :: nat) < 58"
proof (induction n rule: digits.induct)
  case (1 n)
  from "1.prems" show ?case
    by (subst (asm) digits.simps) (auto split: if_splits simp: of_char_digit dest: "1.IH")
qed

lemma digits_not_Nil [simp]: "digits n \<noteq> []"
  by (subst digits.simps) simp

lemma Itoa_nat_inj: "0 \<le> i \<Longrightarrow> 0 \<le> j \<Longrightarrow> Itoa i = Itoa j \<longleftrightarrow> i = j"
  by (simp add: Itoa_def digits_inj nat_eq_iff)

lemma Itoa_no_comma: "CHR '','' \<notin> set (Itoa i)"
  using digits_chars [of "CHR '',''"] by (auto simp: Itoa_def)

lemma Itoa_no_slash: "CHR ''/'' \<notin> set (Itoa i)"
  using digits_chars [of "CHR ''/''"] by (auto simp: Itoa_def)

section \<open>Paths\<close>

definition IsAbs :: "string \<Rightarrow> bool" where
  "IsAbs p = HasPrefix p ''/''"

text \<open>One component, with the components kept so far in reverse\<close>

definition clean_step :: "bool \<Rightarrow> string \<Rightarrow> string list \<Rightarrow> string list" where
  "clean_step rooted w out =
     (if w = '''' \<or> w = ''.'' then out
      else if w = ''..'' then
        (case out of
           [] \<Rightarrow> if rooted then [] else [''..'']
         | v # vs \<Rightarrow> if v = ''..'' then ''..'' # out else vs)
      else w # out)"

definition components :: "string \<Rightarrow> string list" where
  "components p = rev (fold (clean_step (IsAbs p)) (Split (CHR ''/'') p) [])"

text \<open>\<^verbatim>\<open>filepath.Clean\<close>\<close>

definition Clean :: "string \<Rightarrow> string" where
  "Clean p =
     (let path = (if IsAbs p then ''/'' else '''') @ Join_with ''/'' (components p)
      in if path = '''' then ''.'' else path)"

text \<open>\<^verbatim>\<open>filepath.Join\<close>: from the first non-empty element on\<close>

definition Join :: "string list \<Rightarrow> string" where
  "Join elem =
     (case dropWhile (\<lambda>e. e = '''') elem of
        [] \<Rightarrow> ''''
      | es \<Rightarrow> Clean (Join_with ''/'' es))"

text \<open>\<^verbatim>\<open>filepath.Base\<close>\<close>

definition Base :: "string \<Rightarrow> string" where
  "Base p =
     (if p = '''' then ''.''
      else let stripped = rev (dropWhile (\<lambda>c. c = CHR ''/'') (rev p))
           in if stripped = '''' then ''/'' else last (Split (CHR ''/'') stripped))"

text \<open>\<^verbatim>\<open>filepath.Abs\<close>, with the working directory or the error of asking for it\<close>

definition Abs :: "'x + string \<Rightarrow> string \<Rightarrow> 'x + string" where
  "Abs wd p = (if IsAbs p then Inr (Clean p) else bindE wd (\<lambda>d. Inr (Join [d, p])))"

text \<open>
  \<^verbatim>\<open>filepath.Rel\<close> of two absolute paths: up from the base to the common directory and down to the
  target. (The errors of \<^verbatim>\<open>Rel\<close> concern relative paths.)
\<close>

fun strip_common :: "'a list \<Rightarrow> 'a list \<Rightarrow> 'a list \<times> 'a list" where
  "strip_common (x # xs) (y # ys) = (if x = y then strip_common xs ys else (x # xs, y # ys))"
| "strip_common xs ys = (xs, ys)"

definition Rel :: "string \<Rightarrow> string \<Rightarrow> string" where
  "Rel basepath targpath =
     (let (up, down) = strip_common (components basepath) (components targpath);
          ws = replicate (length up) ''..'' @ down
      in if ws = [] then ''.'' else Join_with ''/'' ws)"

lemma strip_common_prefix: "fst (strip_common xs ys) = [] \<longleftrightarrow> prefix xs ys"
  by (induction xs ys rule: strip_common.induct) auto

lemma strip_common_rest: "prefix xs ys \<Longrightarrow> snd (strip_common xs ys) = drop (length xs) ys"
  by (induction xs ys rule: strip_common.induct) auto

lemma strip_common_suffix: "\<exists>k. snd (strip_common xs ys) = drop k ys"
proof (induction xs ys rule: strip_common.induct)
  case (1 x xs y ys)
  then show ?case
    by (cases "x = y") (auto intro: exI [of _ "Suc _"] exI [of _ 0])
qed (auto intro: exI [of _ 0])

text \<open>The components of an absolute path are proper names.\<close>

definition is_name :: "string \<Rightarrow> bool" where
  "is_name w \<longleftrightarrow> w \<noteq> '''' \<and> w \<noteq> ''.'' \<and> w \<noteq> ''..'' \<and> CHR ''/'' \<notin> set w"

lemma clean_step_names:
  "CHR ''/'' \<notin> set w \<Longrightarrow> list_all is_name out \<Longrightarrow> list_all is_name (clean_step True w out)"
  by (auto simp: clean_step_def is_name_def split: list.splits)

lemma components_names:
  assumes "IsAbs p"
  shows "list_all is_name (components p)"
proof -
  have "list_all is_name (fold (clean_step True) ws out)"
    if "\<forall>w \<in> set ws. CHR ''/'' \<notin> set w" "list_all is_name out" for ws out
    using that by (induction ws arbitrary: out) (auto intro: clean_step_names)
  from this [of "Split (CHR ''/'') p" "[]"] show ?thesis
    using assms by (auto simp: components_def list_all_iff dest: Split_no_sep)
qed

lemma fold_clean_names:
  "list_all is_name ws \<Longrightarrow> fold (clean_step r) ws out = rev ws @ out"
  by (induction ws arbitrary: out) (auto simp: clean_step_def is_name_def)

lemma Split_Cons_sep: "Split sep (sep # s) = [] # Split sep s"
  by simp

text \<open>Cleaning an absolute path keeps its components.\<close>

lemma components_rooted:
  assumes "list_all is_name ws"
  shows "components (''/'' @ Join_with ''/'' ws) = ws"
proof (cases "ws = []")
  case True
  then show ?thesis by (simp add: components_def IsAbs_def HasPrefix_def clean_step_def)
next
  case False
  have "Split (CHR ''/'') (Join_with ''/'' ws) = ws"
    using assms by (intro Split_Join [OF False]) (auto simp: list_all_iff is_name_def)
  then show ?thesis
    using fold_clean_names [OF assms, of True]
    by (simp add: components_def IsAbs_def HasPrefix_def clean_step_def)
qed

lemma IsAbs_append: "IsAbs p \<Longrightarrow> IsAbs (p @ q)"
  by (cases p) (auto simp: IsAbs_def HasPrefix_def)

text \<open>Joining names to an absolute path appends them to its components.\<close>

lemma components_append:
  assumes "IsAbs p" "list_all is_name ws" "ws \<noteq> []"
  shows "components (p @ ''/'' @ Join_with ''/'' ws) = components p @ ws"
proof -
  have "Split (CHR ''/'') (Join_with ''/'' ws) = ws"
    using assms(2,3) by (intro Split_Join) (auto simp: list_all_iff is_name_def)
  then show ?thesis
    using assms(1,2) IsAbs_append [OF assms(1)] fold_clean_names [OF assms(2)]
    by (simp add: components_def Split_append_sep)
qed

lemma Clean_abs:
  assumes "IsAbs p"
  shows "IsAbs (Clean p)" "components (Clean p) = components p"
  using components_rooted [OF components_names [OF assms]] assms
  by (simp_all add: Clean_def IsAbs_def HasPrefix_def)

lemma Join_names:
  assumes "IsAbs p" "list_all is_name ws" "ws \<noteq> []"
  shows "IsAbs (Join (p # ws))" "components (Join (p # ws)) = components p @ ws"
proof -
  have "p \<noteq> ''''" using assms(1) by (auto simp: IsAbs_def HasPrefix_def)
  then have j: "Join (p # ws) = Clean (p @ ''/'' @ Join_with ''/'' ws)"
    using assms(3) by (simp add: Join_def Join_with_Cons)
  show "IsAbs (Join (p # ws))" "components (Join (p # ws)) = components p @ ws"
    using Clean_abs [OF IsAbs_append [OF assms(1)]] components_append [OF assms]
    by (simp_all only: j)
qed

text \<open>
  Relative paths are read from a working directory \<open>wd\<close>. The components of the absolute path do not
  depend on whether the relative one was cleaned before.
\<close>

definition abs_components :: "string \<Rightarrow> string \<Rightarrow> string list" where
  "abs_components wd p = components (if IsAbs p then p else wd @ ''/'' @ p)"

lemma clean_step_rooted:
  assumes "'''' \<notin> set acc" "''.'' \<notin> set acc"
  shows "fold (clean_step True) (rev (clean_step False w acc)) out
    = clean_step True w (fold (clean_step True) (rev acc) out)"
  using assms by (cases acc) (auto simp: clean_step_def)

lemma clean_step_kept:
  "'''' \<notin> set acc \<Longrightarrow> ''.'' \<notin> set acc \<Longrightarrow> '''' \<notin> set (clean_step r w acc) \<and> ''.'' \<notin> set (clean_step r w acc)"
  by (auto simp: clean_step_def split: list.splits)

lemma fold_clean_rooted:
  assumes "'''' \<notin> set acc" "''.'' \<notin> set acc"
  shows "fold (clean_step True) (rev (fold (clean_step False) ws acc)) out
    = fold (clean_step True) ws (fold (clean_step True) (rev acc) out)"
  using assms
  by (induction ws arbitrary: acc) (simp_all add: clean_step_kept clean_step_rooted)

lemma fold_clean_kept:
  "'''' \<notin> set acc \<Longrightarrow> ''.'' \<notin> set acc \<Longrightarrow> '''' \<notin> set (fold (clean_step r) ws acc)"
  by (induction ws arbitrary: acc) (simp_all add: clean_step_kept)

lemma clean_step_set: "set (clean_step r w out) \<subseteq> {w, ''..''} \<union> set out"
  by (auto simp: clean_step_def split: list.splits)

lemma fold_clean_set: "set (fold (clean_step r) ws out) \<subseteq> {''..''} \<union> set ws \<union> set out"
proof (induction ws arbitrary: out)
  case (Cons w ws)
  show ?case using Cons [of "clean_step r w out"] clean_step_set [of r w out] by auto
qed auto

lemma components_no_sep: "w \<in> set (components p) \<Longrightarrow> w \<noteq> '''' \<and> CHR ''/'' \<notin> set w"
  using fold_clean_kept [of "[]" "IsAbs p" "Split (CHR ''/'') p"] Split_no_sep [of _ "CHR ''/''" p]
    fold_clean_set [of "IsAbs p" "Split (CHR ''/'') p" "[]"]
  by (auto simp: components_def)

lemma Clean_rel:
  assumes "\<not> IsAbs p"
  shows "Clean p = (if components p = [] then ''.'' else Join_with ''/'' (components p))"
    and "\<not> IsAbs (Clean p)"
proof -
  show c: "Clean p = (if components p = [] then ''.'' else Join_with ''/'' (components p))"
    using assms components_no_sep [of "hd (components p)" p]
    by (cases "components p"; cases "tl (components p)") (auto simp: Clean_def Let_def)
  show "\<not> IsAbs (Clean p)"
    using components_no_sep [of "hd (components p)" p] unfolding c
    by (cases "components p"; cases "hd (components p)"; cases "tl (components p)") (auto simp: IsAbs_def HasPrefix_def)
qed

lemma abs_components_Clean:
  assumes "IsAbs wd"
  shows "abs_components wd (Clean p) = abs_components wd p"
proof (cases "IsAbs p")
  case True
  then show ?thesis using Clean_abs by (simp add: abs_components_def)
next
  case False
  have "fold (clean_step True) (Split (CHR ''/'') (Clean p)) out = fold (clean_step True) (components p) out" for out
  proof (cases "components p = []")
    case True
    then show ?thesis by (simp add: Clean_rel(1) [OF False] clean_step_def)
  next
    case ne: False
    then show ?thesis
      using Split_Join [OF ne, of "CHR ''/''"] components_no_sep by (auto simp: Clean_rel(1) [OF False])
  qed
  then show ?thesis
    using False Clean_rel(2) [OF False] IsAbs_append [OF assms] fold_clean_rooted [of "[]" "Split (CHR ''/'') p"]
    by (simp add: abs_components_def components_def Split_append_sep)
qed

lemma abs_components_Join:
  assumes "IsAbs wd" "list_all is_name ws" "ws \<noteq> []"
  shows "abs_components wd (Join (p # ws)) = abs_components wd p @ ws"
    and "IsAbs (Join (p # ws)) = IsAbs p"
proof -
  have ws: "\<not> IsAbs (Join_with ''/'' ws)" "Join_with ''/'' ws \<noteq> ''''"
    using assms(2,3) by (cases ws; cases "hd ws"; cases "tl ws"; auto simp: IsAbs_def HasPrefix_def is_name_def)+
  have e: "Join (p # ws) = Clean (if p = '''' then Join_with ''/'' ws else p @ ''/'' @ Join_with ''/'' ws)"
    using assms(2,3) by (cases ws) (auto simp: Join_def Join_with_Cons is_name_def)
  have a: "IsAbs (p @ q) = IsAbs p" if "p \<noteq> ''''" for q
    using that by (cases p) (auto simp: IsAbs_def HasPrefix_def)
  show "IsAbs (Join (p # ws)) = IsAbs p"
  proof (cases "p = ''''")
    case True
    then show ?thesis using Clean_rel(2) [OF ws(1)] unfolding e by (simp add: IsAbs_def HasPrefix_def)
  next
    case False
    then show ?thesis using Clean_abs(1) Clean_rel(2) a [OF False] unfolding e by (cases "IsAbs p") auto
  qed
  show "abs_components wd (Join (p # ws)) = abs_components wd p @ ws"
  proof (cases "p = ''''")
    case True
    have "components (wd @ ''/'') = components wd"
      using IsAbs_append [OF assms(1)] assms(1) Split_append_sep [of "CHR ''/''" wd "''''"]
      by (simp add: components_def clean_step_def)
    then show ?thesis
      using True ws(1) components_append [OF assms] unfolding e abs_components_Clean [OF assms(1)]
      by (simp add: abs_components_def IsAbs_def HasPrefix_def)
  next
    case False
    have "components ((if IsAbs p then p else wd @ ''/'' @ p) @ ''/'' @ Join_with ''/'' ws)
        = components (if IsAbs p then p else wd @ ''/'' @ p) @ ws"
      using assms(1) by (intro components_append assms(2,3)) (simp add: IsAbs_append)
    then show ?thesis
      using False a [OF False] unfolding e abs_components_Clean [OF assms(1)]
      by (simp add: abs_components_def split: if_splits)
  qed
qed

lemma Abs_components:
  assumes "IsAbs d" "wd = Inr d \<or> IsAbs p"
  shows "\<exists>q. Abs wd p = Inr q \<and> IsAbs q \<and> components q = abs_components d p"
proof (cases "IsAbs p")
  case True
  then show ?thesis using Clean_abs by (simp add: Abs_def abs_components_def)
next
  case False
  have "d \<noteq> ''''" using assms(1) by (auto simp: IsAbs_def HasPrefix_def)
  then have "Join [d, p] = Clean (d @ ''/'' @ p)" by (simp add: Join_def)
  then show ?thesis
    using False assms Clean_abs [OF IsAbs_append [OF assms(1)]] by (simp add: Abs_def abs_components_def bindE_def)
qed

text \<open>The last component of a path that was joined\<close>

lemma Base_Join:
  assumes "list_all is_name (ws @ [w])"
  shows "Base (Join (p # ws @ [w])) = w"
proof -
  define q where "q = (if p = '''' then Join_with ''/'' (ws @ [w]) else p @ ''/'' @ Join_with ''/'' (ws @ [w]))"
  have w: "CHR ''/'' \<notin> set w" "w \<noteq> ''''" using assms by (simp_all add: is_name_def)
  have j: "Join (p # ws @ [w]) = Clean q"
    using assms by (cases ws) (auto simp: q_def Join_def Join_with_Cons is_name_def)
  have "Split (CHR ''/'') (Join_with ''/'' (ws @ [w])) = ws @ [w]"
    using assms by (intro Split_Join) (auto simp: list_all_iff is_name_def)
  then obtain vs where "Split (CHR ''/'') q = vs @ ws @ [w]"
    by (cases "p = ''''") (auto simp: q_def Split_append_sep)
  then obtain cs where c: "components q = cs @ [w]"
    using fold_clean_names [OF assms] by (auto simp: components_def)
  obtain s where s: "Clean q = s @ w" "s = '''' \<or> last s = CHR ''/''"
    using Join_with_snoc [of cs "''/''" w] w(2) by (cases "cs = []") (auto simp: Clean_def c Let_def)
  have d: "dropWhile (\<lambda>c. c = CHR ''/'') (rev (s @ w)) = rev (s @ w)"
    using w by (cases w rule: rev_cases) auto
  show ?thesis
  proof (cases "s = ''''")
    case True
    with d w s show ?thesis unfolding j by (simp add: Base_def Let_def Split_single)
  next
    case False
    then obtain r where "s = r @ ''/''" using s(2) by (metis append_butlast_last_id)
    with d w s show ?thesis unfolding j by (simp add: Base_def Let_def last_Split_append Split_single)
  qed
qed

end
