(* ===== verification/MultiNode.thy ===== *)
theory MultiNode
  imports Effects GoStrings
begin

text \<open>
  The command that lays out a local testnet of several validators
  (cmd/tatcoind/cmd/testnet_multi_node.go): the parsing of its flags, the directories, keys,
  signed gentx and configuration of each node, the shared genesis, and the collection of the
  gentxs. The file system, the keyring, the transaction signer, the coin arithmetic and the
  genesis collector are the record \<open>host\<close>; their values are the opaque type \<open>'o\<close>. A call to one of them
  returns, with an error or without, or it does not return: it panics or ends the process.
\<close>

section \<open>Configuration, coins and calls\<close>

record coin =
  Denom :: string
  Amount :: int

record balance =
  Address :: string
  Coins :: "coin list"

text \<open>The fields of CometBFT's node configuration and of the SDK's application configuration
  that the code sets\<close>

record 'o node_config =
  RootDir :: string
  Moniker :: string
  RPC_ListenAddress :: string
  P2P_PersistentPeers :: string
  P2P_AllowDuplicateIP :: bool
  P2P_ListenAddress :: string
  ProxyApp :: string
  Prometheus :: bool
  PrometheusListenAddr :: string
  node_rest :: 'o

record 'o app_config =
  MinGasPrices :: string   \<comment> \<open>a field of \<^verbatim>\<open>BaseConfig\<close>, which \<^verbatim>\<open>Config\<close> embeds\<close>
  API_Enable :: bool
  API_Address :: string
  GRPC_Address :: string
  EnableHostnameLabel :: bool
  Telemetry_Enabled :: bool
  PrometheusRetentionTime :: int
  app_rest :: 'o

record 'o create_validator =
  ValidatorAddress :: string
  PubKey :: "'o option"
  Value :: coin
  Description_Moniker :: string
  CommissionRates :: "int \<times> int \<times> int"
  MinSelfDelegation :: int

record 'o gentx =
  GentxMsg :: "'o create_validator"
  GentxMemo :: string
  GentxChainID :: string
  GentxKey :: string

datatype 'o fcall =
    MkdirAll string
  | RemoveAll string
  | WriteFile string 'o
  | OpenFile string
  | AppGenesisFromFile string
  | CreateFile string
  | CopyContent
  | SyncFile
  | InitializeNodeValidatorFiles "'o node_config"
  | NewKeyring string
  | NewSigningAlgo string
  | GenerateSaveCoinKey string
  | SetMsgs "'o create_validator"
  | SignTx "'o gentx"
  | WriteAppConfig string "'o app_config"
  | SaveGenesisDoc string string 'o          \<comment> \<open>file, chain id, application state\<close>
  | GenAppState string string string "'o option" "'o node_config"  \<comment> \<open>chain id, gentx directory, node id and key\<close>
  | WriteNodeConfig string "'o node_config"
  | ExportGenesisFile string string 'o       \<comment> \<open>file, chain id, application state\<close>

record init_args =
  algo :: string
  chainID :: string
  keyringBackend :: string
  minGasPrices :: string
  nodeDirPrefix :: string
  numValidators :: int
  outputDir :: string
  startingIPAddress :: string
  validatorsStakesAmount :: "nat \<Rightarrow> coin option"
  ports :: "nat \<Rightarrow> string option"

text \<open>
  An error the command returns, one it returns with a text in front, a panic, the end of the process inside a call,
  a slice that cannot be made, and an index out of range
\<close>

datatype 'x mstop =
    Returned 'x
  | ReturnedWrapped string 'x
  | Panicked 'x
  | Exited 'x
  | MakePanic
  | IndexPanic

text \<open>How a call can end without returning\<close>

datatype 'x fatal =
    FatalPanic 'x
  | FatalExit 'x

text \<open>
  Operations without an error result that can panic: the strings of an address, the default genesis, the
  \<^verbatim>\<open>Must\<close> functions of the JSON codec, sanitizing balances and adding coins
\<close>

datatype 'o panic_op =
    AccAddress_String 'o
  | ValAddress_String 'o
  | DefaultGenesis_JSON
  | MustUnmarshalJSON_auth
  | MustMarshalJSON_auth "'o list"
  | MustUnmarshalJSON_bank
  | Sanitize_Balances "balance list"
  | Supply_Add "coin list" "coin list"
  | MustMarshalJSON_bank "balance list" "coin list"

record ('o, 'x) host =
  NewIntFromString :: "string \<Rightarrow> int option"
  NewCoin :: "string \<Rightarrow> int \<Rightarrow> 'x + coin"    \<comment> \<open>panics on what is not a coin\<close>
  TokensFromConsensusPower :: "int \<Rightarrow> int"
  BondDenom :: string
  SortCoins :: "coin list \<Rightarrow> coin list"
  AddCoins :: "coin list \<Rightarrow> coin list \<Rightarrow> coin list"
  SanitizeGenesisBalances :: "balance list \<Rightarrow> balance list"
  AccAddressString :: "'o \<Rightarrow> string"
  ValAddressString :: "'o \<Rightarrow> string"
  GenesisFile :: "'o node_config \<Rightarrow> string"
  Intn :: "nat \<Rightarrow> nat"                        \<comment> \<open>the draws below the size of the charset\<close>
  Getwd :: "'x + string"
  MaxSlice :: nat                            \<comment> \<open>the longest slice of 16 byte elements that \<^verbatim>\<open>make\<close> makes\<close>
  FileError :: "'o fcall list \<Rightarrow> 'o fcall \<Rightarrow> 'x option"   \<comment> \<open>the error of a call that returns\<close>
  Fatal :: "'o fcall list \<Rightarrow> 'o fcall \<Rightarrow> 'x fatal option"  \<comment> \<open>a call that does not return\<close>
  OpPanic :: "'o panic_op \<Rightarrow> 'x option"
  NodeFiles :: "'o fcall list \<Rightarrow> string \<times> 'o"
  NewKey :: "'o fcall list \<Rightarrow> 'o \<times> 'o"
  MarshalSecret :: "'o \<Rightarrow> 'x + 'o"
  NewMsgCreateValidator :: "'o create_validator \<Rightarrow> 'x option"
  EncodeTx :: "'o fcall list \<Rightarrow> 'x + 'o"
  DefaultSupply :: "coin list"
  PackAccounts :: "'o list \<Rightarrow> 'x option"
  MarshalAppState :: "'o list \<Rightarrow> balance list \<Rightarrow> coin list \<Rightarrow> 'x + 'o"
  CollectedAppState :: "'o fcall list \<Rightarrow> 'o"
  DefaultAppConfig :: "'o app_config"

type_synonym ('o, 'x, 'a) provisioning = "('o fcall, 'x mstop, 'a) prog"

text \<open>Make a call: it returns with an error or without, or it stops the run.\<close>

fun fatal_stop :: "'x fatal \<Rightarrow> 'x mstop" where
  "fatal_stop (FatalPanic x) = Panicked x"
| "fatal_stop (FatalExit x) = Exited x"

definition call :: "('o, 'x) host \<Rightarrow> 'o fcall \<Rightarrow> ('o, 'x, 'x option) provisioning" where
  "call E c h = (case Fatal E h c of
     Some fatal \<Rightarrow> (Inl (fatal_stop fatal), h @ [c])
   | None \<Rightarrow> (Inr (FileError E h c), h @ [c]))"

text \<open>An operation that panics or gives a value\<close>

definition no_panic :: "('o, 'x) host \<Rightarrow> 'o panic_op \<Rightarrow> ('o, 'x, unit) provisioning" where
  "no_panic E op = check Panicked (OpPanic E op)"

definition require :: "('o, 'x) host \<Rightarrow> 'o fcall \<Rightarrow> ('o, 'x, unit) provisioning" where
  "require E c = seqp (call E c) (check Returned)"

text \<open>
  \<^verbatim>\<open>if err != nil { _ = os.RemoveAll(args.outputDir); return err }\<close>; \<^verbatim>\<open>os.RemoveAll\<close> returns, and its error is dropped.
\<close>

definition or_clean :: "('o, 'x) host \<Rightarrow> string \<Rightarrow> 'x option \<Rightarrow> ('o, 'x, unit) provisioning" where
  "or_clean E dir err =
     (case err of
       None \<Rightarrow> ret ()
     | Some x \<Rightarrow> seqp (perform (FileError E) (RemoveAll dir)) (\<lambda>_. stop (Returned x)))"

definition require_or_clean :: "('o, 'x) host \<Rightarrow> string \<Rightarrow> 'o fcall \<Rightarrow> ('o, 'x, unit) provisioning" where
  "require_or_clean E dir c = seqp (call E c) (or_clean E dir)"

section \<open>The command and its flags\<close>

text \<open>The texts of a command, and a flag with its shorthand, default and usage\<close>

record cobra_doc =
  doc_Use :: string
  doc_Short :: string
  doc_Long :: string

record flag_decl =
  flag_name :: string
  flag_shorthand :: string
  flag_value :: string
  flag_usage :: string

definition Flags_StringP :: "string \<Rightarrow> string \<Rightarrow> string \<Rightarrow> string \<Rightarrow> flag_decl" where
  "Flags_StringP name shorthand value usage =
     \<lparr>flag_name = name, flag_shorthand = shorthand, flag_value = value, flag_usage = usage\<rparr>"

definition Flags_String :: "string \<Rightarrow> string \<Rightarrow> string \<Rightarrow> flag_decl" where
  "Flags_String name value usage = Flags_StringP name '''' value usage"

definition flagNodeDirPrefix :: string where "flagNodeDirPrefix = ''node-dir-prefix''"
definition flagPorts :: string where "flagPorts = ''list-ports''"
definition flagNumValidators :: string where "flagNumValidators = ''v''"
definition flagOutputDir :: string where "flagOutputDir = ''output-dir''"
definition flagValidatorsStakeAmount :: string where "flagValidatorsStakeAmount = ''validators-stake-amount''"
definition flagStartingIPAddress :: string where "flagStartingIPAddress = ''starting-ip-address''"

definition multi_node_doc :: cobra_doc where
  "multi_node_doc =
     \<lparr>doc_Use = ''multi-node'',
      doc_Short = ''Initialize config directories & files for a multi-validator testnet running '' @
        ''locally via separate processes (e.g. Docker Compose or similar)'',
      doc_Long = ''multi-node will setup '' @ [CHR 0x22] @ ''v'' @ [CHR 0x22] @
        '' number of directories and populate each with'' @ [CHR 0x0A] @
        ''necessary files (private validator, genesis, config, etc.) for running '' @ [CHR 0x22] @ ''v'' @
        [CHR 0x22] @ '' validator nodes.'' @ [CHR 0x0A] @ [CHR 0x0A] @
        ''Booting up a network with these validator folders is intended to be used '' @
        ''with Docker Compose,'' @ [CHR 0x0A] @
        ''or a similar setup where each node has a manually configurable IP address.'' @ [CHR 0x0A] @
        [CHR 0x0A] @ ''Note, strict routability for addresses is turned off in the config file.'' @
        [CHR 0x0A] @ [CHR 0x0A] @ ''Example:'' @ [CHR 0x0A] @ [CHR 0x09] @
        ''tatcoind multi-node --v 4 --output-dir ./.testnets --validators-stake-amount '' @
        ''1000000,200000,300000,400000 --list-ports 47222,50434,52851,44210'' @ [CHR 0x0A] @ [CHR 0x09]\<rparr>"

text \<open>\<^verbatim>\<open>addTestnetFlagsToCmd\<close>: the number of validators is an integer flag, written in decimal here.\<close>

definition testnet_flags :: "('o, 'x) host \<Rightarrow> flag_decl list" where
  "testnet_flags E =
     [Flags_String flagNumValidators ''4'' ''Number of validators to initialize the testnet with'',
      Flags_StringP flagOutputDir ''o'' ''./.testnets'' ''Directory to store initialization data for the testnet'',
      Flags_String ''chain-id'' '''' ''genesis file chain-id, if left blank will be randomly created'',
      Flags_String ''minimum-gas-prices'' (''0.0001'' @ BondDenom E)
        ''Minimum gas prices to accept for transactions; All fees in a tx must meet this minimum (e.g. 0.01photino,0.001stake)'',
      Flags_String ''key-type'' ''secp256k1'' ''Key signing algorithm to generate keys for'']"

definition multi_node_flags :: "('o, 'x) host \<Rightarrow> flag_decl list" where
  "multi_node_flags E = testnet_flags E @
     [Flags_String flagPorts '''' ''Ports of nodes (default 26657,26654,26651,26648.. )'',
      Flags_String flagNodeDirPrefix ''validator''
        ''Prefix the directory name for each node with (node results in node0, node1, ...)'',
      Flags_String flagValidatorsStakeAmount ''100000000,100000000,100000000,100000000''
        ''Amount of stake for each validator'',
      Flags_String flagStartingIPAddress ''localhost''
        ''Starting IP address (192.168.0.1 results in persistent peers list ID0@192.168.0.1:46656, ID1@192.168.0.2:46656, ...)'',
      Flags_String ''keyring-backend'' ''test'' (''Select keyring'' @ [CHR 0x27] @ ''s backend (os|file|test)'')]"

section \<open>Flags\<close>

text \<open>
  The loop over the amounts of the flag validators-stake-amount; \<open>pos\<close> is the code's \<^verbatim>\<open>top\<close>, the next index.
\<close>

fun parse_stakes ::
  "('o, 'x) host \<Rightarrow> string list \<Rightarrow> nat \<Rightarrow> (nat \<Rightarrow> coin option) \<Rightarrow> 'x mstop + (nat \<Rightarrow> coin option)" where
  "parse_stakes E [] pos m = Inr m"
| "parse_stakes E (amount # amounts) pos m =
     (case NewIntFromString E amount of
        None \<Rightarrow> parse_stakes E amounts pos m
      | Some a \<Rightarrow>
         (case NewCoin E (BondDenom E) a of
            Inl p \<Rightarrow> Inl (Panicked p)
          | Inr c \<Rightarrow> parse_stakes E amounts (pos + 1) (m(pos \<mapsto> c))))"

fun number_ports :: "string list \<Rightarrow> nat \<Rightarrow> (nat \<Rightarrow> string option) \<Rightarrow> nat \<Rightarrow> string option" where
  "number_ports [] pos m = m"
| "number_ports (port # ps) pos m = number_ports ps (pos + 1) (m(pos \<mapsto> port))"

definition parse_ports :: "string \<Rightarrow> int \<Rightarrow> nat \<Rightarrow> string option" where
  "parse_ports s v =
     (if s = ''''
      then number_ports (map (\<lambda>i. Itoa (26657 - 3 * int i)) [0..<nat v]) 0 Map.empty
      else number_ports (Split (CHR '','') s) 0 Map.empty)"

text \<open>\<^verbatim>\<open>RunE\<close>: the arguments from the values of the string flags and the number of validators\<close>

definition multi_node_args ::
  "('o, 'x) host \<Rightarrow> (string \<Rightarrow> string) \<Rightarrow> int \<Rightarrow> 'x mstop + init_args" where
  "multi_node_args E flag v =
     bindE (parse_stakes E (Split (CHR '','') (flag flagValidatorsStakeAmount)) 0 Map.empty) (\<lambda>stakes.
       Inr \<lparr>algo = flag ''key-type'', chainID = flag ''chain-id'', keyringBackend = flag ''keyring-backend'',
         minGasPrices = flag ''minimum-gas-prices'', nodeDirPrefix = flag flagNodeDirPrefix,
         numValidators = v, outputDir = flag flagOutputDir,
         startingIPAddress = flag flagStartingIPAddress, validatorsStakesAmount = stakes,
         ports = parse_ports (flag flagPorts) v\<rparr>)"

text \<open>The old name of the key type flag\<close>

definition normalize_flag :: "string \<Rightarrow> string" where
  "normalize_flag name = (if name = ''algo'' then ''key-type'' else name)"

section \<open>Helpers\<close>

definition charset :: string where
  "charset = ''abcdefghijklmnopqrstuvwxyz0123456789''"

definition generateRandomString :: "('o, 'x) host \<Rightarrow> nat \<Rightarrow> string" where
  "generateRandomString E len = map (\<lambda>i. charset ! Intn E i) [0..<len]"

definition writeFile :: "('o, 'x) host \<Rightarrow> string \<Rightarrow> string \<Rightarrow> 'o \<Rightarrow> ('o, 'x, unit) provisioning" where
  "writeFile E file dir contents =
     seqp (call E (MkdirAll dir)) (\<lambda>err. seqp (check (ReturnedWrapped (''could not create directory '' @ dir)) err) (\<lambda>_.
       require E (WriteFile file contents)))"

definition copyFile :: "('o, 'x) host \<Rightarrow> string \<Rightarrow> string \<Rightarrow> ('o, 'x, unit) provisioning" where
  "copyFile E src dstDir =
     (let fileName = Base src; dst = Join [dstDir, fileName] in
      seqp (require E (OpenFile src)) (\<lambda>_.
      seqp (require E (CreateFile dst)) (\<lambda>_.
      seqp (require E CopyContent) (\<lambda>_.
        require E SyncFile))))"

definition isSubDir :: "('o, 'x) host \<Rightarrow> string \<Rightarrow> string \<Rightarrow> 'x + bool" where
  "isSubDir E src dstDir =
     bindE (Abs (Getwd E) src) (\<lambda>absSrc.
     bindE (Abs (Getwd E) dstDir) (\<lambda>absDstDir.
       let relativePath = Rel absDstDir absSrc
       in Inr (\<not> HasPrefix relativePath ''..'' \<and> \<not> IsAbs relativePath)))"

section \<open>One node\<close>

record 'o layout =
  nodeConfig :: "'o node_config"
  appConfig :: "'o app_config"
  nodeIDs :: "string list"
  valPubKeys :: "'o option list"
  genAccounts :: "'o list"
  genBalances :: "balance list"
  genFiles :: "string list"
  persistentPeers :: string
  gentxsFiles :: "string list"

definition node_dir_name :: "init_args \<Rightarrow> nat \<Rightarrow> string" where
  "node_dir_name args i = nodeDirPrefix args @ Itoa (int i)"

definition port_of :: "init_args \<Rightarrow> nat \<Rightarrow> string" where
  "port_of args i = (case ports args i of None \<Rightarrow> '''' | Some p \<Rightarrow> p)"

definition memo_of :: "init_args \<Rightarrow> nat \<Rightarrow> string \<Rightarrow> string" where
  "memo_of args i nodeID = nodeID @ ''@'' @ startingIPAddress args @ '':'' @ Itoa (26656 - 3 * int i)"

text \<open>Directories, node files, peers and the key of node \<open>i\<close>: the part before its coins\<close>

definition node_files ::
  "('o, 'x) host \<Rightarrow> init_args \<Rightarrow> nat \<Rightarrow> 'o layout \<Rightarrow> ('o, 'x, 'o layout \<times> 'o) provisioning" where
  "node_files E args i st =
     (let nodeDirName = node_dir_name args i;
          nodeDir = Join [outputDir args, nodeDirName];
          cfg = (nodeConfig st)\<lparr>RootDir := nodeDir, Moniker := nodeDirName,
                  RPC_ListenAddress := ''tcp://0.0.0.0:'' @ port_of args i\<rparr>
      in
      seqp (require_or_clean E (outputDir args) (MkdirAll (Join [nodeDir, ''config'']))) (\<lambda>_.
      seqp (call E (InitializeNodeValidatorFiles cfg)) (\<lambda>err.
      seqp (ask (NodeFiles E)) (\<lambda>(nodeID, pubKey).
      seqp (set_index IndexPanic (nodeIDs st) i nodeID) (\<lambda>ids.
      seqp (set_index IndexPanic (valPubKeys st) i (Some pubKey)) (\<lambda>keys.
      seqp (or_clean E (outputDir args) err) (\<lambda>_.
      let memo = memo_of args i nodeID;
          st = st\<lparr>nodeConfig := cfg, nodeIDs := ids, valPubKeys := keys,
                 persistentPeers := (if persistentPeers st = '''' then memo
                                     else persistentPeers st @ '','' @ memo),
                 genFiles := genFiles st @ [GenesisFile E cfg]\<rparr>
      in
      seqp (require E (NewKeyring nodeDir)) (\<lambda>_.
      seqp (require E (NewSigningAlgo (algo args))) (\<lambda>_.
      seqp (require_or_clean E (outputDir args) (GenerateSaveCoinKey nodeDirName)) (\<lambda>_.
      seqp (ask (NewKey E)) (\<lambda>(addr, secret).
      seqp (unwrap Returned (MarshalSecret E secret)) (\<lambda>cliPrint.
      seqp (writeFile E (Join [nodeDir, ''key_seed.json'']) nodeDir cliPrint) (\<lambda>_.
        ret (st, addr))))))))))))))"

definition node_app_config :: "init_args \<Rightarrow> nat \<Rightarrow> 'o app_config \<Rightarrow> 'o app_config" where
  "node_app_config args i app =
     app\<lparr>GRPC_Address := startingIPAddress args @ '':'' @ Itoa (9090 - 2 * int i),
         API_Address := ''tcp://localhost:'' @ Itoa (1317 - int i)\<rparr>"

text \<open>The balance, the signed gentx and the application configuration of node \<open>i\<close>\<close>

definition node_gentx ::
  "('o, 'x) host \<Rightarrow> init_args \<Rightarrow> nat \<Rightarrow> 'o layout \<times> 'o \<Rightarrow> ('o, 'x, 'o layout) provisioning" where
  "node_gentx E args i = (\<lambda>(st, addr).
     let nodeDirName = node_dir_name args i;
         nodeDir = Join [outputDir args, nodeDirName];
         gentxsDir = Join [outputDir args, nodeDirName, ''config'', ''gentx''];
         accTokens = TokensFromConsensusPower E 1000;
         accStakingTokens = TokensFromConsensusPower E 500
     in
     seqp (at_index IndexPanic (nodeIDs st) i) (\<lambda>nodeID.
     let memo = memo_of args i nodeID in
     seqp (unwrap Panicked (NewCoin E ''testtoken'' accTokens)) (\<lambda>c1.
     seqp (unwrap Panicked (NewCoin E (BondDenom E) accStakingTokens)) (\<lambda>c2.
     seqp (no_panic E (AccAddress_String addr)) (\<lambda>_.
     let st = st\<lparr>genBalances := genBalances st @ [\<lparr>Address = AccAddressString E addr, Coins = SortCoins E [c1, c2]\<rparr>],
                genAccounts := genAccounts st @ [addr]\<rparr>
     in
     seqp (case validatorsStakesAmount args i of
             Some c \<Rightarrow> ret c
           | None \<Rightarrow> unwrap Panicked (NewCoin E (BondDenom E) (TokensFromConsensusPower E 100))) (\<lambda>valTokens.
     seqp (no_panic E (ValAddress_String addr)) (\<lambda>_.
     seqp (at_index IndexPanic (valPubKeys st) i) (\<lambda>pubKey.
     let msg = \<lparr>ValidatorAddress = ValAddressString E addr, PubKey = pubKey, Value = valTokens,
                Description_Moniker = nodeDirName, CommissionRates = (1, 1, 1), MinSelfDelegation = 1\<rparr>
     in
     seqp (check Returned (NewMsgCreateValidator E msg)) (\<lambda>_.
     seqp (require E (SetMsgs msg)) (\<lambda>_.
     seqp (require E (SignTx \<lparr>GentxMsg = msg, GentxMemo = memo, GentxChainID = chainID args,
                              GentxKey = nodeDirName\<rparr>)) (\<lambda>_.
     seqp (ask (EncodeTx E)) (\<lambda>r. seqp (unwrap Returned r) (\<lambda>txBz.
     let file = Join [gentxsDir, ''gentx-'' @ nodeID @ ''.json''];
         app = node_app_config args i (appConfig st)
     in
     seqp (writeFile E file gentxsDir txBz) (\<lambda>_.
     seqp (call E (WriteAppConfig (Join [nodeDir, ''config'', ''app.toml'']) app)) (\<lambda>_.
       ret (st\<lparr>gentxsFiles := gentxsFiles st @ [file], appConfig := app\<rparr>))))))))))))))))"

definition node_step ::
  "('o, 'x) host \<Rightarrow> init_args \<Rightarrow> nat \<Rightarrow> 'o layout \<Rightarrow> ('o, 'x, 'o layout) provisioning" where
  "node_step E args i st = seqp (node_files E args i st) (node_gentx E args i)"

section \<open>The shared genesis\<close>

text \<open>\<^verbatim>\<open>bankGenState.Supply = bankGenState.Supply.Add(bal.Coins...)\<close> for every balance\<close>

definition genesis_supply :: "('o, 'x) host \<Rightarrow> balance list \<Rightarrow> ('o, 'x, coin list) provisioning" where
  "genesis_supply E balances =
     foldp (\<lambda>bal supply. seqp (no_panic E (Supply_Add supply (Coins bal))) (\<lambda>_.
       ret (AddCoins E supply (Coins bal)))) balances (DefaultSupply E)"

definition initGenFiles ::
  "('o, 'x) host \<Rightarrow> string \<Rightarrow> 'o list \<Rightarrow> balance list \<Rightarrow> string list \<Rightarrow> nat \<Rightarrow> ('o, 'x, unit) provisioning" where
  "initGenFiles E chain accounts balances files n =
     seqp (no_panic E DefaultGenesis_JSON) (\<lambda>_.
     seqp (no_panic E MustUnmarshalJSON_auth) (\<lambda>_.
     seqp (check Returned (PackAccounts E accounts)) (\<lambda>_.
     seqp (no_panic E (MustMarshalJSON_auth accounts)) (\<lambda>_.
     seqp (no_panic E MustUnmarshalJSON_bank) (\<lambda>_.
     seqp (no_panic E (Sanitize_Balances balances)) (\<lambda>_.
     let sanitized = SanitizeGenesisBalances E balances in
     seqp (genesis_supply E sanitized) (\<lambda>supply.
     seqp (no_panic E (MustMarshalJSON_bank sanitized supply)) (\<lambda>_.
     seqp (unwrap Returned (MarshalAppState E accounts sanitized supply)) (\<lambda>appGenStateJSON.
       each (\<lambda>i. seqp (at_index IndexPanic files i) (\<lambda>file.
         require E (SaveGenesisDoc file chain appGenStateJSON))) [0..<n])))))))))"

section \<open>Collecting the gentxs\<close>

definition node_network_config :: "init_args \<Rightarrow> string \<Rightarrow> nat \<Rightarrow> 'o node_config \<Rightarrow> 'o node_config" where
  "node_network_config args peers i cfg =
     cfg\<lparr>P2P_PersistentPeers := peers, P2P_AllowDuplicateIP := True,
         P2P_ListenAddress := ''tcp://0.0.0.0:'' @ Itoa (26656 - 3 * int i),
         RPC_ListenAddress := ''tcp://127.0.0.1:'' @ port_of args i,
         ProxyApp := ''tcp://127.0.0.1:'' @ Itoa (26658 - 3 * int i),
         PrometheusListenAddr := '':'' @ Itoa (26660 + int i),
         Prometheus := True\<rparr>"

definition collect_step ::
  "('o, 'x) host \<Rightarrow> init_args \<Rightarrow> string list \<Rightarrow> 'o option list \<Rightarrow> string \<Rightarrow> nat
    \<Rightarrow> 'o node_config \<times> 'o option \<Rightarrow> ('o, 'x, 'o node_config \<times> 'o option) provisioning" where
  "collect_step E args ids keys peers i = (\<lambda>(cfg, appState).
     let nodeDirName = node_dir_name args i;
         nodeDir = Join [outputDir args, nodeDirName];
         gentxsDir = Join [nodeDir, ''config'', ''gentx''];
         cfg = cfg\<lparr>Moniker := nodeDirName, RootDir := nodeDir\<rparr>
     in
     seqp (at_index IndexPanic ids i) (\<lambda>nodeID.
     seqp (at_index IndexPanic keys i) (\<lambda>valPubKey.
     seqp (require E (AppGenesisFromFile (GenesisFile E cfg))) (\<lambda>_.
     seqp (require E (GenAppState (chainID args) gentxsDir nodeID valPubKey cfg)) (\<lambda>_.
     seqp (ask (CollectedAppState E)) (\<lambda>nodeAppState.
     let cfg = node_network_config args peers i cfg;
         appState = (case appState of None \<Rightarrow> nodeAppState | Some s \<Rightarrow> s)
     in
     seqp (call E (WriteNodeConfig (Join [RootDir cfg, ''config'', ''config.toml'']) cfg)) (\<lambda>_.
     seqp (require E (ExportGenesisFile (GenesisFile E cfg) (chainID args) appState)) (\<lambda>_.
       ret (cfg, Some appState)))))))))"

definition collectGenFiles ::
  "('o, 'x) host \<Rightarrow> init_args \<Rightarrow> 'o node_config \<Rightarrow> string list \<Rightarrow> 'o option list \<Rightarrow> string \<Rightarrow> nat
    \<Rightarrow> ('o, 'x, unit) provisioning" where
  "collectGenFiles E args cfg ids keys peers n =
     seqp (foldp (collect_step E args ids keys peers) [0..<n] (cfg, None)) (\<lambda>_. ret ())"

section \<open>The whole layout\<close>

text \<open>Copy every gentx into the gentx directory of every node, unless it is there already.\<close>

definition copy_gentx :: "('o, 'x) host \<Rightarrow> init_args \<Rightarrow> nat \<Rightarrow> string \<Rightarrow> ('o, 'x, unit) provisioning" where
  "copy_gentx E args i file =
     (let nodeDir = Join [outputDir args, node_dir_name args i];
          gentxsDir = Join [nodeDir, ''config'', ''gentx'']
      in case isSubDir E file gentxsDir of
        Inl err \<Rightarrow> ret ()
      | Inr yes \<Rightarrow> if yes then ret () else copyFile E file gentxsDir)"

definition base_app_config :: "('o, 'x) host \<Rightarrow> init_args \<Rightarrow> 'o app_config" where
  "base_app_config E args =
     (let c = DefaultAppConfig E;
          c = c\<lparr>MinGasPrices := minGasPrices args\<rparr>;
          c = c\<lparr>API_Enable := False\<rparr>;
          c = c\<lparr>MinGasPrices := ''0.0001'' @ BondDenom E\<rparr>;
          c = c\<lparr>EnableHostnameLabel := False\<rparr>;
          c = c\<lparr>Telemetry_Enabled := False\<rparr>
      in c\<lparr>PrometheusRetentionTime := 0\<rparr>)"

definition initial_layout :: "('o, 'x) host \<Rightarrow> init_args \<Rightarrow> 'o node_config \<Rightarrow> nat \<Rightarrow> 'o layout" where
  "initial_layout E args cfg n =
     \<lparr>nodeConfig = cfg, appConfig = base_app_config E args, nodeIDs = replicate n '''',
      valPubKeys = replicate n None, genAccounts = [], genBalances = [], genFiles = [],
      persistentPeers = '''', gentxsFiles = []\<rparr>"

text \<open>What follows the loop over the nodes\<close>

definition share_files :: "('o, 'x) host \<Rightarrow> init_args \<Rightarrow> nat \<Rightarrow> 'o layout \<Rightarrow> ('o, 'x, unit) provisioning" where
  "share_files E args n st =
     seqp (initGenFiles E (chainID args) (genAccounts st) (genBalances st) (genFiles st) n) (\<lambda>_.
     seqp (each (\<lambda>i. each (copy_gentx E args i) (gentxsFiles st)) [0..<n]) (\<lambda>_.
       collectGenFiles E args (nodeConfig st) (nodeIDs st) (valPubKeys st) (persistentPeers st) n))"

definition initTestnetFiles ::
  "('o, 'x) host \<Rightarrow> init_args \<Rightarrow> 'o node_config \<Rightarrow> ('o, 'x, unit) provisioning" where
  "initTestnetFiles E args cfg =
     (let args = (if chainID args = '''' then args\<lparr>chainID := ''chain-'' @ generateRandomString E 6\<rparr> else args);
          n = nat (numValidators args)
      in
      if numValidators args < 0 \<or> int (MaxSlice E) < numValidators args then stop MakePanic
      else
        seqp (foldp (node_step E args) [0..<n] (initial_layout E args cfg n)) (share_files E args n))"

text \<open>\<^verbatim>\<open>RunE\<close>, with the error of asking for the client context\<close>

definition multi_node_cmd ::
  "('o, 'x) host \<Rightarrow> 'x option \<Rightarrow> (string \<Rightarrow> string) \<Rightarrow> int \<Rightarrow> 'o node_config \<Rightarrow> ('o, 'x, unit) provisioning" where
  "multi_node_cmd E clientErr flag v cfg =
     seqp (check Returned clientErr) (\<lambda>_.
     seqp (unwrap id (multi_node_args E flag v)) (\<lambda>args.
       initTestnetFiles E args cfg))"

end
