(* ===== verification/MultiNodeProperties.thy ===== *)
theory MultiNodeProperties
  imports MultiNode "HOL-Library.Multiset"
begin

text \<open>
  What the multi-node command guarantees: the ports of the nodes, what the stake flag means, the
  application configuration, the peers, the supply of the shared genesis, and which files count as
  lying in a directory.
\<close>

section \<open>Ports\<close>

text \<open>The number after the last colon of an address\<close>

definition port_number :: "string \<Rightarrow> int" where
  "port_number s = int (number (last (Split (CHR '':'') s)) 0)"


lemma Itoa_no_colon: "CHR '':'' \<notin> set (Itoa i)"
  using digits_chars [of "CHR '':''"] by (auto simp: Itoa_def)

lemma port_number_Itoa: "0 \<le> i \<Longrightarrow> port_number (s @ CHR '':'' # Itoa i) = i"
  using Itoa_no_colon [of i]
  by (simp add: port_number_def last_Split_append Split_single) (simp add: Itoa_def number_digits)

lemma number_ports_eq:
  "number_ports ps pos m i = (if pos \<le> i \<and> i < pos + length ps then Some (ps ! (i - pos)) else m i)"
  by (induction ps arbitrary: pos m) (auto simp: nth_Cons' Suc_diff_le)

lemma default_port: "i < nat v \<Longrightarrow> parse_ports '''' v i = Some (Itoa (26657 - 3 * int i))"
  by (simp add: parse_ports_def number_ports_eq)

text \<open>Every address a node listens on, from its final configuration files\<close>

definition node_addresses :: "init_args \<Rightarrow> string \<Rightarrow> 'o node_config \<Rightarrow> 'o app_config \<Rightarrow> nat \<Rightarrow> string list" where
  "node_addresses args peers cfg app i =
     (let c = node_network_config args peers i cfg; a = node_app_config args i app in
      [P2P_ListenAddress c, RPC_ListenAddress c, ProxyApp c, PrometheusListenAddr c,
       GRPC_Address a, API_Address a])"

definition port_table :: "nat \<Rightarrow> int list" where
  "port_table i = [26656 - 3 * int i, 26657 - 3 * int i, 26658 - 3 * int i, 26660 + int i,
     9090 - 2 * int i, 1317 - int i]"

lemma node_addresses_ports:
  assumes "ports args = parse_ports '''' (int n)" "i < n" "n \<le> 1317"
  shows "map port_number (node_addresses args peers cfg app i) = port_table i"
proof -
  have p: "port_of args i = Itoa (26657 - 3 * int i)"
    using assms by (simp add: port_of_def default_port)
  have "port_number (''tcp://0.0.0.0:'' @ Itoa (26656 - 3 * int i)) = 26656 - 3 * int i"
    "port_number (''tcp://127.0.0.1:'' @ Itoa (26657 - 3 * int i)) = 26657 - 3 * int i"
    "port_number (''tcp://127.0.0.1:'' @ Itoa (26658 - 3 * int i)) = 26658 - 3 * int i"
    "port_number ('':'' @ Itoa (26660 + int i)) = 26660 + int i"
    "port_number (startingIPAddress args @ '':'' @ Itoa (9090 - 2 * int i)) = 9090 - 2 * int i"
    "port_number (''tcp://localhost:'' @ Itoa (1317 - int i)) = 1317 - int i"
    using assms port_number_Itoa [of "26656 - 3 * int i" "''tcp://0.0.0.0''"]
      port_number_Itoa [of "26657 - 3 * int i" "''tcp://127.0.0.1''"]
      port_number_Itoa [of "26658 - 3 * int i" "''tcp://127.0.0.1''"]
      port_number_Itoa [of "26660 + int i" "''''"]
      port_number_Itoa [of "9090 - 2 * int i" "startingIPAddress args"]
      port_number_Itoa [of "1317 - int i" "''tcp://localhost''"]
    by simp_all
  then show ?thesis
    by (simp add: node_addresses_def node_network_config_def node_app_config_def p port_table_def Let_def)
qed

lemma port_table_apart: "i < j \<Longrightarrow> j < 1317 \<Longrightarrow> set (port_table i) \<inter> set (port_table j) = {}"
  by (auto simp: port_table_def; presburger)

lemma port_tables_distinct: "n \<le> 1317 \<Longrightarrow> distinct (concat (map port_table [0..<n]))"
proof (induction n)
  case (Suc n)
  have "distinct (port_table n)" using Suc.prems by (auto simp: port_table_def; presburger)
  moreover have "x \<notin> set (port_table n)" if "i < n" "x \<in> set (port_table i)" for i x
    using port_table_apart [OF that(1)] that(2) Suc.prems by auto
  ultimately show ?case using Suc by auto
qed simp

section \<open>The calls of the parts\<close>

lemma calls_call [calls_rules]: "Q c \<Longrightarrow> calls Q (call E c)"
  by (simp add: calls_def call_def split: option.split)

lemma calls_no_panic [calls_rules]: "calls Q (no_panic E op)"
  unfolding no_panic_def by (intro calls_rules)

lemma call_Inr [simp]:
  "call E c h = (Inr err, h') \<longleftrightarrow> Fatal E h c = None \<and> err = FileError E h c \<and> h' = h @ [c]"
  by (auto simp: call_def split: option.splits)

lemma no_panic_Inr [simp]: "no_panic E op h = (Inr u, h') \<longleftrightarrow> OpPanic E op = None \<and> h' = h"
  by (simp add: no_panic_def)

lemma calls_foldp: "(\<And>x s. calls Q (f x s)) \<Longrightarrow> calls Q (foldp f xs s)"
  by (induction xs arbitrary: s) (auto intro: calls_seqp)

lemma calls_genesis_supply [calls_rules]: "calls Q (genesis_supply E bals)"
  unfolding genesis_supply_def by (intro calls_foldp calls_rules)

lemma require_Inr [simp]:
  "require E c h = (Inr u, h') \<longleftrightarrow> Fatal E h c = None \<and> FileError E h c = None \<and> h' = h @ [c]"
  by (auto simp: require_def seqp_Inr)

lemma calls_require [calls_rules]: "Q c \<Longrightarrow> calls Q (require E c)"
  unfolding require_def by (intro calls_rules)

lemma calls_or_clean [calls_rules]: "Q (RemoveAll dir) \<Longrightarrow> calls Q (or_clean E dir err)"
  unfolding or_clean_def by (intro calls_rules)

lemma calls_require_or_clean [calls_rules]:
  "Q c \<Longrightarrow> Q (RemoveAll dir) \<Longrightarrow> calls Q (require_or_clean E dir c)"
  unfolding require_or_clean_def by (intro calls_rules)

lemma calls_writeFile [calls_rules]:
  "Q (MkdirAll dir) \<Longrightarrow> Q (WriteFile file contents) \<Longrightarrow> calls Q (writeFile E file dir contents)"
  unfolding writeFile_def by (intro calls_rules)

lemma calls_copyFile [calls_rules]:
  "Q (OpenFile src) \<Longrightarrow> Q (CreateFile (Join [dir, Base src])) \<Longrightarrow> Q CopyContent \<Longrightarrow> Q SyncFile
    \<Longrightarrow> calls Q (copyFile E src dir)"
  unfolding copyFile_def Let_def by (intro calls_rules)

text \<open>What the configuration files say: node configurations and their paths \<open>NC\<close>, application configurations \<open>AC\<close>\<close>

fun config_call :: "(string \<Rightarrow> 'o node_config \<Rightarrow> bool) \<Rightarrow> ('o app_config \<Rightarrow> bool) \<Rightarrow> 'o fcall \<Rightarrow> bool" where
  "config_call NC AC (WriteNodeConfig p c) = NC p c"
| "config_call NC AC (WriteAppConfig p c) = AC c"
| "config_call NC AC _ = True"

text \<open>The peers of the first \<open>i\<close> nodes\<close>

definition peer_list :: "init_args \<Rightarrow> string list \<Rightarrow> nat \<Rightarrow> string" where
  "peer_list args ids i = Join_with '','' (map (\<lambda>j. memo_of args j (ids ! j)) [0..<i])"

definition layout_ok :: "string \<Rightarrow> init_args \<Rightarrow> nat \<Rightarrow> nat \<Rightarrow> 'o layout \<Rightarrow> bool" where
  "layout_ok g args n i st \<longleftrightarrow>
     MinGasPrices (appConfig st) = g \<and> length (nodeIDs st) = n
     \<and> persistentPeers st = peer_list args (nodeIDs st) i"

lemma memo_nonempty: "memo_of args i ID \<noteq> ''''"
  by (simp add: memo_of_def)

lemma peer_list_Suc:
  assumes "i < length ids"
  shows "peer_list args (ids[i := ID]) (Suc i) =
    (if peer_list args ids i = '''' then memo_of args i ID else peer_list args ids i @ '','' @ memo_of args i ID)"
proof -
  let ?ms = "map (\<lambda>j. memo_of args j (ids ! j)) [0..<i]"
  have p: "peer_list args (ids[i := ID]) (Suc i) = Join_with '','' (?ms @ [memo_of args i ID])"
    using assms by (auto simp: peer_list_def intro!: arg_cong [of _ _ "Join_with _"])
  show ?thesis
  proof (cases i)
    case 0
    with p show ?thesis by (simp add: peer_list_def)
  next
    case (Suc k)
    then have ms: "?ms \<noteq> []" by simp
    have "Join_with '','' ?ms \<noteq> ''''"
      using Join_with_nonempty [OF ms] memo_nonempty by auto
    with p ms show ?thesis by (simp add: peer_list_def Join_with_snoc)
  qed
qed

lemma node_files_ok:
  assumes "layout_ok g args n i st" "i < n"
  shows "yields (\<lambda>(st', addr). layout_ok g args n (Suc i) st') (node_files E args i st)"
  unfolding node_files_def Let_def using assms
  by (simp add: layout_ok_def, intro yields_seqp)
     (auto intro!: yields_seqp yields_ret simp: peer_list_Suc)

lemma node_files_calls: "calls (config_call NC AC) (node_files E args i st)"
  unfolding node_files_def Let_def by (intro calls_rules) simp_all

lemma node_gentx_ok:
  assumes "layout_ok g args n k st"
  shows "yields (layout_ok g args n k) (node_gentx E args i (st, addr))"
  using assms unfolding node_gentx_def Let_def prod.case
  by (intro yields_seqp yields_ret) (simp add: layout_ok_def node_app_config_def)

lemma node_gentx_calls:
  assumes "MinGasPrices (appConfig st) = g"
  shows "calls (config_call NC (\<lambda>c. MinGasPrices c = g)) (node_gentx E args i (st, addr))"
  using assms unfolding node_gentx_def Let_def prod.case
  by (intro calls_rules) (simp_all add: node_app_config_def)

lemma node_step_ok:
  assumes "layout_ok g args n i st" "i < n"
  shows "calls (config_call NC (\<lambda>c. MinGasPrices c = g)) (node_step E args i st)
    \<and> yields (layout_ok g args n (Suc i)) (node_step E args i st)"
proof -
  note files = node_files_ok [OF assms]
  have "calls (config_call NC (\<lambda>c. MinGasPrices c = g)) (node_gentx E args i x)"
    "yields (layout_ok g args n (Suc i)) (node_gentx E args i x)"
    if "case x of (st', addr) \<Rightarrow> layout_ok g args n (Suc i) st'" for x
    using that by (cases x, auto intro: node_gentx_calls node_gentx_ok simp: layout_ok_def)+
  then show ?thesis
    unfolding node_step_def
    using calls_seqp_yields [OF node_files_calls files] yields_seqp_yields [OF files] by blast
qed

lemma nodes_ok:
  assumes "MinGasPrices (base_app_config E args) = g"
  shows "calls (config_call NC (\<lambda>c. MinGasPrices c = g))
      (foldp (node_step E args) [0..<n] (initial_layout E args cfg n))
    \<and> yields (layout_ok g args n n) (foldp (node_step E args) [0..<n] (initial_layout E args cfg n))"
proof (rule foldp_upto [where I = "layout_ok g args n"])
  show "layout_ok g args n 0 (initial_layout E args cfg n)"
    using assms by (simp add: layout_ok_def initial_layout_def peer_list_def)
qed (rule node_step_ok)

lemma collect_step_calls:
  assumes "\<And>c. NC (Join [Join [outputDir args, node_dir_name args i], ''config'', ''config.toml''])
      (node_network_config args peers i c)"
  shows "calls (config_call NC AC) (collect_step E args ids keys peers i (c, app))"
  unfolding collect_step_def Let_def prod.case
  by (intro calls_rules) (use assms in \<open>simp_all add: node_network_config_def\<close>)

text \<open>The configuration file of node \<open>i\<close>, with its port and the peers\<close>

definition node_file_of :: "init_args \<Rightarrow> nat \<Rightarrow> string \<Rightarrow> string \<Rightarrow> 'o node_config \<Rightarrow> bool" where
  "node_file_of args n peers p c \<longleftrightarrow> (\<exists>i < n. p = Join [Join [outputDir args, node_dir_name args i], ''config'', ''config.toml'']
     \<and> P2P_ListenAddress c = ''tcp://0.0.0.0:'' @ Itoa (26656 - 3 * int i)) \<and> P2P_PersistentPeers c = peers"

lemma collect_calls: "calls (config_call (node_file_of args n peers) AC) (collectGenFiles E args cfg ids keys peers n)"
proof -
  have "calls (config_call (node_file_of args n peers) AC) (collect_step E args ids keys peers i s)
      \<and> yields (\<lambda>_. True) (collect_step E args ids keys peers i s)" if "i < n" for i s
  proof
    obtain c app where s: "s = (c, app)" by (cases s)
    show "calls (config_call (node_file_of args n peers) AC) (collect_step E args ids keys peers i s)"
      unfolding s by (rule collect_step_calls) (use that in \<open>auto simp: node_file_of_def node_network_config_def\<close>)
  qed (simp add: yields_def)
  then have "calls (config_call (node_file_of args n peers) AC) (foldp (collect_step E args ids keys peers) [0..<n] (cfg, None))"
    by (intro foldp_upto [where I = "\<lambda>_ _. True", THEN conjunct1]) auto
  then show ?thesis unfolding collectGenFiles_def by (intro calls_rules)
qed

lemma genesis_calls: "calls (config_call NC AC) (initGenFiles E chain accounts bals files n)"
  unfolding initGenFiles_def Let_def by (intro calls_rules) simp_all

lemma copy_calls: "calls (config_call NC AC) (each (\<lambda>i. each (copy_gentx E args i) files) [0..<n])"
  unfolding copy_gentx_def Let_def by (intro calls_rules) simp_all

text \<open>The identifier of node \<open>i\<close>: what \<^verbatim>\<open>InitializeNodeValidatorFiles\<close> gave in this run for the directory of the node\<close>

definition identified :: "('o, 'x) host \<Rightarrow> init_args \<Rightarrow> 'o fcall list \<Rightarrow> 'o fcall list \<Rightarrow> nat \<Rightarrow> string \<Rightarrow> bool" where
  "identified E args h t i nodeID \<longleftrightarrow> (\<exists>pre cfg post. t = pre @ InitializeNodeValidatorFiles cfg # post
     \<and> RootDir cfg = Join [outputDir args, node_dir_name args i] \<and> Moniker cfg = node_dir_name args i
     \<and> nodeID = fst (NodeFiles E (h @ pre @ [InitializeNodeValidatorFiles cfg])))"

lemma identified_append:
  "identified E args h t i nodeID \<Longrightarrow> identified E args h (t @ t') i nodeID"
  "identified E args (h @ t) t' i nodeID \<Longrightarrow> identified E args h (t @ t') i nodeID"
  unfolding identified_def by (metis append.assoc append_Cons)+

lemma node_files_identified:
  assumes "node_files E args i st h = (Inr (st', addr), h')"
  shows "\<exists>t nodeID. h' = h @ t \<and> i < length (nodeIDs st) \<and> nodeIDs st' = (nodeIDs st)[i := nodeID]
    \<and> identified E args h t i nodeID"
proof -
  let ?c = "InitializeNodeValidatorFiles ((nodeConfig st)\<lparr>RootDir := Join [outputDir args, node_dir_name args i],
      Moniker := node_dir_name args i, RPC_ListenAddress := ''tcp://0.0.0.0:'' @ port_of args i\<rparr>)"
  let ?m = "MkdirAll (Join [Join [outputDir args, node_dir_name args i], ''config''])"
  have t: "\<exists>t nodeID. h' = h @ [?m, ?c] @ t \<and> i < length (nodeIDs st) \<and> nodeIDs st' = (nodeIDs st)[i := nodeID]
    \<and> nodeID = fst (NodeFiles E (h @ [?m, ?c]))"
    using assms unfolding node_files_def Let_def
    by (clarsimp simp: seqp_Inr require_or_clean_def or_clean_def writeFile_def split: option.splits prod.splits)
  then show ?thesis
    unfolding identified_def
    by (elim exE conjE) (rule exI, rule exI, intro conjI, assumption, assumption, assumption,
      rule exI [of _ "[?m]"], rule exI, rule exI, intro conjI, simp, simp, simp, simp)
qed

lemma node_step_identified:
  assumes "node_step E args i st h = (Inr st', h')"
  shows "\<exists>t nodeID. h' = h @ t \<and> i < length (nodeIDs st) \<and> nodeIDs st' = (nodeIDs st)[i := nodeID]
    \<and> identified E args h t i nodeID"
proof -
  from assms obtain st1 addr h1 where f: "node_files E args i st h = (Inr (st1, addr), h1)"
    and g: "node_gentx E args i (st1, addr) h1 = (Inr st', h')"
    by (auto simp: node_step_def seqp_Inr)
  have "calls (\<lambda>_. True) (node_gentx E args i (st1, addr))"
    unfolding node_gentx_def Let_def prod.case by (intro calls_rules TrueI)
  then obtain t' where t': "h' = h1 @ t'" using g by (rule callsD)
  have "yields (\<lambda>st'. nodeIDs st' = nodeIDs st1) (node_gentx E args i (st1, addr))"
    unfolding node_gentx_def Let_def prod.case by (intro yields_seqp yields_ret) simp
  then have "nodeIDs st' = nodeIDs st1" using g by (rule yieldsD)
  with node_files_identified [OF f] t' identified_append(1) show ?thesis by (metis append.assoc)
qed

lemma nodes_identified:
  assumes "foldp (node_step E args) [0..<n] (initial_layout E args cfg n) h = (Inr st, h')"
  shows "\<exists>t. h' = h @ t \<and> length (nodeIDs st) = n \<and> (\<forall>j < n. identified E args h t j (nodeIDs st ! j))"
proof (rule foldp_upto_Inr [OF assms, where I = "\<lambda>i st h'. \<exists>t. h' = h @ t \<and> length (nodeIDs st) = n
    \<and> (\<forall>j < i. identified E args h t j (nodeIDs st ! j))"])
  fix i st1 h1 st2 h2
  assume I: "\<exists>t. h1 = h @ t \<and> length (nodeIDs st1) = n \<and> (\<forall>j < i. identified E args h t j (nodeIDs st1 ! j))"
    and s: "node_step E args i st1 h1 = (Inr st2, h2)"
  from I obtain t where t: "h1 = h @ t" "length (nodeIDs st1) = n" "\<forall>j < i. identified E args h t j (nodeIDs st1 ! j)"
    by blast
  from node_step_identified [OF s] obtain t' nodeID where t': "h2 = h1 @ t'" "i < n"
    "nodeIDs st2 = (nodeIDs st1)[i := nodeID]" "identified E args (h @ t) t' i nodeID"
    using t by blast
  have "identified E args h (t @ t') j (nodeIDs st2 ! j)" if "j < Suc i" for j
    using that t t' by (cases "j = i") (auto simp: less_Suc_eq intro: identified_append)
  then show "\<exists>t. h2 = h @ t \<and> length (nodeIDs st2) = n \<and> (\<forall>j < Suc i. identified E args h t j (nodeIDs st2 ! j))"
    using t t' by (intro exI [of _ "t @ t'"]) simp
qed (simp add: initial_layout_def)

text \<open>All configuration files of a run, whether it ends well or not\<close>

lemma testnet_configs:
  "\<exists>t ids. snd (initTestnetFiles E args cfg h) = h @ t \<and> length ids = nat (numValidators args)
    \<and> list_all (config_call
        (\<lambda>p c. node_file_of args (length ids) (peer_list args ids (length ids)) p c
          \<and> (\<forall>j < length ids. identified E args h t j (ids ! j)))
        (\<lambda>c. MinGasPrices c = ''0.0001'' @ BondDenom E)) t"
proof (cases "numValidators args < 0 \<or> int (MaxSlice E) < numValidators args")
  case True
  then show ?thesis
    by (intro exI [of _ "[]"] exI [of _ "replicate (nat (numValidators args)) ''''"])
       (auto simp: initTestnetFiles_def Let_def stop_def)
next
  case False
  define args' where "args' = (if chainID args = '''' then args\<lparr>chainID := ''chain-'' @ generateRandomString E 6\<rparr> else args)"
  let ?n = "nat (numValidators args)" and ?g = "''0.0001'' @ BondDenom E"
  let ?AC = "\<lambda>c. MinGasPrices c = ?g"
  let ?nodes = "foldp (node_step E args') [0..<?n] (initial_layout E args' cfg ?n)"
  have same: "numValidators args' = numValidators args" "peer_list args' = peer_list args"
      "node_file_of args' = node_file_of args" "identified E args' = identified E args"
    by (simp_all add: fun_eq_iff peer_list_def memo_of_def node_file_of_def identified_def node_dir_name_def args'_def)
  have run: "initTestnetFiles E args cfg = seqp ?nodes (share_files E args' ?n)"
    using False by (simp add: initTestnetFiles_def Let_def args'_def)
  have "MinGasPrices (base_app_config E args') = ?g" by (simp add: base_app_config_def Let_def)
  note nodes = nodes_ok [OF this, of _ ?n cfg]
  obtain r h1 where r: "?nodes h = (r, h1)" by (cases "?nodes h")
  obtain t1 where t1: "h1 = h @ t1" "list_all (config_call (\<lambda>_ _. False) ?AC) t1"
    using conjunct1 [OF nodes [of "\<lambda>_ _. False"]] r by (rule callsD)
  have t1': "list_all (config_call NC ?AC) t1" for NC
    by (rule list.pred_mono_strong [OF t1(2)]) (auto elim!: config_call.elims)
  show ?thesis
  proof (cases r)
    case (Inl e)
    then show ?thesis using t1(1) t1' r unfolding run seqp_def
      by (intro exI [of _ t1] exI [of _ "replicate ?n ''''"]) simp
  next
    case (Inr st)
    with r have "layout_ok ?g args' ?n ?n st" using yieldsD [OF conjunct2 [OF nodes]] by metis
    then have st: "length (nodeIDs st) = ?n" "persistentPeers st = peer_list args (nodeIDs st) ?n"
      by (simp_all add: layout_ok_def same)
    have ids: "\<forall>j < ?n. identified E args h (t1 @ t2) j (nodeIDs st ! j)" for t2
      using nodes_identified [of E args' ?n cfg h st h1] r Inr t1(1) by (auto simp: same intro: identified_append(1))
    have "calls (config_call (node_file_of args ?n (persistentPeers st)) ?AC) (share_files E args' ?n st)"
      unfolding share_files_def using collect_calls [of args' ?n "persistentPeers st"]
      by (intro calls_rules genesis_calls copy_calls) (simp add: same)
    then obtain t2 where t2: "snd (share_files E args' ?n st h1) = h1 @ t2"
      "list_all (config_call (node_file_of args ?n (persistentPeers st)) ?AC) t2"
      unfolding calls_def by blast
    have "list_all (config_call (\<lambda>p c. node_file_of args ?n (persistentPeers st) p c
        \<and> (\<forall>j < ?n. identified E args h (t1 @ t2) j (nodeIDs st ! j))) ?AC) t2"
      by (rule list.pred_mono_strong [OF t2(2)]) (use ids in \<open>auto elim!: config_call.elims\<close>)
    then show ?thesis using t1(1) t1' t2(1) r Inr st unfolding run seqp_def
      by (intro exI [of _ "t1 @ t2"] exI [of _ "nodeIDs st"]) simp
  qed
qed

section \<open>Paths\<close>

lemma HasPrefix_Join:
  assumes "is_name w"
  shows "HasPrefix (Join_with ''/'' (w # ws)) ''..'' = HasPrefix w ''..''"
proof (cases ws)
  case (Cons v vs)
  from assms obtain a r where w: "w = a # r" by (cases w) (auto simp: is_name_def)
  have "\<not> (a = CHR ''.'' \<and> r = [])" using assms by (simp add: is_name_def w)
  then show ?thesis by (cases r) (auto simp: HasPrefix_def w Cons)
qed simp

lemma not_IsAbs_Join: "is_name w \<Longrightarrow> \<not> IsAbs (Join_with ''/'' (w # ws))"
  by (cases w; cases ws) (auto simp: IsAbs_def HasPrefix_def is_name_def)

lemma Rel_outside:
  assumes "\<not> prefix (components base) (components targ)"
  shows "HasPrefix (Rel base targ) ''..''"
proof -
  obtain up down where s: "strip_common (components base) (components targ) = (up, down)"
    by (cases "strip_common (components base) (components targ)")
  with assms obtain u us where up: "up = u # us"
    using strip_common_prefix [of "components base" "components targ"] by (cases up) auto
  show ?thesis
    by (cases "replicate (length us) ''..'' @ down") (simp_all add: Rel_def s up HasPrefix_def)
qed

lemma Rel_inside:
  assumes "prefix (components base) (components targ)"
  shows "Rel base targ = (let ws = drop (length (components base)) (components targ)
    in if ws = [] then ''.'' else Join_with ''/'' ws)"
  using strip_common_prefix [of "components base" "components targ"] strip_common_rest [OF assms] assms
  by (cases "strip_common (components base) (components targ)") (simp add: Rel_def Let_def)

text \<open>Both paths are absolute, or there is a working directory to read them from.\<close>

lemma isSubDir_from:
  assumes "IsAbs wd" "Getwd E = Inr wd \<or> IsAbs src \<and> IsAbs dst"
  shows "isSubDir E src dst = Inr (prefix (abs_components wd dst) (abs_components wd src)
    \<and> \<not> HasPrefix (case drop (length (abs_components wd dst)) (abs_components wd src) of [] \<Rightarrow> '''' | w # ws \<Rightarrow> w) ''..'')"
proof -
  obtain s where s: "Abs (Getwd E) src = Inr s" "IsAbs s" "components s = abs_components wd src"
    using Abs_components [OF assms(1)] assms(2) by blast
  obtain d where d: "Abs (Getwd E) dst = Inr d" "components d = abs_components wd dst"
    using Abs_components [OF assms(1)] assms(2) by blast
  have e: "isSubDir E src dst = Inr (\<not> HasPrefix (Rel d s) ''..'' \<and> \<not> IsAbs (Rel d s))"
    using s(1) d(1) by (simp add: isSubDir_def Let_def)
  show ?thesis
  proof (cases "prefix (abs_components wd dst) (abs_components wd src)")
    case False
    with Rel_outside [of d s] show ?thesis by (simp add: e s d)
  next
    case True
    then have r: "Rel d s = (let ws = drop (length (abs_components wd dst)) (abs_components wd src)
        in if ws = [] then ''.'' else Join_with ''/'' ws)"
      using Rel_inside [of d s] by (simp only: s d)
    show ?thesis
    proof (cases "drop (length (abs_components wd dst)) (abs_components wd src)")
      case Nil
      then show ?thesis using True by (simp add: e r HasPrefix_def IsAbs_def)
    next
      case (Cons w ws)
      then have "w \<in> set (components s)" unfolding s by (metis in_set_dropD list.set_intros(1))
      then have "is_name w" using components_names [OF s(2)] by (simp add: list_all_iff)
      then have "HasPrefix (Rel d s) ''..'' = HasPrefix w ''..''" "\<not> IsAbs (Rel d s)"
        unfolding r Cons Let_def using HasPrefix_Join not_IsAbs_Join by auto
      then show ?thesis unfolding e using True Cons by simp
    qed
  qed
qed

section \<open>The gentxs\<close>

text \<open>The directory and the file of a node's gentx, as \<open>node_gentx\<close> and as \<open>copy_gentx\<close> spell them\<close>

definition gentx_file :: "init_args \<Rightarrow> string list \<Rightarrow> nat \<Rightarrow> string" where
  "gentx_file args ids j =
     Join [Join [outputDir args, node_dir_name args j, ''config'', ''gentx''], ''gentx-'' @ ids ! j @ ''.json'']"

definition gentx_dir :: "init_args \<Rightarrow> nat \<Rightarrow> string" where
  "gentx_dir args i = Join [Join [outputDir args, node_dir_name args i], ''config'', ''gentx'']"

lemma is_name_dir:
  assumes "CHR ''/'' \<notin> set (nodeDirPrefix args)"
  shows "is_name (node_dir_name args i)"
proof -
  obtain s c where d: "digits i = s @ [c]" by (metis digits_not_Nil rev_exhaust)
  then have "48 \<le> (of_char c :: nat)" "(of_char c :: nat) < 58" using digits_chars [of c i] by auto
  then have c: "c \<noteq> CHR ''.''" by auto
  have "CHR ''/'' \<notin> set (digits i)" using digits_chars [of "CHR ''/''" i] by auto
  moreover have "node_dir_name args i = (nodeDirPrefix args @ s) @ [c]"
    by (simp add: node_dir_name_def Itoa_def d)
  moreover have "nodeDirPrefix args @ s @ [c] \<noteq> ''.''" "nodeDirPrefix args @ s @ [c] \<noteq> ''..''"
    using c by (metis append.assoc last_snoc last.simps list.distinct(1))+
  ultimately show ?thesis using assms d by (auto simp: is_name_def)
qed

lemma node_dir_name_inj: "node_dir_name args i = node_dir_name args j \<longleftrightarrow> i = j"
  by (simp add: node_dir_name_def Itoa_def digits_inj)

lemma is_name_gentx: "CHR ''/'' \<notin> set w \<Longrightarrow> is_name (''gentx-'' @ w @ ''.json'')"
  by (simp add: is_name_def)

lemma is_name_fixed: "is_name ''config''" "is_name ''gentx''"
  by (simp_all add: is_name_def)

text \<open>The output directory has an absolute path.\<close>

definition has_path :: "('o, 'x) host \<Rightarrow> string \<Rightarrow> bool" where
  "has_path E dir \<longleftrightarrow> IsAbs dir \<or> (\<exists>wd. Getwd E = Inr wd \<and> IsAbs wd)"

text \<open>A gentx lies in the directory of its own node only.\<close>

lemma gentx_paths:
  assumes "has_path E (outputDir args)" "CHR ''/'' \<notin> set (nodeDirPrefix args)" "CHR ''/'' \<notin> set (ids ! j)"
  shows "isSubDir E (gentx_file args ids j) (gentx_dir args i) = Inr (i = j)"
    and "Base (gentx_file args ids j) = ''gentx-'' @ ids ! j @ ''.json''"
proof -
  obtain wd where wd: "IsAbs wd" "Getwd E = Inr wd \<or> IsAbs (outputDir args)"
  proof (cases "IsAbs (outputDir args)")
    case True
    then show ?thesis by (intro that [of "''/''"]) (simp_all add: IsAbs_def HasPrefix_def)
  qed (use assms(1) in \<open>auto simp: has_path_def\<close>)
  let ?o = "abs_components wd (outputDir args)" and ?d = "node_dir_name args" and ?w = "''gentx-'' @ ids ! j @ ''.json''"
  note n = is_name_dir [OF assms(2)] is_name_fixed is_name_gentx [OF assms(3)]
  note join = abs_components_Join [OF wd(1)]
  have f: "IsAbs (gentx_file args ids j) = IsAbs (outputDir args)"
      "abs_components wd (gentx_file args ids j) = ?o @ [?d j, ''config'', ''gentx'', ?w]"
    using join [of "[?w]" "Join [outputDir args, ?d j, ''config'', ''gentx'']"]
      join [of "[?d j, ''config'', ''gentx'']" "outputDir args"] n by (simp_all add: gentx_file_def)
  have g: "IsAbs (gentx_dir args i) = IsAbs (outputDir args)"
      "abs_components wd (gentx_dir args i) = ?o @ [?d i, ''config'', ''gentx'']"
    using join [of "[''config'', ''gentx'']" "Join [outputDir args, ?d i]"]
      join [of "[?d i]" "outputDir args"] n by (simp_all add: gentx_dir_def)
  have "Getwd E = Inr wd \<or> IsAbs (gentx_file args ids j) \<and> IsAbs (gentx_dir args i)"
    using wd(2) f(1) g(1) by simp
  from isSubDir_from [OF wd(1) this] show "isSubDir E (gentx_file args ids j) (gentx_dir args i) = Inr (i = j)"
    unfolding f(2) g(2) by (auto simp: node_dir_name_inj HasPrefix_def)
  show "Base (gentx_file args ids j) = ?w"
    using Base_Join [of "[]" ?w] n by (simp add: gentx_file_def)
qed

definition copies :: "init_args \<Rightarrow> string list \<Rightarrow> nat \<Rightarrow> nat \<Rightarrow> 'o fcall list" where
  "copies args ids i j =
     (if i = j then []
      else [OpenFile (gentx_file args ids j),
            CreateFile (Join [gentx_dir args i, ''gentx-'' @ ids ! j @ ''.json'']), CopyContent, SyncFile])"

lemma copy_gentx_Inr:
  assumes "has_path E (outputDir args)" "CHR ''/'' \<notin> set (nodeDirPrefix args)" "CHR ''/'' \<notin> set (ids ! j)"
    and "copy_gentx E args i (gentx_file args ids j) h = (Inr u, h')"
  shows "h' = h @ copies args ids i j"
  using assms(4)
  by (auto simp: copy_gentx_def Let_def gentx_dir_def [symmetric] gentx_paths [OF assms(1-3)] copyFile_def
      seqp_Inr copies_def split: if_splits)

text \<open>The loop over the nodes records their gentx files.\<close>

definition files_ok :: "init_args \<Rightarrow> nat \<Rightarrow> nat \<Rightarrow> 'o layout \<Rightarrow> bool" where
  "files_ok args n i st \<longleftrightarrow> length (nodeIDs st) = n
     \<and> gentxsFiles st = map (gentx_file args (nodeIDs st)) [0..<i]
     \<and> (\<forall>j < i. CHR ''/'' \<notin> set (nodeIDs st ! j))"

lemma yields_ask: "yields (\<lambda>x. \<exists>h. x = f h) (ask f)"
  by (auto simp: yields_def)

lemma node_files_recorded:
  assumes "files_ok args n i st" "i < n" "\<And>g. CHR ''/'' \<notin> set (fst (NodeFiles E g))"
  shows "yields (\<lambda>(st', addr). length (nodeIDs st') = n
      \<and> gentxsFiles st' = map (gentx_file args (nodeIDs st')) [0..<i]
      \<and> (\<forall>j < Suc i. CHR ''/'' \<notin> set (nodeIDs st' ! j))) (node_files E args i st)"
  unfolding node_files_def Let_def
proof (rule yields_seqp, rule yields_seqp, rule yields_seqp_yields [OF yields_ask], goal_cases)
  case (1 u1 u2 x)
  then have x: "CHR ''/'' \<notin> set (fst x)" using assms(3) by auto
  have "map (gentx_file args ((nodeIDs st)[i := fst x])) [0..<i] = map (gentx_file args (nodeIDs st)) [0..<i]"
    by (simp add: gentx_file_def)
  moreover have "CHR ''/'' \<notin> set ((nodeIDs st)[i := fst x] ! j)" if "j < Suc i" for j
    using that assms(1,2) x by (cases "j = i") (auto simp: files_ok_def)
  ultimately show ?case
    using assms(1,2) by (cases x, simp add: files_ok_def) (auto intro!: yields_seqp yields_ret)
qed

lemma node_gentx_recorded:
  assumes "i < n" "length (nodeIDs st) = n" "gentxsFiles st = map (gentx_file args (nodeIDs st)) [0..<i]"
    and "\<forall>j < Suc i. CHR ''/'' \<notin> set (nodeIDs st ! j)"
  shows "yields (files_ok args n (Suc i)) (node_gentx E args i (st, addr))"
  using assms \<open>i < n\<close> unfolding node_gentx_def Let_def prod.case
  by (simp, intro yields_seqp yields_ret) (simp add: files_ok_def gentx_file_def)

text \<open>Only copying creates files.\<close>

fun copying :: "'o fcall \<Rightarrow> bool" where
  "copying (CreateFile p) = True"
| "copying c = False"

lemma no_copying:
  "calls (\<lambda>c. \<not> copying c) (node_step E args i st)"
  "calls (\<lambda>c. \<not> copying c) (initGenFiles E chain accounts bals files n)"
  "calls (\<lambda>c. \<not> copying c) (collect_step E args ids keys peers i s)"
proof -
  show "calls (\<lambda>c. \<not> copying c) (node_step E args i st)"
    unfolding node_step_def node_files_def node_gentx_def Let_def by (intro calls_rules) simp_all
  show "calls (\<lambda>c. \<not> copying c) (initGenFiles E chain accounts bals files n)"
    unfolding initGenFiles_def Let_def by (intro calls_rules) simp_all
  show "calls (\<lambda>c. \<not> copying c) (collect_step E args ids keys peers i s)"
    unfolding collect_step_def Let_def by (intro calls_rules) simp_all
qed

lemma nodes_recorded:
  assumes "\<And>g. CHR ''/'' \<notin> set (fst (NodeFiles E g))"
  shows "calls (\<lambda>c. \<not> copying c) (foldp (node_step E args) [0..<n] (initial_layout E args cfg n))
    \<and> yields (files_ok args n n) (foldp (node_step E args) [0..<n] (initial_layout E args cfg n))"
proof (rule foldp_upto [where I = "files_ok args n"])
  fix i and st :: "'a layout"
  assume "i < n" "files_ok args n i st"
  from node_files_recorded [OF this(2,1) assms]
  show "calls (\<lambda>c. \<not> copying c) (node_step E args i st) \<and> yields (files_ok args n (Suc i)) (node_step E args i st)"
    unfolding node_step_def
    by (intro conjI no_copying(1) [unfolded node_step_def], elim yields_seqp_yields)
       (use \<open>i < n\<close> in \<open>auto intro!: node_gentx_recorded split: prod.splits\<close>)
qed (simp add: files_ok_def initial_layout_def)

lemma collect_no_copying: "calls (\<lambda>c. \<not> copying c) (collectGenFiles E args cfg ids keys peers n)"
proof -
  have "calls (\<lambda>c. \<not> copying c) (foldp (collect_step E args ids keys peers) [0..<n] (cfg, None))"
    using no_copying(3) by (intro foldp_upto [where I = "\<lambda>_ _. True", THEN conjunct1]) (auto simp: yields_def)
  then show ?thesis unfolding collectGenFiles_def by (intro calls_rules)
qed

lemma not_copying: "list_all (\<lambda>c. \<not> copying c) t \<Longrightarrow> list_all (\<lambda>k. case k of CreateFile p \<Rightarrow> False | _ \<Rightarrow> True) t"
  by (erule list.pred_mono_strong) (auto split: fcall.split)

text \<open>What the copying loop did when it returns\<close>

lemma copy_loop_Inr:
  assumes "has_path E (outputDir args)" "CHR ''/'' \<notin> set (nodeDirPrefix args)"
    and "\<forall>j < n. CHR ''/'' \<notin> set (ids ! j)"
    and "each (\<lambda>i. each (copy_gentx E args i) (map (gentx_file args ids) [0..<n])) [0..<n] h = (Inr u, h')"
  shows "h' = h @ concat (map (\<lambda>i. concat (map (copies args ids i) [0..<n])) [0..<n])"
proof (rule each_concat [OF _ assms(4)])
  fix i h1 u1 h2
  assume "each (copy_gentx E args i) (map (gentx_file args ids) [0..<n]) h1 = (Inr u1, h2)"
  then have "each (\<lambda>j. copy_gentx E args i (gentx_file args ids j)) [0..<n] h1 = (Inr u1, h2)"
    by (simp only: each_map)
  then show "h2 = h1 @ concat (map (copies args ids i) [0..<n])"
    using assms(3) by (intro each_concat [rotated]) (auto intro: copy_gentx_Inr [OF assms(1,2)])
qed

section \<open>Properties\<close>

text \<open>
  C30. With the default ports, up to 1317 nodes on one host do not get in each other's way: the
  P2P, RPC, proxy, Prometheus, gRPC and API addresses that their configuration files name have
  pairwise different port numbers, all between 1 and 65535.
\<close>

theorem ports_disjoint:
  assumes "ports args = parse_ports '''' (int n)" "n \<le> 1317"
  shows "distinct (map port_number (concat (map (node_addresses args peers cfg app) [0..<n])))
    \<and> list_all (\<lambda>p. 1 \<le> p \<and> p \<le> 65535) (map port_number (concat (map (node_addresses args peers cfg app) [0..<n])))"
proof -
  have "map port_number (concat (map (node_addresses args peers cfg app) [0..<n]))
      = concat (map (map port_number \<circ> node_addresses args peers cfg app) [0..<n])"
    by (simp add: map_concat)
  also have "\<dots> = concat (map port_table [0..<n])"
    using node_addresses_ports [OF assms(1) _ assms(2)] by (intro arg_cong [of _ _ concat] map_cong) simp_all
  finally have e: "map port_number (concat (map (node_addresses args peers cfg app) [0..<n]))
      = concat (map port_table [0..<n])" .
  have "list_all (\<lambda>p. 1 \<le> p \<and> p \<le> 65535) (concat (map port_table [0..<n]))"
    using assms(2) by (auto simp: list_all_iff port_table_def)
  then show ?thesis unfolding e using port_tables_distinct [OF assms(2)] by blast
qed

definition sample_args :: init_args where
  "sample_args = \<lparr>algo = ''secp256k1'', chainID = '''', keyringBackend = ''test'', minGasPrices = ''7stake'',
     nodeDirPrefix = ''validator'', numValidators = 2, outputDir = ''./.testnets'', startingIPAddress = ''localhost'',
     validatorsStakesAmount = Map.empty, ports = parse_ports '''' 2\<rparr>"

definition sample_node_config :: "nat node_config" where
  "sample_node_config = \<lparr>RootDir = '''', Moniker = '''', RPC_ListenAddress = '''', P2P_PersistentPeers = '''',
     P2P_AllowDuplicateIP = False, P2P_ListenAddress = '''', ProxyApp = '''', Prometheus = False,
     PrometheusListenAddr = '''', node_rest = 0\<rparr>"

definition sample_app_config :: "nat app_config" where
  "sample_app_config = \<lparr>MinGasPrices = '''', API_Enable = True, API_Address = '''', GRPC_Address = '''',
     EnableHostnameLabel = True, Telemetry_Enabled = True, PrometheusRetentionTime = 60, app_rest = 0\<rparr>"

theorem ports_disjoint_witness:
  "distinct (map port_number (concat
    (map (node_addresses sample_args '''' sample_node_config sample_app_config) [0..<2])))"
  by (rule ports_disjoint [THEN conjunct1]) (simp_all add: sample_args_def)

text \<open>
  What the stake flag means: the amounts that parse, in order and without gaps, belong to
  the nodes 0, 1, 2 and so on. An entry that does not parse leaves no gap: the amounts after it move to
  the nodes before (the comment says that the amount of its node falls back to the default).
\<close>

theorem stakes_of_flag:
  assumes "parse_stakes E amounts 0 Map.empty = Inr m"
  shows "\<exists>coins. map (NewCoin E (BondDenom E)) (List.map_filter (NewIntFromString E) amounts) = map Inr coins
    \<and> m = (\<lambda>i. if i < length coins then Some (coins ! i) else None)"
proof -
  have "\<exists>coins. map (NewCoin E (BondDenom E)) (List.map_filter (NewIntFromString E) amounts) = map Inr coins
      \<and> m = (\<lambda>i. if pos \<le> i \<and> i < pos + length coins then Some (coins ! (i - pos)) else m0 i)"
    if "parse_stakes E amounts pos m0 = Inr m" for pos m0
    using that
  proof (induction amounts arbitrary: pos m0)
    case Nil
    then show ?case by (auto simp: List.map_filter_def fun_eq_iff)
  next
    case (Cons w amounts)
    show ?case
    proof (cases "NewIntFromString E w")
      case None
      with Cons show ?thesis by (simp add: List.map_filter_def)
    next
      case (Some a)
      with Cons.prems obtain c where c: "NewCoin E (BondDenom E) a = Inr c"
        and r: "parse_stakes E amounts (pos + 1) (m0(pos \<mapsto> c)) = Inr m"
        by (auto split: sum.splits)
      from Cons.IH [OF r] obtain coins where
        "map (NewCoin E (BondDenom E)) (List.map_filter (NewIntFromString E) amounts) = map Inr coins"
        and m: "m = (\<lambda>i. if pos + 1 \<le> i \<and> i < pos + 1 + length coins then Some (coins ! (i - (pos + 1)))
          else (m0(pos \<mapsto> c)) i)"
        by blast
      then have "map (NewCoin E (BondDenom E)) (List.map_filter (NewIntFromString E) (w # amounts)) = map Inr (c # coins)"
        using Some c by (simp add: List.map_filter_def)
      moreover have "m = (\<lambda>i. if pos \<le> i \<and> i < pos + length (c # coins) then Some ((c # coins) ! (i - pos)) else m0 i)"
        unfolding m by (auto simp: fun_eq_iff nth_Cons' Suc_diff_le)
      ultimately show ?thesis by blast
    qed
  qed
  from this [OF assms] show ?thesis by (simp cong: if_cong)
qed

definition sample_host :: "(nat, string) host" where
  "sample_host = \<lparr>
     NewIntFromString = (\<lambda>w. if w = ''5'' then Some 5 else if w = ''8'' then Some 8 else None),
     NewCoin = (\<lambda>d a. if a < 0 then Inl ''negative coin amount'' else Inr \<lparr>Denom = d, Amount = a\<rparr>),
     TokensFromConsensusPower = (\<lambda>p. p * 1000000), BondDenom = ''stake'',
     SortCoins = rev, AddCoins = (@), SanitizeGenesisBalances = rev,
     AccAddressString = (\<lambda>a. ''tat1'' @ Itoa (int a)), ValAddressString = (\<lambda>a. ''tatvaloper1'' @ Itoa (int a)),
     GenesisFile = (\<lambda>c. RootDir c @ ''/config/genesis.json''), Intn = (\<lambda>i. i), Getwd = Inr ''/w'',
     MaxSlice = 1000, FileError = (\<lambda>h c. None), Fatal = (\<lambda>h c. None), OpPanic = (\<lambda>op. None), NodeFiles = (\<lambda>h. (''id'' @ Itoa (int (length h)), 7)),
     NewKey = (\<lambda>h. (length h, 1)), MarshalSecret = Inr, NewMsgCreateValidator = (\<lambda>m. None),
     EncodeTx = (\<lambda>h. Inr 2), DefaultSupply = [], PackAccounts = (\<lambda>as. None),
     MarshalAppState = (\<lambda>as bs cs. Inr 3), CollectedAppState = (\<lambda>h. 4), DefaultAppConfig = sample_app_config \<rparr>"

theorem stakes_of_flag_witness:
  "\<exists>coins. map (NewCoin sample_host ''stake'') [5, 8] = map Inr coins
    \<and> [0 \<mapsto> \<lparr>Denom = ''stake'', Amount = 5\<rparr>, Suc 0 \<mapsto> \<lparr>Denom = ''stake'', Amount = 8\<rparr>]
      = (\<lambda>i. if i < length coins then Some (coins ! i) else None)"
proof -
  have "parse_stakes sample_host [''5'', ''x'', ''8''] 0 Map.empty
      = Inr [0 \<mapsto> \<lparr>Denom = ''stake'', Amount = 5\<rparr>, Suc 0 \<mapsto> \<lparr>Denom = ''stake'', Amount = 8\<rparr>]"
    by (simp add: sample_host_def)
  from stakes_of_flag [OF this] show ?thesis
    by (simp add: List.map_filter_def sample_host_def)
qed

text \<open>
  C38. The flag minimum-gas-prices has no effect: whatever its value and however the command ends,
  every application configuration it writes has the minimum gas price 0.0001 of the bond denomination.
\<close>

theorem min_gas_price_fixed:
  "\<exists>t. snd (initTestnetFiles E args cfg h) = h @ t
    \<and> list_all (\<lambda>k. case k of WriteAppConfig p c \<Rightarrow> MinGasPrices c = ''0.0001'' @ BondDenom E | _ \<Rightarrow> True) t"
proof -
  obtain t where t: "snd (initTestnetFiles E args cfg h) = h @ t"
    and c: "\<exists>NC. list_all (config_call NC (\<lambda>c. MinGasPrices c = ''0.0001'' @ BondDenom E)) t"
    using testnet_configs [of E args cfg h] by blast
  from c have "list_all (\<lambda>k. case k of WriteAppConfig p c \<Rightarrow> MinGasPrices c = ''0.0001'' @ BondDenom E | _ \<Rightarrow> True) t"
    by (elim exE, elim list.pred_mono_strong) (auto split: fcall.split)
  with t show ?thesis by (intro exI [of _ t]) simp
qed

text \<open>
  C18. Every node configuration of the run is the file config.toml of some node i, which listens on the P2P port
  of node i, and its persistent peers are, for all nodes in order, the identifier of the node, the address and
  the P2P port of the node. The identifiers are those of the run: the one of node i is what the call that makes
  the files of node i, in the directory of node i and under its name, has given.
\<close>

theorem peers_complete:
  "\<exists>t ids. snd (initTestnetFiles E args cfg h) = h @ t \<and> length ids = nat (numValidators args)
    \<and> list_all (\<lambda>k. case k of
        WriteNodeConfig p c \<Rightarrow>
          (\<exists>i < length ids. p = Join [Join [outputDir args, node_dir_name args i], ''config'', ''config.toml'']
              \<and> P2P_ListenAddress c = ''tcp://0.0.0.0:'' @ Itoa (26656 - 3 * int i))
          \<and> P2P_PersistentPeers c = Join_with '','' (map (\<lambda>(i, nodeID).
              nodeID @ ''@'' @ startingIPAddress args @ '':'' @ Itoa (26656 - 3 * int i)) (enumerate 0 ids))
          \<and> list_all (\<lambda>(i, nodeID). \<exists>pre nc post. t = pre @ InitializeNodeValidatorFiles nc # post
              \<and> RootDir nc = Join [outputDir args, node_dir_name args i] \<and> Moniker nc = node_dir_name args i
              \<and> nodeID = fst (NodeFiles E (h @ pre @ [InitializeNodeValidatorFiles nc]))) (enumerate 0 ids)
      | _ \<Rightarrow> True) t"
proof -
  obtain t ids where t: "snd (initTestnetFiles E args cfg h) = h @ t" and n: "length ids = nat (numValidators args)"
    and c: "list_all (config_call
        (\<lambda>p c. node_file_of args (length ids) (peer_list args ids (length ids)) p c
          \<and> (\<forall>j < length ids. identified E args h t j (ids ! j)))
        (\<lambda>c. MinGasPrices c = ''0.0001'' @ BondDenom E)) t"
    using testnet_configs [of E args cfg h] by blast
  have e: "peer_list args ids (length ids) = Join_with '','' (map (\<lambda>(i, nodeID).
      nodeID @ ''@'' @ startingIPAddress args @ '':'' @ Itoa (26656 - 3 * int i)) (enumerate 0 ids))"
    by (auto simp: peer_list_def memo_of_def enumerate_eq_zip intro!: arg_cong [of _ _ "Join_with _"] nth_equalityI)
  have i: "list_all (\<lambda>(i, nodeID). identified E args h t i nodeID) (enumerate 0 ids)"
    if "\<forall>j < length ids. identified E args h t j (ids ! j)"
    using that by (auto simp: list_all_length nth_enumerate_eq)
  have "\<exists>t ids. snd (initTestnetFiles E args cfg h) = h @ t \<and> length ids = nat (numValidators args)
    \<and> list_all (\<lambda>k. case k of
        WriteNodeConfig p c \<Rightarrow>
          (\<exists>i < length ids. p = Join [Join [outputDir args, node_dir_name args i], ''config'', ''config.toml'']
              \<and> P2P_ListenAddress c = ''tcp://0.0.0.0:'' @ Itoa (26656 - 3 * int i))
          \<and> P2P_PersistentPeers c = Join_with '','' (map (\<lambda>(i, nodeID).
              nodeID @ ''@'' @ startingIPAddress args @ '':'' @ Itoa (26656 - 3 * int i)) (enumerate 0 ids))
          \<and> list_all (\<lambda>(i, nodeID). identified E args h t i nodeID) (enumerate 0 ids)
      | _ \<Rightarrow> True) t"
    by (rule exI [of _ t], rule exI [of _ ids], intro conjI t n, rule list.pred_mono_strong [OF c])
      (auto split: fcall.split simp: node_file_of_def e i)
  then show ?thesis unfolding identified_def .
qed

text \<open>The amount of a denomination in a list of coins\<close>

definition amount :: "string \<Rightarrow> coin list \<Rightarrow> int" where
  "amount d coins = sum_list (map Amount (filter (\<lambda>c. Denom c = d) coins))"

lemma genesis_supply_amount:
  assumes "\<And>a b. amount d (AddCoins E a b) = amount d a + amount d b"
  shows "yields (\<lambda>supply. amount d supply
    = amount d (DefaultSupply E) + sum_list (map (\<lambda>b. amount d (Coins b)) bals)) (genesis_supply E bals)"
proof -
  have "yields (\<lambda>supply. amount d supply = amount d s + sum_list (map (\<lambda>b. amount d (Coins b)) bals))
      (foldp (\<lambda>bal supply. seqp (no_panic E (Supply_Add supply (Coins bal))) (\<lambda>_.
         ret (AddCoins E supply (Coins bal)))) bals s)" for s
  proof (induction bals arbitrary: s)
    case (Cons b bals)
    show ?case
      using Cons [of "AddCoins E s (Coins b)"] by (auto simp: yields_def seqp_Inr assms algebra_simps)
  qed (simp add: yields_def)
  then show ?thesis by (simp add: genesis_supply_def)
qed

text \<open>
  C17. The supply of the genesis that the nodes share is the supply of the default bank genesis
  and what the accounts own: in every genesis file that is saved, each denomination's supply is the
  default amount plus the sum of the account balances. This relies on coin addition being addition in each
  denomination, and on sanitizing balances of distinct addresses only reordering them and their coins.
\<close>

theorem genesis_supply_total:
  assumes "\<And>a b. amount d (AddCoins E a b) = amount d a + amount d b"
    and "\<And>bs. distinct (map Address bs) \<Longrightarrow>
      mset (map (\<lambda>b. amount d (Coins b)) (SanitizeGenesisBalances E bs)) = mset (map (\<lambda>b. amount d (Coins b)) bs)"
    and "distinct (map Address bals)"
  shows "\<exists>t. snd (initGenFiles E chain accounts bals files n h) = h @ t
    \<and> list_all (\<lambda>k. \<exists>f appState supply. k = SaveGenesisDoc f chain appState
        \<and> MarshalAppState E accounts (SanitizeGenesisBalances E bals) supply = Inr appState
        \<and> amount d supply = amount d (DefaultSupply E) + sum_list (map (\<lambda>b. amount d (Coins b)) bals)) t"
proof -
  let ?bs = "SanitizeGenesisBalances E bals" and ?total = "\<lambda>bs. sum_list (map (\<lambda>b. amount d (Coins b)) bs)"
  have "?total ?bs = ?total bals"
    using assms(2) [OF assms(3)] by (metis sum_mset_sum_list)
  then have total: "yields (\<lambda>supply. amount d supply = amount d (DefaultSupply E) + ?total bals) (genesis_supply E ?bs)"
    using genesis_supply_amount [OF assms(1), of ?bs] by simp
  have saves: "calls (\<lambda>k. \<exists>f appState supply. k = SaveGenesisDoc f chain appState
        \<and> MarshalAppState E accounts ?bs supply = Inr appState
        \<and> amount d supply = amount d (DefaultSupply E) + ?total bals)
      (seqp (unwrap Returned (MarshalAppState E accounts ?bs sup)) (\<lambda>appGenStateJSON.
         each (\<lambda>i. seqp (at_index IndexPanic files i) (\<lambda>file.
           require E (SaveGenesisDoc file chain appGenStateJSON))) [0..<n]))"
    if "amount d sup = amount d (DefaultSupply E) + ?total bals" for sup
    by (rule calls_seqp_yields [OF calls_unwrap yields_unwrap], intro calls_rules) (use that in blast)
  have "calls (\<lambda>k. \<exists>f appState supply. k = SaveGenesisDoc f chain appState
        \<and> MarshalAppState E accounts ?bs supply = Inr appState
        \<and> amount d supply = amount d (DefaultSupply E) + ?total bals) (initGenFiles E chain accounts bals files n)"
    unfolding initGenFiles_def Let_def
    by (intro calls_seqp calls_no_panic calls_check calls_seqp_yields [OF calls_genesis_supply total] saves)
  then show ?thesis unfolding calls_def by (rule spec)
qed

theorem genesis_supply_total_witness:
  "\<exists>t. snd (initGenFiles sample_host ''c'' [1] [\<lparr>Address = ''b'', Coins = [\<lparr>Denom = ''stake'', Amount = 5\<rparr>]\<rparr>,
      \<lparr>Address = ''a'', Coins = [\<lparr>Denom = ''stake'', Amount = 8\<rparr>]\<rparr>] [''f''] 1 []) = t
    \<and> list_all (\<lambda>k. \<exists>f appState supply. k = SaveGenesisDoc f ''c'' appState
        \<and> MarshalAppState sample_host [1] [\<lparr>Address = ''a'', Coins = [\<lparr>Denom = ''stake'', Amount = 8\<rparr>]\<rparr>,
            \<lparr>Address = ''b'', Coins = [\<lparr>Denom = ''stake'', Amount = 5\<rparr>]\<rparr>] supply = Inr appState
        \<and> amount ''stake'' supply = 13) t"
proof -
  let ?bs = "[\<lparr>Address = ''b'', Coins = [\<lparr>Denom = ''stake'', Amount = 5\<rparr>]\<rparr>,
      \<lparr>Address = ''a'', Coins = [\<lparr>Denom = ''stake'', Amount = 8\<rparr>]\<rparr>]"
  have "amount ''stake'' (AddCoins sample_host a b) = amount ''stake'' a + amount ''stake'' b" for a b
    by (simp add: amount_def sample_host_def)
  moreover have "mset (map (\<lambda>b. amount ''stake'' (Coins b)) (SanitizeGenesisBalances sample_host bs))
      = mset (map (\<lambda>b. amount ''stake'' (Coins b)) bs)" for bs
    by (simp add: sample_host_def)
  moreover have "distinct (map Address ?bs)" by simp
  ultimately have "\<exists>t. snd (initGenFiles sample_host ''c'' [1] ?bs [''f''] 1 []) = [] @ t
    \<and> list_all (\<lambda>k. \<exists>f appState supply. k = SaveGenesisDoc f ''c'' appState
        \<and> MarshalAppState sample_host [1] (SanitizeGenesisBalances sample_host ?bs) supply = Inr appState
        \<and> amount ''stake'' supply = amount ''stake'' (DefaultSupply sample_host)
          + sum_list (map (\<lambda>b. amount ''stake'' (Coins b)) ?bs)) t"
    by (rule genesis_supply_total)
  moreover have "SanitizeGenesisBalances sample_host ?bs = rev ?bs"
    "amount ''stake'' (DefaultSupply sample_host) + sum_list (map (\<lambda>b. amount ''stake'' (Coins b)) ?bs) = 13"
    by (simp_all add: sample_host_def amount_def)
  ultimately show ?thesis by simp
qed


text \<open>
  C39. What the check before a gentx is copied decides for absolute paths: the file counts as lying in the
  directory when the components of the directory are a prefix of the components of the file and the next
  component does not start with two dots. So a file whose name starts with two dots, which does lie in the
  directory, is taken for one outside.
\<close>

theorem isSubDir_components:
  assumes "IsAbs src" "IsAbs dst"
  shows "isSubDir E src dst = Inr (prefix (components dst) (components src)
    \<and> \<not> HasPrefix (case drop (length (components dst)) (components src) of [] \<Rightarrow> '''' | w # ws \<Rightarrow> w) ''..'')"
  using isSubDir_from [of "''/''" E src dst] assms
  by (simp add: abs_components_def) (simp add: IsAbs_def HasPrefix_def)

theorem isSubDir_components_witness:
  "isSubDir sample_host ''/t/v0/config/gentx/gentx-ab.json'' ''/t/./v0//config/gentx'' = Inr True
    \<and> isSubDir sample_host ''/t/v1/config/gentx/gentx-ab.json'' ''/t/v0/config/gentx'' = Inr False
    \<and> isSubDir sample_host ''/t/..a'' ''/t'' = Inr False"
  by (intro conjI, (subst isSubDir_components;
    (simp add: IsAbs_def HasPrefix_def components_def clean_step_def))+)

end
