(* ===== verification/MultiNodeRuns.thy ===== *)
theory MultiNodeRuns
  imports MultiNodeProperties
begin

text \<open>
  Whole runs of the multi-node command: the gentx files and the genesis files that it leaves, when it removes the
  output directory, how it can stop, and that it returns when nothing outside fails.
\<close>

section \<open>Runs that return\<close>

text \<open>The arguments with the chain id that the run uses\<close>

definition with_chain :: "('o, 'x) host \<Rightarrow> init_args \<Rightarrow> init_args" where
  "with_chain E args = (if chainID args = '''' then args\<lparr>chainID := ''chain-'' @ generateRandomString E 6\<rparr> else args)"

lemma with_chain_simps [simp]:
  "outputDir (with_chain E args) = outputDir args" "nodeDirPrefix (with_chain E args) = nodeDirPrefix args"
  "numValidators (with_chain E args) = numValidators args"
  "node_dir_name (with_chain E args) = node_dir_name args"
  "chainID (with_chain E args) \<noteq> ''''"
  "chainID args \<noteq> '''' \<Longrightarrow> with_chain E args = args"
  by (simp_all add: with_chain_def node_dir_name_def fun_eq_iff)

lemma initTestnetFiles_InrE:
  assumes "initTestnetFiles E args cfg h = (Inr u, h')"
  obtains st h1 where
    "foldp (node_step E (with_chain E args)) [0..<nat (numValidators args)]
      (initial_layout E (with_chain E args) cfg (nat (numValidators args))) h = (Inr st, h1)"
    "share_files E (with_chain E args) (nat (numValidators args)) st h1 = (Inr (), h')"
  using assms
  by (auto simp: initTestnetFiles_def with_chain_def [symmetric] Let_def seqp_Inr split: if_splits)

section \<open>The gentxs of a run\<close>

text \<open>
  C19. Every node gets the gentx of every other node, once, and its own is left alone: when the command
  returns, for names without slashes and an output directory that is absolute (or is relative, as by
  default, to a working directory that is known), the files it has created by
  copying are exactly the gentx of node j in the gentx directory of node i for all i and j that differ,
  each copied from the file in which node j's gentx was written. (Copying a gentx over itself would
  empty it.)
\<close>

theorem gentxs_shared:
  assumes "initTestnetFiles E args cfg h = (Inr u, h')"
    and "IsAbs (outputDir args) \<or> (\<exists>wd. Getwd E = Inr wd \<and> IsAbs wd)"
    and "CHR ''/'' \<notin> set (nodeDirPrefix args)" "\<And>g. CHR ''/'' \<notin> set (fst (NodeFiles E g))"
  shows "\<exists>ids pre post. length ids = nat (numValidators args)
    \<and> h' = h @ pre @ concat (map (\<lambda>i. concat (map (\<lambda>j. if i = j then [] else
        [OpenFile (Join [Join [outputDir args, node_dir_name args j, ''config'', ''gentx''], ''gentx-'' @ ids ! j @ ''.json'']),
         CreateFile (Join [Join [Join [outputDir args, node_dir_name args i], ''config'', ''gentx''],
           ''gentx-'' @ ids ! j @ ''.json'']),
         CopyContent, SyncFile]) [0..<length ids])) [0..<length ids]) @ post
    \<and> list_all (\<lambda>k. case k of CreateFile p \<Rightarrow> False | _ \<Rightarrow> True) (pre @ post)"
proof -
  have path: "has_path E (outputDir args)" using assms(2) by (simp add: has_path_def)
  define args' where "args' = with_chain E args"
  have same: "outputDir args' = outputDir args" "nodeDirPrefix args' = nodeDirPrefix args" "copies args' = copies args"
    by (simp_all add: args'_def copies_def gentx_file_def gentx_dir_def fun_eq_iff)
  let ?n = "nat (numValidators args)"
  from assms(1) obtain st h1 where
    nodes: "foldp (node_step E args') [0..<?n] (initial_layout E args' cfg ?n) h = (Inr st, h1)"
    and share: "share_files E args' ?n st h1 = (Inr (), h')"
    unfolding args'_def by (rule initTestnetFiles_InrE)
  from share obtain h2 h3 where
    gen: "initGenFiles E (chainID args') (genAccounts st) (genBalances st) (genFiles st) ?n h1 = (Inr (), h2)"
    and copy: "each (\<lambda>i. each (copy_gentx E args' i) (gentxsFiles st)) [0..<?n] h2 = (Inr (), h3)"
    and collect: "collectGenFiles E args' (nodeConfig st) (nodeIDs st) (valPubKeys st) (persistentPeers st) ?n h3 = (Inr (), h')"
    by (auto simp: share_files_def seqp_Inr)
  note rec = nodes_recorded [of E args' ?n cfg, OF assms(4)]
  have ok: "files_ok args' ?n ?n st" using yieldsD [OF conjunct2 [OF rec] nodes] .
  obtain t1 where t1: "h1 = h @ t1" "list_all (\<lambda>c. \<not> copying c) t1" using conjunct1 [OF rec] nodes by (rule callsD)
  obtain t2 where t2: "h2 = h1 @ t2" "list_all (\<lambda>c. \<not> copying c) t2" using no_copying(2) gen by (rule callsD)
  obtain t4 where t4: "h' = h3 @ t4" "list_all (\<lambda>c. \<not> copying c) t4" using collect_no_copying collect by (rule callsD)
  have "h3 = h2 @ concat (map (\<lambda>i. concat (map (copies args' (nodeIDs st) i) [0..<?n])) [0..<?n])"
    using copy ok path assms(3) by (intro copy_loop_Inr) (simp_all add: files_ok_def same)
  then have h': "h' = h @ (t1 @ t2) @ concat (map (\<lambda>i. concat (map (copies args (nodeIDs st) i) [0..<?n])) [0..<?n]) @ t4"
    by (simp add: t1(1) t2(1) t4(1) same(3))
  have "list_all (\<lambda>k. case k of CreateFile p \<Rightarrow> False | _ \<Rightarrow> True) ((t1 @ t2) @ t4)"
    by (rule not_copying) (simp add: t1(2) t2(2) t4(2))
  moreover have "length (nodeIDs st) = ?n" using ok by (simp add: files_ok_def)
  moreover have "h' = h @ (t1 @ t2) @ concat (map (\<lambda>i. concat (map (\<lambda>j. if i = j then [] else
        [OpenFile (Join [Join [outputDir args, node_dir_name args j, ''config'', ''gentx''], ''gentx-'' @ nodeIDs st ! j @ ''.json'']),
         CreateFile (Join [Join [Join [outputDir args, node_dir_name args i], ''config'', ''gentx''],
           ''gentx-'' @ nodeIDs st ! j @ ''.json'']),
         CopyContent, SyncFile]) [0..<length (nodeIDs st)])) [0..<length (nodeIDs st)]) @ t4"
    using h' unfolding copies_def [abs_def] gentx_file_def gentx_dir_def calculation(2) by simp
  ultimately show ?thesis by blast
qed

section \<open>The genesis files of a run\<close>

text \<open>The calls that write or read a genesis file, and those that name the chain\<close>

fun genesis_call :: "'o fcall \<Rightarrow> bool" where
  "genesis_call (SaveGenesisDoc p c doc) = True"
| "genesis_call (AppGenesisFromFile p) = True"
| "genesis_call (ExportGenesisFile p c s) = True"
| "genesis_call _ = False"

fun names_chain :: "string \<Rightarrow> 'o fcall \<Rightarrow> bool" where
  "names_chain chain (SignTx g) = (GentxChainID g = chain)"
| "names_chain chain (GenAppState c d i k cfg) = (c = chain)"
| "names_chain chain (SaveGenesisDoc p c doc) = (c = chain)"
| "names_chain chain (ExportGenesisFile p c s) = (c = chain)"
| "names_chain chain _ = True"

definition genesis_file :: "('o, 'x) host \<Rightarrow> init_args \<Rightarrow> 'o node_config \<Rightarrow> nat \<Rightarrow> string" where
  "genesis_file E args cfg i = GenesisFile E (cfg\<lparr>RootDir := Join [outputDir args, node_dir_name args i]\<rparr>)"

definition saved :: "('o, 'x) host \<Rightarrow> init_args \<Rightarrow> 'o node_config \<Rightarrow> 'o \<Rightarrow> nat \<Rightarrow> 'o fcall" where
  "saved E args cfg doc i = SaveGenesisDoc (genesis_file E args cfg i) (chainID args) doc"

definition completed :: "('o, 'x) host \<Rightarrow> init_args \<Rightarrow> 'o node_config \<Rightarrow> 'o \<Rightarrow> nat \<Rightarrow> 'o fcall list" where
  "completed E args cfg state i =
     [AppGenesisFromFile (genesis_file E args cfg i), ExportGenesisFile (genesis_file E args cfg i) (chainID args) state]"

text \<open>The file of a node depends on its root directory only.\<close>

definition file_of_root :: "('o, 'x) host \<Rightarrow> bool" where
  "file_of_root E \<longleftrightarrow> (\<forall>c d. RootDir c = RootDir d \<longrightarrow> GenesisFile E c = GenesisFile E d)"

lemma genesis_file_eq:
  "file_of_root E \<Longrightarrow> RootDir c = Join [outputDir args, node_dir_name args i] \<Longrightarrow> GenesisFile E c = genesis_file E args cfg i"
  unfolding file_of_root_def genesis_file_def by simp

definition genesis_ok :: "('o, 'x) host \<Rightarrow> init_args \<Rightarrow> 'o node_config \<Rightarrow> nat \<Rightarrow> 'o layout \<Rightarrow> bool" where
  "genesis_ok E args cfg i st \<longleftrightarrow> genFiles st = map (genesis_file E args cfg) [0..<i]"

lemma node_files_genesis:
  assumes "file_of_root E" "genesis_ok E args cfg i st"
  shows "yields (\<lambda>(st', addr). genesis_ok E args cfg (Suc i) st') (node_files E args i st)"
  unfolding node_files_def Let_def case_prod_unfold using assms
  by (intro yields_seqp yields_ret) (simp add: genesis_ok_def genesis_file_eq)

lemma node_gentx_genesis:
  "genesis_ok E args cfg k st \<Longrightarrow> yields (genesis_ok E args cfg k) (node_gentx E args i (st, addr))"
  unfolding node_gentx_def Let_def prod.case
  by (intro yields_seqp yields_ret) (simp add: genesis_ok_def)

lemma calls_node_step:
  "calls (\<lambda>c. \<not> genesis_call c \<and> names_chain (chainID args) c) (node_step E args i st)"
  unfolding node_step_def node_files_def node_gentx_def Let_def by (intro calls_rules) simp_all

lemma calls_copy_gentx: "calls (\<lambda>c. \<not> genesis_call c \<and> names_chain chain c) (copy_gentx E args i file)"
  unfolding copy_gentx_def Let_def by (intro calls_rules) simp_all

lemma nodes_genesis:
  assumes "file_of_root E"
  shows "calls (\<lambda>c. \<not> genesis_call c \<and> names_chain (chainID args) c) (foldp (node_step E args) [0..<n] (initial_layout E args cfg n))
    \<and> yields (genesis_ok E args cfg n) (foldp (node_step E args) [0..<n] (initial_layout E args cfg n))"
proof (rule foldp_upto [where I = "genesis_ok E args cfg"])
  fix i and st :: "'a layout"
  assume "genesis_ok E args cfg i st"
  from node_files_genesis [OF assms this]
  show "calls (\<lambda>c. \<not> genesis_call c \<and> names_chain (chainID args) c) (node_step E args i st)
    \<and> yields (genesis_ok E args cfg (Suc i)) (node_step E args i st)"
    unfolding node_step_def
    by (intro conjI calls_node_step [unfolded node_step_def], elim yields_seqp_yields)
       (auto intro: node_gentx_genesis)
qed (simp add: genesis_ok_def initial_layout_def)

lemma genesis_supply_Inr: "genesis_supply E bals h = (Inr s, h') \<Longrightarrow> h' = h"
  using callsD [OF calls_genesis_supply [of "\<lambda>_. False" E bals]] by (metis append.right_neutral list.pred_inject(2) neq_Nil_conv)

lemma initGenFiles_saved:
  assumes "initGenFiles E (chainID args) accounts bals (map (genesis_file E args cfg) [0..<n]) n h = (Inr u, h')"
  shows "\<exists>doc. h' = h @ map (saved E args cfg doc) [0..<n]"
proof -
  from assms obtain doc u1 where
    "each (\<lambda>i. seqp (at_index IndexPanic (map (genesis_file E args cfg) [0..<n]) i) (\<lambda>file.
         require E (SaveGenesisDoc file (chainID args) doc))) [0..<n] h = (Inr u1, h')"
    by (auto simp: initGenFiles_def Let_def seqp_Inr dest: genesis_supply_Inr)
  then have "h' = h @ map (saved E args cfg doc) [0..<n]"
    by (rule each_exact [rotated]) (auto simp: seqp_Inr saved_def)
  then show ?thesis by blast
qed

text \<open>The first state that is collected is the one that every node gets.\<close>

lemma collect_step_Inr:
  assumes "file_of_root E" "collect_step E args ids keys peers i (c, app) h = (Inr (c', app'), h')"
  shows "\<exists>state t. app' = Some state \<and> (\<forall>s. app = Some s \<longrightarrow> state = s) \<and> h' = h @ t
    \<and> filter genesis_call t = completed E args cfg state i \<and> list_all (names_chain (chainID args)) t"
proof -
  have gf: "GenesisFile E (c\<lparr>Moniker := m, RootDir := Join [outputDir args, node_dir_name args i]\<rparr>) = genesis_file E args cfg i"
    "GenesisFile E (node_network_config args peers i (c\<lparr>Moniker := m, RootDir := Join [outputDir args, node_dir_name args i]\<rparr>))
      = genesis_file E args cfg i" for m
    by (rule genesis_file_eq [OF assms(1)]; simp add: node_network_config_def)+
  from assms(2) show ?thesis
    unfolding collect_step_def Let_def prod.case
    by (clarsimp simp: seqp_Inr gf completed_def split: option.splits)
qed

lemma collect_loop_Inr:
  assumes "file_of_root E" "foldp (collect_step E args ids keys peers) xs (c, app) h = (Inr u, h')"
  shows "\<exists>state t. (\<forall>s. app = Some s \<longrightarrow> state = s) \<and> h' = h @ t
    \<and> filter genesis_call t = concat (map (completed E args cfg state) xs) \<and> list_all (names_chain (chainID args)) t"
  using assms(2)
proof (induction xs arbitrary: c app h)
  case Nil
  then show ?case by (cases app) auto
next
  case (Cons i xs)
  then obtain c1 app1 h1 where step: "collect_step E args ids keys peers i (c, app) h = (Inr (c1, app1), h1)"
    and rest: "foldp (collect_step E args ids keys peers) xs (c1, app1) h1 = (Inr u, h')"
    by (auto simp: seqp_Inr)
  obtain state t where t: "app1 = Some state" "\<forall>s. app = Some s \<longrightarrow> state = s" "h1 = h @ t"
    "filter genesis_call t = completed E args cfg state i" "list_all (names_chain (chainID args)) t"
    using collect_step_Inr [OF assms(1) step] by blast
  obtain t' where "h' = h1 @ t'" "filter genesis_call t' = concat (map (completed E args cfg state) xs)"
    "list_all (names_chain (chainID args)) t'"
    using Cons.IH [OF rest] t(1) by blast
  with t show ?case by (intro exI [of _ state] exI [of _ "t @ t'"]) simp
qed

lemma quiet: "list_all (\<lambda>c. \<not> genesis_call c \<and> names_chain chain c) t \<Longrightarrow> filter genesis_call t = [] \<and> list_all (names_chain chain) t"
  by (induction t) auto

lemma share_files_genesis:
  assumes "file_of_root E" "genesis_ok E args cfg n st" "share_files E args n st h = (Inr u, h')"
  shows "\<exists>doc state t. h' = h @ t \<and> list_all (names_chain (chainID args)) t
    \<and> filter genesis_call t = map (saved E args cfg doc) [0..<n] @ concat (map (completed E args cfg state) [0..<n])"
proof -
  from assms(3) obtain h1 h2 u1 where
    gen: "initGenFiles E (chainID args) (genAccounts st) (genBalances st) (genFiles st) n h = (Inr (), h1)"
    and copy: "each (\<lambda>i. each (copy_gentx E args i) (gentxsFiles st)) [0..<n] h1 = (Inr (), h2)"
    and collect: "foldp (collect_step E args (nodeIDs st) (valPubKeys st) (persistentPeers st)) [0..<n]
      (nodeConfig st, None) h2 = (Inr u1, h')"
    by (auto simp: share_files_def collectGenFiles_def seqp_Inr)
  obtain doc where h1: "h1 = h @ map (saved E args cfg doc) [0..<n]"
    using initGenFiles_saved gen assms(2) unfolding genesis_ok_def by metis
  have "calls (\<lambda>c. \<not> genesis_call c \<and> names_chain (chainID args) c) (each (\<lambda>i. each (copy_gentx E args i) (gentxsFiles st)) [0..<n])"
    by (intro calls_rules calls_copy_gentx)
  then obtain t2 where t2: "h2 = h1 @ t2" "list_all (\<lambda>c. \<not> genesis_call c \<and> names_chain (chainID args) c) t2"
    using copy by (rule callsD)
  obtain state t3 where t3: "h' = h2 @ t3" "list_all (names_chain (chainID args)) t3"
    "filter genesis_call t3 = concat (map (completed E args cfg state) [0..<n])"
    using collect_loop_Inr [OF assms(1) collect] by blast
  have "filter genesis_call (map (saved E args cfg doc) [0..<n]) = map (saved E args cfg doc) [0..<n]"
    "list_all (names_chain (chainID args)) (map (saved E args cfg doc) [0..<n])"
    by (simp_all add: saved_def list_all_iff filter_map o_def)
  then show ?thesis using h1 t2(1) t3 quiet [OF t2(2)]
    by (intro exI [of _ doc] exI [of _ state] exI [of _ "map (saved E args cfg doc) [0..<n] @ t2 @ t3"]) simp
qed
text \<open>
  C20. All nodes start from one genesis of one chain. When the command returns, each node's genesis
  file was first saved with the same document, and then, node by node, read and replaced by an export with
  the same state. Every gentx is signed for the chain id that these files have, the one of the
  flag, or one that is made up when the flag is empty. This relies on a node's genesis file depending on
  its root directory only.
\<close>

theorem genesis_shared:
  assumes "initTestnetFiles E args cfg h = (Inr u, h')"
    and "\<And>c d. RootDir c = RootDir d \<Longrightarrow> GenesisFile E c = GenesisFile E d"
  shows "\<exists>chain doc state t. chain \<noteq> '''' \<and> (chainID args \<noteq> '''' \<longrightarrow> chain = chainID args) \<and> h' = h @ t
    \<and> filter genesis_call t
      = map (\<lambda>i. SaveGenesisDoc (genesis_file E args cfg i) chain doc) [0..<nat (numValidators args)]
        @ concat (map (\<lambda>i. [AppGenesisFromFile (genesis_file E args cfg i), ExportGenesisFile (genesis_file E args cfg i) chain state])
            [0..<nat (numValidators args)])
    \<and> list_all (\<lambda>k. case k of SignTx g \<Rightarrow> GentxChainID g = chain | GenAppState c d i key nc \<Rightarrow> c = chain | _ \<Rightarrow> True) t"
proof -
  let ?args = "with_chain E args" and ?n = "nat (numValidators args)"
  have root: "file_of_root E" unfolding file_of_root_def using assms(2) by blast
  obtain st h1 where nodes: "foldp (node_step E ?args) [0..<?n] (initial_layout E ?args cfg ?n) h = (Inr st, h1)"
    and share: "share_files E ?args ?n st h1 = (Inr (), h')"
    using assms(1) by (rule initTestnetFiles_InrE)
  note ok = nodes_genesis [OF root, of ?args ?n cfg]
  obtain t1 where t1: "h1 = h @ t1" "list_all (\<lambda>c. \<not> genesis_call c \<and> names_chain (chainID ?args) c) t1"
    using conjunct1 [OF ok] nodes by (rule callsD)
  obtain doc state t2 where t2: "h' = h1 @ t2" "list_all (names_chain (chainID ?args)) t2"
    "filter genesis_call t2 = map (saved E ?args cfg doc) [0..<?n] @ concat (map (completed E ?args cfg state) [0..<?n])"
    using share_files_genesis [OF root yieldsD [OF conjunct2 [OF ok] nodes] share] by blast
  have gf: "genesis_file E ?args cfg = genesis_file E args cfg" by (simp add: fun_eq_iff genesis_file_def)
  have calls: "filter genesis_call (t1 @ t2) = map (saved E ?args cfg doc) [0..<?n] @ concat (map (completed E ?args cfg state) [0..<?n])"
    and names: "list_all (names_chain (chainID ?args)) (t1 @ t2)"
    using t2 quiet [OF t1(2)] by simp_all
  have "list_all (\<lambda>k. case k of SignTx g \<Rightarrow> GentxChainID g = chainID ?args
      | GenAppState c d i key nc \<Rightarrow> c = chainID ?args | _ \<Rightarrow> True) (t1 @ t2)"
    using names by (rule list.pred_mono_strong) (auto split: fcall.split)
  moreover have "h' = h @ t1 @ t2" "chainID ?args \<noteq> ''''" "chainID args \<noteq> '''' \<longrightarrow> chainID ?args = chainID args"
    using t1(1) t2(1) by simp_all
  ultimately show ?thesis
    using calls unfolding saved_def [abs_def] completed_def [abs_def] gf
    by - (rule exI [of _ "chainID ?args"], rule exI [of _ doc], rule exI [of _ state], rule exI [of _ "t1 @ t2"],
      intro conjI; assumption)
qed

section \<open>How the command stops\<close>

text \<open>The slices of the layout before node \<open>i\<close> of \<open>n\<close>\<close>

definition slices_ok :: "nat \<Rightarrow> nat \<Rightarrow> 'o layout \<Rightarrow> bool" where
  "slices_ok n i st \<longleftrightarrow> length (nodeIDs st) = n \<and> length (valPubKeys st) = n \<and> length (genFiles st) = i"

text \<open>
  The cause of a stop, at the place where the run stops: the last call, before a removal, has failed or did not
  return, or an operation that gives a value has failed or panicked; \<open>S\<close> are the ones that can.
\<close>

fun stop_cause :: "('o, 'x) host \<Rightarrow> ('o panic_op \<Rightarrow> bool) \<Rightarrow> 'x mstop \<Rightarrow> 'o fcall list \<Rightarrow> bool" where
  "stop_cause E S (Returned x) h' \<longleftrightarrow>
     (\<exists>g c. (h' = g @ [c] \<or> (\<exists>d. h' = g @ [c, RemoveAll d])) \<and> FileError E g c = Some x)
     \<or> (\<exists>s. MarshalSecret E s = Inl x) \<or> (\<exists>m. NewMsgCreateValidator E m = Some x) \<or> EncodeTx E h' = Inl x
     \<or> (\<exists>as. PackAccounts E as = Some x) \<or> (\<exists>as bs cs. MarshalAppState E as bs cs = Inl x)"
| "stop_cause E S (ReturnedWrapped s x) h' \<longleftrightarrow>
     (\<exists>g d. h' = g @ [MkdirAll d] \<and> s = ''could not create directory '' @ d \<and> FileError E g (MkdirAll d) = Some x)"
| "stop_cause E S (Panicked x) h' \<longleftrightarrow>
     (\<exists>g c. h' = g @ [c] \<and> Fatal E g c = Some (FatalPanic x)) \<or> (\<exists>op. S op \<and> OpPanic E op = Some x)
     \<or> (\<exists>d p. (d, p) \<in> {(''testtoken'', 1000), (BondDenom E, 500), (BondDenom E, 100)}
          \<and> NewCoin E d (TokensFromConsensusPower E p) = Inl x)"
| "stop_cause E S (Exited x) h' \<longleftrightarrow> (\<exists>g c. h' = g @ [c] \<and> Fatal E g c = Some (FatalExit x))"
| "stop_cause E S MakePanic h' \<longleftrightarrow> False"
| "stop_cause E S IndexPanic h' \<longleftrightarrow> False"

lemma fatal_cause: "Fatal E g c = Some f \<Longrightarrow> stop_cause E S (fatal_stop f) (g @ [c])"
  by (cases f) auto

lemma stops_call [stops_rules]: "stops (stop_cause E S) (call E c)"
  by (auto simp: stops_def call_def split: option.splits intro: fatal_cause)

lemma stops_no_panic [stops_rules]: "S op \<Longrightarrow> stops (stop_cause E S) (no_panic E op)"
  unfolding no_panic_def by (rule stops_check) auto

text \<open>A call and what is done with its error\<close>

lemma stops_call_then:
  assumes "\<And>g e h'. Fatal E g c = None \<Longrightarrow> k (FileError E g c) (g @ [c]) = (Inl e, h') \<Longrightarrow> stop_cause E S e h'"
  shows "stops (stop_cause E S) (seqp (call E c) k)"
  unfolding stops_def
proof (intro allI impI)
  fix h e h'
  assume s: "seqp (call E c) k h = (Inl e, h')"
  show "stop_cause E S e h'"
  proof (cases "Fatal E h c")
    case None
    with s show ?thesis by (intro assms) (simp_all add: seqp_def call_def)
  next
    case (Some f)
    with s fatal_cause [OF Some] show ?thesis by (auto simp: seqp_def call_def)
  qed
qed

lemma failed_cause:
  "FileError E g c = Some x \<Longrightarrow> stop_cause E S (Returned x) (g @ [c])"
  "FileError E g c = Some x \<Longrightarrow> stop_cause E S (Returned x) (g @ [c, RemoveAll d])"
  unfolding stop_cause.simps by blast+

lemma stops_require [stops_rules]: "stops (stop_cause E S) (require E c)"
  unfolding require_def
  by (rule stops_call_then)
     (auto simp: check_def ret_def stop_def split: option.splits simp del: stop_cause.simps intro: failed_cause)

lemma or_clean_cause:
  "or_clean E d (FileError E g c) (g @ [c]) = (Inl e, h') \<Longrightarrow> stop_cause E S e h'"
  by (auto simp: or_clean_def seqp_def perform_def stop_def ret_def split: option.splits simp del: stop_cause.simps
      intro: failed_cause)

lemma stops_require_or_clean [stops_rules]: "stops (stop_cause E S) (require_or_clean E d c)"
  unfolding require_or_clean_def by (rule stops_call_then) (rule or_clean_cause)

lemma stops_writeFile [stops_rules]: "stops (stop_cause E S) (writeFile E f d c)"
  unfolding writeFile_def
proof (rule stops_call_then)
  fix g e h'
  assume "seqp (check (ReturnedWrapped (''could not create directory '' @ d)) (FileError E g (MkdirAll d)))
    (\<lambda>_. require E (WriteFile f c)) (g @ [MkdirAll d]) = (Inl e, h')"
  then show "stop_cause E S e h'"
    using stopsD [OF stops_require [of E S "WriteFile f c"]]
    by (cases "FileError E g (MkdirAll d)") (auto simp: stop_def)
qed

text \<open>A value that an operation has not given\<close>

lemma value_causes:
  "NewCoin E ''testtoken'' (TokensFromConsensusPower E 1000) = Inl x \<Longrightarrow> stop_cause E S (Panicked x) h'"
  "NewCoin E (BondDenom E) (TokensFromConsensusPower E 500) = Inl x \<Longrightarrow> stop_cause E S (Panicked x) h'"
  "NewCoin E (BondDenom E) (TokensFromConsensusPower E 100) = Inl x \<Longrightarrow> stop_cause E S (Panicked x) h'"
  "MarshalSecret E s = Inl x \<Longrightarrow> stop_cause E S (Returned x) h'"
  "NewMsgCreateValidator E m = Some x \<Longrightarrow> stop_cause E S (Returned x) h'"
  "EncodeTx E h' = Inl x \<Longrightarrow> stop_cause E S (Returned x) h'"
  "PackAccounts E as = Some x \<Longrightarrow> stop_cause E S (Returned x) h'"
  "MarshalAppState E as bs cs = Inl x \<Longrightarrow> stop_cause E S (Returned x) h'"
  by auto

text \<open>The files of a node: the error of \<^verbatim>\<open>InitializeNodeValidatorFiles\<close> is looked at last.\<close>

lemma stops_call_or_clean:
  assumes "\<And>x. stops (stop_cause E S) (k x)"
  shows "stops (stop_cause E S) (seqp (call E c) (\<lambda>err. seqp (ask q) (\<lambda>x. seqp (or_clean E d err) (\<lambda>_. k x))))"
proof (rule stops_call_then)
  fix g e h'
  assume s: "seqp (ask q) (\<lambda>x. seqp (or_clean E d (FileError E g c)) (\<lambda>_. k x)) (g @ [c]) = (Inl e, h')"
  show "stop_cause E S e h'"
  proof (cases "FileError E g c")
    case None
    with s have "k (q (g @ [c])) (g @ [c]) = (Inl e, h')" by (simp add: seqp_def ask_def or_clean_def ret_def)
    with assms show ?thesis by (rule stopsD)
  next
    case (Some x)
    with s show ?thesis
      by (intro or_clean_cause [of E d g c]) (simp add: seqp_def ask_def or_clean_def perform_def stop_def)
  qed
qed

lemma node_files_slices:
  assumes "slices_ok n i st" "i < n"
  shows "yields (\<lambda>(st', addr). slices_ok n (Suc i) st') (node_files E args i st)"
  unfolding node_files_def Let_def using assms
  by (simp add: slices_ok_def, intro yields_seqp) (auto intro!: yields_seqp yields_ret)

lemma node_gentx_slices:
  assumes "slices_ok n k st" "i < n"
  shows "yields (slices_ok n k) (node_gentx E args i (st, addr))"
  unfolding node_gentx_def Let_def prod.case using assms
  by (simp add: slices_ok_def, intro yields_seqp yields_ret) (simp add: slices_ok_def)

lemma node_files_stops:
  assumes "slices_ok n i st" "i < n"
  shows "stops (stop_cause E S) (node_files E args i st)"
  unfolding node_files_def Let_def using assms
  by (simp add: slices_ok_def case_prod_unfold, intro stops_rules stops_call_or_clean) auto

text \<open>The operations of a node and of the shared genesis that can panic\<close>

fun address_op :: "'o panic_op \<Rightarrow> bool" where
  "address_op (AccAddress_String a) = True"
| "address_op (ValAddress_String a) = True"
| "address_op _ = False"

definition supply_after :: "('o, 'x) host \<Rightarrow> balance list \<Rightarrow> coin list" where
  "supply_after E bals = foldl (\<lambda>supply bal. AddCoins E supply (Coins bal)) (DefaultSupply E) bals"

definition genesis_op :: "('o, 'x) host \<Rightarrow> 'o list \<Rightarrow> balance list \<Rightarrow> 'o panic_op \<Rightarrow> bool" where
  "genesis_op E accounts bals op \<longleftrightarrow>
     op \<in> {DefaultGenesis_JSON, MustUnmarshalJSON_auth, MustMarshalJSON_auth accounts, MustUnmarshalJSON_bank,
       Sanitize_Balances bals, MustMarshalJSON_bank (SanitizeGenesisBalances E bals)
         (supply_after E (SanitizeGenesisBalances E bals))}
     \<or> (\<exists>pre bal post. SanitizeGenesisBalances E bals = pre @ bal # post \<and> op = Supply_Add (supply_after E pre) (Coins bal))"

lemma node_gentx_stops:
  assumes "slices_ok n k st" "i < n" "\<And>op. address_op op \<Longrightarrow> S op"
  shows "stops (stop_cause E S) (node_gentx E args i (st, addr))"
  unfolding node_gentx_def Let_def prod.case using assms(1,2)
  by (simp add: slices_ok_def) (rule stops_lookup stops_rules | erule value_causes | rule assms(3), simp)+

lemma node_step_stops:
  assumes "slices_ok n i st" "i < n" "\<And>op. address_op op \<Longrightarrow> S op"
  shows "stops (stop_cause E S) (node_step E args i st) \<and> yields (slices_ok n (Suc i)) (node_step E args i st)"
  unfolding node_step_def
  by (intro conjI stops_seqp_yields [OF node_files_stops [OF assms(1,2)] node_files_slices [OF assms(1,2)]]
        yields_seqp_yields [OF node_files_slices [OF assms(1,2)]])
     (auto intro: node_gentx_stops node_gentx_slices assms(2,3))

lemma genesis_supply_stops:
  assumes "\<And>pre bal post. bals = pre @ bal # post \<Longrightarrow> S (Supply_Add (supply_after E pre) (Coins bal))"
  shows "stops (stop_cause E S) (genesis_supply E bals) \<and> yields (\<lambda>s. s = supply_after E bals) (genesis_supply E bals)"
proof -
  let ?f = "\<lambda>bal supply. seqp (no_panic E (Supply_Add supply (Coins bal))) (\<lambda>_. ret (AddCoins E supply (Coins bal)))"
  have "stops (stop_cause E S) (foldp ?f post (supply_after E pre))
      \<and> yields (\<lambda>s. s = supply_after E bals) (foldp ?f post (supply_after E pre))" if "bals = pre @ post" for pre post
    using that
  proof (induction post arbitrary: pre)
    case (Cons bal post)
    have next_pre: "AddCoins E (supply_after E pre) (Coins bal) = supply_after E (pre @ [bal])"
      by (simp add: supply_after_def)
    have "stops (stop_cause E S) (no_panic E (Supply_Add (supply_after E pre) (Coins bal)))"
      using assms [OF Cons.prems] by (rule stops_no_panic)
    moreover have "stops (stop_cause E S) (foldp ?f post (supply_after E (pre @ [bal])))"
      "yields (\<lambda>s. s = supply_after E bals) (foldp ?f post (supply_after E (pre @ [bal])))"
      using Cons.IH [of "pre @ [bal]"] Cons.prems by simp_all
    ultimately show ?case
      unfolding foldp.simps stops_def yields_def
      by (auto simp: seqp_def no_panic_def check_def ret_def stop_def next_pre split: option.splits)
  qed (simp add: yields_ret stops_leaf)
  from this [of "[]" bals] show ?thesis by (simp add: genesis_supply_def supply_after_def)
qed

lemma initGenFiles_stops:
  assumes "length files = n" "\<And>op. genesis_op E accounts bals op \<Longrightarrow> S op"
  shows "stops (stop_cause E S) (initGenFiles E chain accounts bals files n)"
proof -
  let ?bs = "SanitizeGenesisBalances E bals"
  have index: "stops (stop_cause E S) (at_index IndexPanic files i)" if "i \<in> set [0..<n]" for i
    using that assms(1) by (simp add: stops_leaf)
  have op: "S (MustMarshalJSON_bank ?bs (supply_after E ?bs))" "S DefaultGenesis_JSON" "S MustUnmarshalJSON_auth"
    "S (MustMarshalJSON_auth accounts)" "S MustUnmarshalJSON_bank" "S (Sanitize_Balances bals)"
    using assms(2) by (simp_all add: genesis_op_def)
  have adds: "stops (stop_cause E S) (genesis_supply E ?bs) \<and> yields (\<lambda>s. s = supply_after E ?bs) (genesis_supply E ?bs)"
    by (rule genesis_supply_stops, rule assms(2)) (auto simp: genesis_op_def)
  have rest: "stops (stop_cause E S) (seqp (no_panic E (MustMarshalJSON_bank ?bs sup)) (\<lambda>_.
     seqp (unwrap Returned (MarshalAppState E accounts ?bs sup)) (\<lambda>appGenStateJSON.
       each (\<lambda>i. seqp (at_index IndexPanic files i) (\<lambda>file.
         require E (SaveGenesisDoc file chain appGenStateJSON))) [0..<n])))" if "sup = supply_after E ?bs" for sup
    unfolding that by (intro stops_seqp stops_no_panic stops_unwrap stops_each stops_require op value_causes(8) index)
  show ?thesis
    unfolding initGenFiles_def Let_def
    by (intro stops_seqp stops_no_panic stops_check op value_causes(7) stops_seqp_yields [OF conjunct1 [OF adds] conjunct2 [OF adds] rest])
qed

lemma copy_gentx_stops: "stops (stop_cause E S) (copy_gentx E args i file)"
  unfolding copy_gentx_def copyFile_def Let_def by (intro stops_rules)

lemma collect_stops:
  assumes "length ids = n" "length keys = n"
  shows "stops (stop_cause E S) (collectGenFiles E args cfg ids keys peers n)"
proof -
  have "stops (stop_cause E S) (collect_step E args ids keys peers i s)" if "i < n" for i s
    using that assms unfolding collect_step_def Let_def
    by (cases s) (simp, intro stops_rules)
  then have "stops (stop_cause E S) (foldp (collect_step E args ids keys peers) [0..<n] (cfg, None))"
    by (intro stops_foldp_upto [where I = "\<lambda>_ _. True", THEN conjunct1]) (auto simp: yields_def)
  then show ?thesis unfolding collectGenFiles_def by (intro stops_rules)
qed

lemma share_files_stops:
  assumes "slices_ok n n st" "\<And>op. genesis_op E (genAccounts st) (genBalances st) op \<Longrightarrow> S op"
  shows "stops (stop_cause E S) (share_files E args n st)"
  unfolding share_files_def using assms
  by (intro stops_rules initGenFiles_stops copy_gentx_stops collect_stops) (simp_all add: slices_ok_def)

lemma initTestnetFiles_stops:
  assumes "0 \<le> numValidators args" "numValidators args \<le> int (MaxSlice E)"
  shows "stops (stop_cause E (\<lambda>_. True)) (initTestnetFiles E args cfg)"
proof -
  let ?nodes = "\<lambda>args' n. foldp (node_step E args') [0..<n] (initial_layout E args' cfg n)"
  have "stops (stop_cause E (\<lambda>_. True)) (?nodes args' n) \<and> yields (slices_ok n n) (?nodes args' n)" for args' n
    by (rule stops_foldp_upto [where I = "slices_ok n"], rule node_step_stops)
       (simp_all add: slices_ok_def initial_layout_def)
  then have "stops (stop_cause E (\<lambda>_. True)) (seqp (?nodes args' n) (share_files E args' n))" for args' n
    by (intro stops_seqp_yields [of _ "?nodes args' n" "slices_ok n n"] share_files_stops) auto
  then show ?thesis
    using assms unfolding initTestnetFiles_def Let_def by (simp add: stops_if)
qed

section \<open>Runs in which nothing fails\<close>

text \<open>
  A host on which no call fails or ends the process, on which the two denominations of the code make coins of amounts
  that are not negative, and on which encoding and the strings of addresses work
\<close>

definition faultless_host :: "('o, 'x) host \<Rightarrow> bool" where
  "faultless_host E \<longleftrightarrow>
     (\<forall>h c. FileError E h c = None \<and> Fatal E h c = None)
     \<and> (\<forall>d \<in> {''testtoken'', BondDenom E}. \<forall>a \<ge> 0. NewCoin E d a = Inr \<lparr>Denom = d, Amount = a\<rparr>)
     \<and> (\<forall>p \<ge> 0. 0 \<le> TokensFromConsensusPower E p)
     \<and> (\<forall>s e. MarshalSecret E s \<noteq> Inl e) \<and> (\<forall>m. NewMsgCreateValidator E m = None)
     \<and> (\<forall>h e. EncodeTx E h \<noteq> Inl e) \<and> (\<forall>as. PackAccounts E as = None)
     \<and> (\<forall>as bs cs e. MarshalAppState E as bs cs \<noteq> Inl e)
     \<and> (\<forall>op. address_op op \<longrightarrow> OpPanic E op = None)
     \<and> OpPanic E DefaultGenesis_JSON = None \<and> OpPanic E MustUnmarshalJSON_auth = None
     \<and> OpPanic E MustUnmarshalJSON_bank = None \<and> (\<forall>as. OpPanic E (MustMarshalJSON_auth as) = None)
     \<and> (\<forall>bs cs. OpPanic E (MustMarshalJSON_bank bs cs) = None)"

text \<open>Keys that are made one after the other have different addresses.\<close>

definition fresh_keys :: "('o, 'x) host \<Rightarrow> bool" where
  "fresh_keys E \<longleftrightarrow> (\<forall>g g'. length g < length g' \<longrightarrow>
     AccAddressString E (fst (NewKey E g)) \<noteq> AccAddressString E (fst (NewKey E g')))"

text \<open>
  The coins of a node, which the bank's genesis can sanitize, for different accounts, and of which those of \<open>n\<close>
  nodes can be added to the default supply one after the other
\<close>

definition node_coins :: "('o, 'x) host \<Rightarrow> coin list" where
  "node_coins E = SortCoins E [\<lparr>Denom = ''testtoken'', Amount = TokensFromConsensusPower E 1000\<rparr>,
     \<lparr>Denom = BondDenom E, Amount = TokensFromConsensusPower E 500\<rparr>]"

definition bank_law :: "('o, 'x) host \<Rightarrow> nat \<Rightarrow> bool" where
  "bank_law E n \<longleftrightarrow>
     (\<forall>bs. distinct (map Address bs) \<longrightarrow> (\<forall>b \<in> set bs. Coins b = node_coins E) \<longrightarrow>
        OpPanic E (Sanitize_Balances bs) = None \<and> length (SanitizeGenesisBalances E bs) = length bs
        \<and> (\<forall>b \<in> set (SanitizeGenesisBalances E bs). Coins b = node_coins E))
     \<and> (\<forall>k < n. OpPanic E (Supply_Add (((\<lambda>s. AddCoins E s (node_coins E)) ^^ k) (DefaultSupply E)) (node_coins E)) = None)"

lemma faultless_cause:
  assumes "faultless_host E" "\<And>op. S op \<Longrightarrow> OpPanic E op = None"
  shows "\<not> stop_cause E S e h'"
proof (cases e)
  case (Panicked x)
  have "NewCoin E d (TokensFromConsensusPower E p) \<noteq> Inl x"
    if "(d, p) \<in> {(''testtoken'', 1000), (BondDenom E, 500), (BondDenom E, 100)}" for d p
    using that assms(1) by (auto simp: faultless_host_def)
  with Panicked assms show ?thesis by (auto simp: faultless_host_def)
qed (use assms(1) in \<open>auto simp: faultless_host_def\<close>)

lemma faultless_run:
  assumes "faultless_host E" "\<And>op. S op \<Longrightarrow> OpPanic E op = None" "stops (stop_cause E S) m"
  shows "\<exists>x h'. m h = (Inr x, h')"
proof -
  obtain r h' where m: "m h = (r, h')" by (cases "m h")
  with faultless_cause [OF assms(1,2)] stopsD [OF assms(3)] show ?thesis by (cases r) blast+
qed

text \<open>The balances of the nodes are those of keys that were made one after the other.\<close>

definition balances_ok :: "('o, 'x) host \<Rightarrow> nat \<Rightarrow> 'o layout \<Rightarrow> 'o fcall list \<Rightarrow> bool" where
  "balances_ok E i st h \<longleftrightarrow> (\<exists>gs. length gs = i \<and> sorted_wrt (\<lambda>g g'. length g < length g') gs
     \<and> (\<forall>g \<in> set gs. length g \<le> length h)
     \<and> genBalances st = map (\<lambda>g. \<lparr>Address = AccAddressString E (fst (NewKey E g)), Coins = node_coins E\<rparr>) gs)"

lemma key_made:
  "NewKey E g = (addr, secret) \<Longrightarrow> k < length g \<Longrightarrow> length g \<le> n
    \<Longrightarrow> \<exists>g. addr = fst (NewKey E g) \<and> k < length g \<and> length g \<le> n"
  by (metis fst_conv)

lemma node_files_key:
  assumes "node_files E args i st h = (Inr (st', addr), h')"
  shows "genBalances st' = genBalances st \<and> (\<exists>g. addr = fst (NewKey E g) \<and> length h < length g \<and> length g \<le> length h')"
  using assms unfolding node_files_def Let_def
  by (clarsimp simp: seqp_Inr require_or_clean_def or_clean_def writeFile_def split: option.splits prod.splits)
     (erule key_made; simp)

lemma node_gentx_balance:
  assumes "faultless_host E" "node_gentx E args i (st, addr) h = (Inr st', h')"
  shows "genBalances st' = genBalances st @ [\<lparr>Address = AccAddressString E addr, Coins = node_coins E\<rparr>]"
proof -
  have "NewCoin E ''testtoken'' (TokensFromConsensusPower E 1000)
      = Inr \<lparr>Denom = ''testtoken'', Amount = TokensFromConsensusPower E 1000\<rparr>"
    "NewCoin E (BondDenom E) (TokensFromConsensusPower E 500)
      = Inr \<lparr>Denom = BondDenom E, Amount = TokensFromConsensusPower E 500\<rparr>"
    using assms(1) by (simp_all add: faultless_host_def)
  then have "yields (\<lambda>st'. genBalances st' = genBalances st @ [\<lparr>Address = AccAddressString E addr, Coins = node_coins E\<rparr>])
      (node_gentx E args i (st, addr))"
    unfolding node_gentx_def Let_def prod.case
    by (intro yields_seqp [of _ _ "at_index IndexPanic (nodeIDs st) i"]) (simp, intro yields_seqp yields_ret, simp add: node_coins_def)
  then show ?thesis using assms(2) by (rule yieldsD)
qed

lemma node_step_balances:
  assumes "faultless_host E" "balances_ok E i st h" "node_step E args i st h = (Inr st', h')"
  shows "balances_ok E (Suc i) st' h'"
proof -
  from assms(3) obtain st1 addr h1 where f: "node_files E args i st h = (Inr (st1, addr), h1)"
    and g: "node_gentx E args i (st1, addr) h1 = (Inr st', h')"
    by (auto simp: node_step_def seqp_Inr)
  have "calls (\<lambda>_. True) (node_gentx E args i (st1, addr))"
    unfolding node_gentx_def Let_def prod.case by (intro calls_rules TrueI)
  then have "length h1 \<le> length h'" using g by (auto elim: callsD)
  moreover from node_files_key [OF f] obtain k where k: "genBalances st1 = genBalances st" "addr = fst (NewKey E k)"
    "length h < length k" "length k \<le> length h1" by blast
  moreover from assms(2) obtain gs where gs: "length gs = i" "sorted_wrt (\<lambda>g g'. length g < length g') gs"
    "\<forall>g \<in> set gs. length g \<le> length h"
    "genBalances st = map (\<lambda>g. \<lparr>Address = AccAddressString E (fst (NewKey E g)), Coins = node_coins E\<rparr>) gs"
    unfolding balances_ok_def by blast
  moreover have "sorted_wrt (\<lambda>g g'. length g < length g') (gs @ [k])"
    using gs k(3) by (auto simp: sorted_wrt_append)
  ultimately show ?thesis
    using node_gentx_balance [OF assms(1) g] unfolding balances_ok_def by (intro exI [of _ "gs @ [k]"]) auto
qed

lemma balances_distinct:
  assumes "fresh_keys E" "balances_ok E n st h"
  shows "distinct (map Address (genBalances st))" "\<forall>b \<in> set (genBalances st). Coins b = node_coins E"
    "length (genBalances st) = n"
proof -
  from assms(2) obtain gs where gs: "length gs = n" "sorted_wrt (\<lambda>g g'. length g < length g') gs"
    "genBalances st = map (\<lambda>g. \<lparr>Address = AccAddressString E (fst (NewKey E g)), Coins = node_coins E\<rparr>) gs"
    unfolding balances_ok_def by blast
  from gs(2) have "distinct (map (\<lambda>g. AccAddressString E (fst (NewKey E g))) gs)"
    using assms(1) by (induction gs) (auto simp: fresh_keys_def)
  then show "distinct (map Address (genBalances st))" "\<forall>b \<in> set (genBalances st). Coins b = node_coins E"
    "length (genBalances st) = n"
    using gs by (simp_all add: o_def)
qed

lemma supply_after_power:
  "\<forall>b \<in> set bs. Coins b = c \<Longrightarrow> supply_after E bs = ((\<lambda>s. AddCoins E s c) ^^ length bs) (DefaultSupply E)"
  by (induction bs rule: rev_induct) (simp_all add: supply_after_def)

lemma genesis_op_works:
  assumes "faultless_host E" "bank_law E n" "genesis_op E accounts bals op"
    and "distinct (map Address bals)" "\<forall>b \<in> set bals. Coins b = node_coins E" "length bals = n"
  shows "OpPanic E op = None"
proof -
  let ?bs = "SanitizeGenesisBalances E bals"
  from assms(2,4-6) have s: "OpPanic E (Sanitize_Balances bals) = None" "length ?bs = n" "\<forall>b \<in> set ?bs. Coins b = node_coins E"
    unfolding bank_law_def by blast+
  have "OpPanic E (Supply_Add (supply_after E pre) (Coins bal)) = None" if bs: "?bs = pre @ bal # post" for pre bal post
  proof -
    have "length pre < n" "\<forall>b \<in> set pre. Coins b = node_coins E" "Coins bal = node_coins E"
      using s(2,3) by (auto simp: bs)
    then show ?thesis using assms(2) supply_after_power [of pre "node_coins E" E] unfolding bank_law_def by simp
  qed
  then show ?thesis using assms(1,3) s(1) by (auto simp: genesis_op_def faultless_host_def)
qed

lemma initTestnetFiles_returns:
  assumes "faultless_host E" "fresh_keys E" "bank_law E (nat (numValidators args))"
    and "0 \<le> numValidators args" "numValidators args \<le> int (MaxSlice E)"
  shows "\<exists>h'. initTestnetFiles E args cfg h = (Inr (), h')"
proof -
  let ?args = "with_chain E args" and ?n = "nat (numValidators args)"
  have "\<exists>st h1. foldp (node_step E ?args) [0..<?n] (initial_layout E ?args cfg ?n) h = (Inr st, h1)
      \<and> slices_ok ?n ?n st \<and> balances_ok E ?n st h1"
  proof (rule foldp_upto_run [where I = "\<lambda>i st h. slices_ok ?n i st \<and> balances_ok E i st h"])
    fix i h and st :: "'a layout"
    assume i: "i < ?n" "slices_ok ?n i st \<and> balances_ok E i st h"
    have op: "OpPanic E op = None" if "address_op op" for op using that assms(1) by (simp add: faultless_host_def)
    have step: "stops (stop_cause E address_op) (node_step E ?args i st)"
      "yields (slices_ok ?n (Suc i)) (node_step E ?args i st)"
      using node_step_stops [of ?n i st address_op E ?args] i by auto
    obtain st1 h1 where run: "node_step E ?args i st h = (Inr st1, h1)"
      using faultless_run [OF assms(1) op step(1)] by blast
    moreover have "slices_ok ?n (Suc i) st1" using step(2) run by (rule yieldsD)
    moreover have "balances_ok E (Suc i) st1 h1" using node_step_balances [OF assms(1) conjunct2 [OF i(2)] run] .
    ultimately show "\<exists>st1 h1. node_step E ?args i st h = (Inr st1, h1) \<and> slices_ok ?n (Suc i) st1 \<and> balances_ok E (Suc i) st1 h1"
      by blast
  qed (simp add: slices_ok_def balances_ok_def initial_layout_def)
  then obtain st h1 where st: "foldp (node_step E ?args) [0..<?n] (initial_layout E ?args cfg ?n) h = (Inr st, h1)"
    "slices_ok ?n ?n st" "balances_ok E ?n st h1" by blast
  let ?S = "genesis_op E (genAccounts st) (genBalances st)"
  have ops: "OpPanic E op = None" if "?S op" for op
    using genesis_op_works [OF assms(1,3) that] balances_distinct [OF assms(2) st(3)] by blast
  have "stops (stop_cause E ?S) (share_files E ?args ?n st)" using st(2) by (rule share_files_stops)
  then obtain u h' where "share_files E ?args ?n st h1 = (Inr u, h')"
    using faultless_run [OF assms(1) ops] by blast
  then show ?thesis
    using assms(4,5) st(1) unfolding initTestnetFiles_def with_chain_def [symmetric] Let_def
    by (auto simp: seqp_Inr)
qed

lemma sample_faultless: "faultless_host sample_host" "fresh_keys sample_host" "bank_law sample_host n"
  by (simp_all add: faultless_host_def fresh_keys_def bank_law_def sample_host_def Itoa_def digits_inj)




lemma sample_layout_returns: "\<exists>h'. initTestnetFiles sample_host sample_args sample_node_config h = (Inr (), h')"
  by (rule initTestnetFiles_returns [OF sample_faultless]) (simp_all add: sample_args_def sample_host_def)

lemma sample_names: "CHR ''/'' \<notin> set (fst (NodeFiles sample_host g))"
  by (simp add: sample_host_def Itoa_no_slash)

theorem gentxs_shared_witness:
  "\<exists>h' ids pre post. initTestnetFiles sample_host sample_args sample_node_config [] = (Inr (), h')
    \<and> length ids = 2
    \<and> h' = pre @ concat (map (\<lambda>i. concat (map (\<lambda>j. if i = j then [] else
        [OpenFile (Join [Join [outputDir sample_args, node_dir_name sample_args j, ''config'', ''gentx''], ''gentx-'' @ ids ! j @ ''.json'']),
         CreateFile (Join [Join [Join [outputDir sample_args, node_dir_name sample_args i], ''config'', ''gentx''],
           ''gentx-'' @ ids ! j @ ''.json'']),
         CopyContent, SyncFile]) [0..<length ids])) [0..<length ids]) @ post
    \<and> list_all (\<lambda>k. case k of CreateFile p \<Rightarrow> False | _ \<Rightarrow> True) (pre @ post)"
proof -
  obtain h' where run: "initTestnetFiles sample_host sample_args sample_node_config [] = (Inr (), h')"
    using sample_layout_returns by blast
  have dir: "IsAbs (outputDir sample_args) \<or> (\<exists>wd. Getwd sample_host = Inr wd \<and> IsAbs wd)" "CHR ''/'' \<notin> set (nodeDirPrefix sample_args)"
    and n: "nat (numValidators sample_args) = 2"
    by (simp_all add: sample_args_def sample_host_def IsAbs_def HasPrefix_def)
  from gentxs_shared [OF run dir sample_names] run show ?thesis
    unfolding n by (simp only: append_Nil) blast
qed

theorem genesis_shared_witness:
  "\<exists>h' chain doc state. initTestnetFiles sample_host sample_args sample_node_config [] = (Inr (), h') \<and> chain \<noteq> ''''
    \<and> filter genesis_call h'
      = [SaveGenesisDoc ''.testnets/validator0/config/genesis.json'' chain doc,
         SaveGenesisDoc ''.testnets/validator1/config/genesis.json'' chain doc,
         AppGenesisFromFile ''.testnets/validator0/config/genesis.json'',
         ExportGenesisFile ''.testnets/validator0/config/genesis.json'' chain state,
         AppGenesisFromFile ''.testnets/validator1/config/genesis.json'',
         ExportGenesisFile ''.testnets/validator1/config/genesis.json'' chain state]"
proof -
  obtain h' where run: "initTestnetFiles sample_host sample_args sample_node_config [] = (Inr (), h')"
    using sample_layout_returns by blast
  have law: "GenesisFile sample_host c = GenesisFile sample_host d" if "RootDir c = RootDir d" for c d
    using that by (simp add: sample_host_def)
  have n: "nat (numValidators sample_args) = 2" and two: "[0..<2] = [0, Suc 0]"
    by (simp_all add: sample_args_def upt_rec)
  have "''validator'' @ Itoa (int 0) = ''validator0''" "''validator'' @ Itoa (int (Suc 0)) = ''validator1''"
    "Join [''./.testnets'', ''validator0''] = ''.testnets/validator0''"
    "Join [''./.testnets'', ''validator1''] = ''.testnets/validator1''" by code_simp+
  moreover have "outputDir sample_args = ''./.testnets''" "nodeDirPrefix sample_args = ''validator''"
    by (simp_all add: sample_args_def)
  ultimately have "Join [outputDir sample_args, node_dir_name sample_args 0] = ''.testnets/validator0''"
    "Join [outputDir sample_args, node_dir_name sample_args (Suc 0)] = ''.testnets/validator1''"
    unfolding node_dir_name_def by presburger+
  then have gf: "genesis_file sample_host sample_args sample_node_config 0 = ''.testnets/validator0/config/genesis.json''"
    "genesis_file sample_host sample_args sample_node_config (Suc 0) = ''.testnets/validator1/config/genesis.json''"
    by (simp_all add: genesis_file_def sample_host_def)
  from genesis_shared [OF run law] obtain chain doc state t
    where chain: "chain \<noteq> ''''" and t: "h' = [] @ t" and calls: "filter genesis_call t
      = map (\<lambda>i. SaveGenesisDoc (genesis_file sample_host sample_args sample_node_config i) chain doc) [0, Suc 0]
        @ concat (map (\<lambda>i. [AppGenesisFromFile (genesis_file sample_host sample_args sample_node_config i),
            ExportGenesisFile (genesis_file sample_host sample_args sample_node_config i) chain state]) [0, Suc 0])"
    unfolding n two by - (drule meta_mp, assumption, elim exE conjE, rule that)
  show ?thesis
    by (intro exI conjI, rule run, rule chain) (use t calls in \<open>simp add: gf\<close>)
qed

section \<open>When the output directory is removed\<close>

named_theorems tidy_rules "rules for programs that clean up"

text \<open>
  The calls that set up a node: its configuration directory, which is not one of those that \<^verbatim>\<open>writeFile\<close> makes, its
  files and its key
\<close>

fun setup_call :: "init_args \<Rightarrow> 'o fcall \<Rightarrow> bool" where
  "setup_call args (MkdirAll p) \<longleftrightarrow> (\<exists>i. p = Join [Join [outputDir args, node_dir_name args i], ''config''])"
| "setup_call args (InitializeNodeValidatorFiles c) \<longleftrightarrow> True"
| "setup_call args (GenerateSaveCoinKey name) \<longleftrightarrow> True"
| "setup_call args _ \<longleftrightarrow> False"

text \<open>The error that a call returns, if it returns\<close>

definition call_error :: "('o, 'x) host \<Rightarrow> 'o fcall list \<Rightarrow> 'o fcall \<Rightarrow> 'x option" where
  "call_error E h c = (if Fatal E h c = None then FileError E h c else None)"

text \<open>Calls during which nothing is removed, and setting up a node has not failed\<close>

fun undisturbed :: "('o, 'x) host \<Rightarrow> init_args \<Rightarrow> 'o fcall list \<Rightarrow> 'o fcall list \<Rightarrow> bool" where
  "undisturbed E args h [] = True"
| "undisturbed E args h (c # t) = ((case c of RemoveAll p \<Rightarrow> False | _ \<Rightarrow> True)
     \<and> (setup_call args c \<longrightarrow> call_error E h c = None) \<and> undisturbed E args (h @ [c]) t)"

definition cleaned :: "('o, 'x) host \<Rightarrow> init_args \<Rightarrow> 'o fcall list \<Rightarrow> 'o fcall list \<Rightarrow> 'x mstop + 'a \<Rightarrow> bool" where
  "cleaned E args h t r \<longleftrightarrow> (\<exists>pre c x. t = pre @ [c, RemoveAll (outputDir args)] \<and> undisturbed E args h pre \<and> setup_call args c
     \<and> call_error E (h @ pre) c = Some x \<and> r = Inl (Returned x))"

definition tidy :: "('o, 'x) host \<Rightarrow> init_args \<Rightarrow> ('o, 'x, 'a) provisioning \<Rightarrow> bool" where
  "tidy E args m \<longleftrightarrow> (\<forall>h. \<exists>t. snd (m h) = h @ t \<and> (undisturbed E args h t \<or> cleaned E args h t (fst (m h))))"

lemma setup_call_chain: "setup_call (with_chain E args) = setup_call args"
  by (rule ext) (case_tac x; simp)

lemma undisturbed_append: "undisturbed E args h (t @ t') \<longleftrightarrow> undisturbed E args h t \<and> undisturbed E args (h @ t) t'"
  by (induction t arbitrary: h) auto

lemma cleaned_append: "undisturbed E args h t \<Longrightarrow> cleaned E args (h @ t) t' r \<Longrightarrow> cleaned E args h (t @ t') r"
proof -
  assume t: "undisturbed E args h t" and "cleaned E args (h @ t) t' r"
  then obtain pre c x where "t' = pre @ [c, RemoveAll (outputDir args)]" "undisturbed E args (h @ t) pre" "setup_call args c"
    "call_error E (h @ t @ pre) c = Some x" "r = Inl (Returned x)"
    by (auto simp: cleaned_def)
  with t show "cleaned E args h (t @ t') r"
    unfolding cleaned_def by (intro exI [of _ "t @ pre"] exI [of _ c] exI [of _ x]) (simp add: undisturbed_append)
qed

lemma cleaned_Inl: "cleaned E args h t (Inl e :: 'x mstop + 'a) \<Longrightarrow> cleaned E args h t (Inl e :: 'x mstop + 'b)"
  by (auto simp: cleaned_def)

lemma tidy_seqp_yields:
  assumes "tidy E args m" "yields P m" "\<And>x. P x \<Longrightarrow> tidy E args (k x)"
  shows "tidy E args (seqp m k)"
  unfolding tidy_def
proof
  fix h
  obtain r h1 where m: "m h = (r, h1)" by (cases "m h")
  with assms(1) obtain t where t: "h1 = h @ t" "undisturbed E args h t \<or> cleaned E args h t r"
    unfolding tidy_def by (metis fst_conv snd_conv)
  show "\<exists>t. snd (seqp m k h) = h @ t \<and> (undisturbed E args h t \<or> cleaned E args h t (fst (seqp m k h)))"
  proof (cases r)
    case (Inl e)
    with m t show ?thesis by (intro exI [of _ t]) (auto simp: seqp_def intro: cleaned_Inl)
  next
    case (Inr x)
    with m assms(2) have "P x" by (auto simp: yields_def)
    from Inr t have u: "undisturbed E args h t" by (auto simp: cleaned_def)
    obtain r' h2 where k: "k x h1 = (r', h2)" by (cases "k x h1")
    with assms(3) [OF \<open>P x\<close>] obtain t' where "h2 = h1 @ t'" "undisturbed E args h1 t' \<or> cleaned E args h1 t' r'"
      unfolding tidy_def by (metis fst_conv snd_conv)
    with m Inr t(1) k u show ?thesis
      by (intro exI [of _ "t @ t'"]) (auto simp: seqp_def undisturbed_append intro: cleaned_append)
  qed
qed

lemma tidy_seqp [tidy_rules]: "tidy E args m \<Longrightarrow> (\<And>x. tidy E args (k x)) \<Longrightarrow> tidy E args (seqp m k)"
  by (rule tidy_seqp_yields [where P = "\<lambda>_. True"]) (simp_all add: yields_def)

text \<open>Calls that neither set up a node nor remove anything\<close>

definition harmless :: "init_args \<Rightarrow> 'o fcall \<Rightarrow> bool" where
  "harmless args c \<longleftrightarrow> (case c of RemoveAll p \<Rightarrow> False | _ \<Rightarrow> True) \<and> \<not> setup_call args c"

lemma tidy_calls:
  assumes "calls (harmless args) m"
  shows "tidy E args m"
proof -
  have "undisturbed E args h t" if "list_all (harmless args) t" for h t
    using that by (induction t arbitrary: h) (auto simp: harmless_def)
  with assms show ?thesis unfolding calls_def tidy_def by meson
qed

lemma tidy_leaf [tidy_rules]:
  "tidy E args (ret x)" "tidy E args (ask f)" "tidy E args (check g r)" "tidy E args (unwrap g q)"
  "tidy E args (at_index e xs i)" "tidy E args (set_index e xs i y)" "tidy E args (stop s)"
  by (rule tidy_calls, intro calls_rules)+

lemma tidy_require [tidy_rules]: "harmless args c \<Longrightarrow> tidy E args (require E c)"
  by (rule tidy_calls, rule calls_require)

text \<open>The directories that \<^verbatim>\<open>writeFile\<close> makes are not the configuration directory of any node.\<close>

lemma harmless_dirs:
  assumes "CHR ''/'' \<notin> set (nodeDirPrefix args)"
  shows "harmless args (MkdirAll (Join [outputDir args, node_dir_name args i]))"
    and "harmless args (MkdirAll (Join [outputDir args, node_dir_name args i, ''config'', ''gentx'']))"
proof -
  let ?o = "abs_components ''/'' (outputDir args)" and ?d = "node_dir_name args"
  note n = is_name_dir [OF assms] is_name_fixed
  have wd: "IsAbs ''/''" by (simp add: IsAbs_def HasPrefix_def)
  note join = abs_components_Join(1) [OF wd]
  have config: "abs_components ''/'' (Join [Join [outputDir args, ?d j], ''config'']) = ?o @ [?d j, ''config'']" for j
    using join [of "[''config'']" "Join [outputDir args, ?d j]"] join [of "[?d j]" "outputDir args"] n by simp
  have "abs_components ''/'' (Join [outputDir args, ?d i]) = ?o @ [?d i]"
    "abs_components ''/'' (Join [outputDir args, ?d i, ''config'', ''gentx'']) = ?o @ [?d i, ''config'', ''gentx'']"
    using join [of "[?d i]" "outputDir args"] join [of "[?d i, ''config'', ''gentx'']" "outputDir args"] n by simp_all
  with config have "Join [outputDir args, ?d i] \<noteq> Join [Join [outputDir args, ?d j], ''config'']"
    "Join [outputDir args, ?d i, ''config'', ''gentx''] \<noteq> Join [Join [outputDir args, ?d j], ''config'']" for j
    by (metis append_same_eq same_append_eq list.inject list.distinct(1))+
  then show "harmless args (MkdirAll (Join [outputDir args, ?d i]))"
    "harmless args (MkdirAll (Join [outputDir args, ?d i, ''config'', ''gentx'']))"
    by (auto simp: harmless_def)
qed

lemma tidy_writeFile [tidy_rules]: "harmless args (MkdirAll d) \<Longrightarrow> tidy E args (writeFile E f d c)"
  by (rule tidy_calls, rule calls_writeFile) (simp_all add: harmless_def)

lemma cleaned_failed:
  "setup_call args c \<Longrightarrow> call_error E h c = Some x \<Longrightarrow>
    cleaned E args h [c, RemoveAll (outputDir args)] (Inl (Returned x))"
  unfolding cleaned_def by (intro exI [of _ "[]"] exI [of _ c] exI [of _ x]) simp

text \<open>A call that sets up a node, and an error that is looked at after something has been read\<close>

lemma tidy_setup:
  assumes "setup_call args c" "\<And>x. tidy E args (k x)"
  shows "tidy E args (seqp (call E c) (\<lambda>err. seqp (ask g) (\<lambda>x. seqp (or_clean E (outputDir args) err) (\<lambda>_. k x))))"
  unfolding tidy_def
proof
  fix h
  let ?m = "seqp (call E c) (\<lambda>err. seqp (ask g) (\<lambda>x. seqp (or_clean E (outputDir args) err) (\<lambda>_. k x)))"
  have u: "undisturbed E args h [c]" if "call_error E h c = None" using that assms(1) by (cases c) simp_all
  show "\<exists>t. snd (?m h) = h @ t \<and> (undisturbed E args h t \<or> cleaned E args h t (fst (?m h)))"
  proof (cases "Fatal E h c")
    case (Some f)
    then show ?thesis using u by (intro exI [of _ "[c]"]) (simp add: call_error_def seqp_def call_def)
  next
    case None
    show ?thesis
    proof (cases "FileError E h c")
      case ok: None
      with None have u: "undisturbed E args h [c]" by (intro u) (simp add: call_error_def)
      obtain t where t: "snd (k (g (h @ [c])) (h @ [c])) = (h @ [c]) @ t"
        "undisturbed E args (h @ [c]) t \<or> cleaned E args (h @ [c]) t (fst (k (g (h @ [c])) (h @ [c])))"
        using assms(2) unfolding tidy_def by blast
      have m: "?m h = k (g (h @ [c])) (h @ [c])"
        using None ok by (simp add: or_clean_def seqp_def call_def ask_def ret_def)
      show ?thesis
        unfolding m using t u cleaned_append [OF u] undisturbed_append [of E args h "[c]" t]
        by (intro exI [of _ "c # t"]) auto
    next
      case (Some x)
      with None have "call_error E h c = Some x" by (simp add: call_error_def)
      from cleaned_failed [OF assms(1) this] None Some show ?thesis
        by (intro exI [of _ "[c, RemoveAll (outputDir args)]"])
           (simp add: or_clean_def seqp_def call_def perform_def ask_def stop_def)
    qed
  qed
qed

lemma tidy_require_or_clean [tidy_rules]:
  assumes "setup_call args c"
  shows "tidy E args (require_or_clean E (outputDir args) c)"
proof -
  have "require_or_clean E (outputDir args) c
      = seqp (call E c) (\<lambda>err. seqp (ask (\<lambda>_. ())) (\<lambda>x. seqp (or_clean E (outputDir args) err) (\<lambda>_. ret x)))"
    by (auto simp: require_or_clean_def seqp_def ask_def ret_def fun_eq_iff split: prod.split sum.split)
  then show ?thesis by (simp only:) (rule tidy_setup [OF assms tidy_leaf(1)])
qed

lemma node_files_tidy:
  assumes "CHR ''/'' \<notin> set (nodeDirPrefix args)" "slices_ok n i st" "i < n"
  shows "tidy E args (node_files E args i st)"
  unfolding node_files_def Let_def using assms(2,3)
  by (simp add: slices_ok_def case_prod_unfold, intro tidy_rules tidy_setup harmless_dirs assms(1))
     (auto simp: harmless_def)

lemma node_gentx_tidy:
  assumes "CHR ''/'' \<notin> set (nodeDirPrefix args)"
  shows "tidy E args (node_gentx E args i x)"
  unfolding node_gentx_def Let_def
  by (rule tidy_calls, cases x, simp only: prod.case)
     (intro calls_rules harmless_dirs assms; simp add: harmless_def)

lemma node_step_tidy:
  assumes "CHR ''/'' \<notin> set (nodeDirPrefix args)" "slices_ok n i st" "i < n"
  shows "tidy E args (node_step E args i st)"
  unfolding node_step_def by (intro tidy_seqp node_files_tidy [OF assms] node_gentx_tidy [OF assms(1)])

lemma tidy_foldp_upto:
  assumes "\<And>i s. i < n \<Longrightarrow> I i s \<Longrightarrow> tidy E args (f i s) \<and> yields (I (Suc i)) (f i s)" and "I 0 s"
  shows "tidy E args (foldp f [0..<n] s)"
proof -
  have "tidy E args (foldp f [k..<n] s)" if "k \<le> n" "I k s" for k s
    using that
  proof (induction "n - k" arbitrary: k s)
    case 0
    then show ?case by (auto intro: tidy_rules)
  next
    case (Suc d)
    then have k: "k < n" "[k..<n] = k # [Suc k..<n]" by (simp_all add: upt_conv_Cons)
    have "tidy E args (f k s)" "yields (I (Suc k)) (f k s)" using assms(1) k(1) Suc.prems(2) by auto
    then have "tidy E args (seqp (f k s) (foldp f [Suc k..<n]))"
      by (rule tidy_seqp_yields) (use Suc k(1) in auto)
    then show ?case by (simp add: k(2))
  qed
  from this [of 0 s] assms(2) show ?thesis by simp
qed

lemma share_files_tidy: "tidy E args (share_files E args' n st)"
proof -
  have "calls (harmless args) (collect_step E args' ids keys peers i s)" for ids keys peers i s
    unfolding collect_step_def Let_def by (intro calls_rules) (simp_all add: harmless_def)
  then have "tidy E args (foldp (collect_step E args' ids keys peers) [0..<n] s)" for ids keys peers s
    by (intro tidy_foldp_upto [where I = "\<lambda>_ _. True"]) (auto simp: yields_def intro: tidy_calls)
  moreover have "tidy E args (initGenFiles E chain accounts bals files n)" for chain accounts bals files
    unfolding initGenFiles_def Let_def by (rule tidy_calls) (intro calls_rules; simp add: harmless_def)
  moreover have "tidy E args (each (\<lambda>i. each (copy_gentx E args' i) files) [0..<n])" for files
    unfolding copy_gentx_def Let_def by (rule tidy_calls) (intro calls_rules; simp add: harmless_def)
  ultimately show ?thesis unfolding share_files_def collectGenFiles_def by (intro tidy_rules)
qed

lemma tidy_chain: "tidy E (with_chain E args) m \<longleftrightarrow> tidy E args m"
proof -
  have "undisturbed E (with_chain E args) h t = undisturbed E args h t" for h t
    by (induction t arbitrary: h) (simp_all add: setup_call_chain)
  then show ?thesis by (simp add: tidy_def cleaned_def setup_call_chain)
qed

lemma initTestnetFiles_tidy:
  assumes "CHR ''/'' \<notin> set (nodeDirPrefix args)"
  shows "tidy E args (initTestnetFiles E args cfg)"
proof -
  let ?args = "with_chain E args" and ?n = "nat (numValidators args)"
  have "tidy E args (node_step E ?args i st) \<and> yields (slices_ok ?n (Suc i)) (node_step E ?args i st)"
    if "i < ?n" "slices_ok ?n i st" for i st
    using node_step_tidy [of ?args ?n i st E] node_step_stops [of ?n i st "\<lambda>_. True" E ?args] that assms
    by (auto simp: tidy_chain)
  then have "tidy E args (foldp (node_step E ?args) [0..<?n] (initial_layout E ?args cfg ?n))"
    by (rule tidy_foldp_upto [where I = "slices_ok ?n"]) (simp_all add: slices_ok_def initial_layout_def)
  then show ?thesis
    unfolding initTestnetFiles_def with_chain_def [symmetric] Let_def
    by (simp add: tidy_seqp share_files_tidy tidy_leaf)
qed

text \<open>
  C21. The output directory is removed exactly when a node cannot be set up. Either the run removes nothing, and
  whenever it made the configuration directory of a node, a node's files or a key, this returned no error.
  Or its last two calls are such a call, the first that returned an error, and the removal of the
  output directory, and the command returns the error of the former, not that of the removal. So an error anywhere
  else, as of the directories that are made for a file to be written, leaves the files where they are. This is
  for a prefix of the names of the nodes without slashes.
\<close>

theorem setup_removed:
  assumes "CHR ''/'' \<notin> set (nodeDirPrefix args)"
  shows "\<exists>t. snd (initTestnetFiles E args cfg h) = h @ t
    \<and> (undisturbed E args h t
      \<or> (\<exists>pre c x. t = pre @ [c, RemoveAll (outputDir args)] \<and> undisturbed E args h pre \<and> setup_call args c
          \<and> call_error E (h @ pre) c = Some x \<and> fst (initTestnetFiles E args cfg h) = Inl (Returned x)))"
  using initTestnetFiles_tidy [OF assms, of E cfg] unfolding tidy_def cleaned_def by (rule spec)

text \<open>A host on which no key can be made\<close>

definition keyless_host :: "(nat, string) host" where
  "keyless_host = sample_host\<lparr>FileError := \<lambda>h c. case c of GenerateSaveCoinKey name \<Rightarrow> Some ''no entropy'' | _ \<Rightarrow> None\<rparr>"

theorem setup_removed_witness:
  "\<exists>t. snd (initTestnetFiles keyless_host sample_args sample_node_config []) = [] @ t
    \<and> (undisturbed keyless_host sample_args [] t
      \<or> (\<exists>pre c x. t = pre @ [c, RemoveAll (outputDir sample_args)] \<and> undisturbed keyless_host sample_args [] pre
          \<and> setup_call sample_args c \<and> call_error keyless_host ([] @ pre) c = Some x
          \<and> fst (initTestnetFiles keyless_host sample_args sample_node_config []) = Inl (Returned x)))"
  by (rule setup_removed) (simp add: sample_args_def)

end
