(* ===== verification/Testnet.thy ===== *)
theory Testnet
  imports Effects GoStrings
begin

text \<open>
  Turning a copy of a chain's data into a local testnet (cmd/tatcoind/cmd/testnet.go): reading
  the command's options, replacing the validators of the staking store by a new one, giving it
  records in the distribution and slashing stores, and funding accounts. \<open>initAppForTestnet\<close> is
  a program over the calls it makes on stores and keepers; what these answer is the record
  \<open>testnet\<close>, whose operations see all earlier calls. The type parameters are \<open>'k\<close> for a
  consensus public key, \<open>'o\<close> for the packed key and option values of other types, and \<open>'x\<close> for errors.
\<close>

section \<open>Options\<close>

text \<open>The dynamic types the code asks an option value for, with \<^verbatim>\<open>nil\<close> and the others in the last\<close>

datatype ('k, 'o) option_value =
    HexBytes "byte list"
  | PubKey 'k
  | StringValue string
  | OtherValue 'o

record 'k val_args =
  newValAddr :: "byte list"
  newOperatorAddress :: string
  newValPubKey :: 'k
  accountsToFund :: "string list"
  upgradeToTrigger :: string
  homeDir :: string

text \<open>
  The keys of the options that the server package declares; \<^verbatim>\<open>cast.ToString\<close>
\<close>

record ('k, 'o) option_reader =
  KeyNewValAddr :: string
  KeyUserPubKey :: string
  KeyNewOpAddr :: string
  KeyTriggerTestnetUpgrade :: string
  FlagHome :: string
  ToString :: "('k, 'o) option_value \<Rightarrow> string"

definition flagAccountsToFund :: string where
  "flagAccountsToFund = ''accounts-to-fund''"

text \<open>
  \<^verbatim>\<open>NewInPlaceTestnetCmd\<close>: what \<^verbatim>\<open>server.InPlaceTestnetCreator\<close> made, with its own texts and one more flag
  (name, default and usage)
\<close>

record cmd_texts =
  cmd_Short :: string
  cmd_Long :: string
  cmd_Example :: string

definition NewInPlaceTestnetCmd ::
  "cmd_texts \<times> (string \<times> string \<times> string) list \<Rightarrow> cmd_texts \<times> (string \<times> string \<times> string) list" where
  "NewInPlaceTestnetCmd = (\<lambda>(cmd, flags). let modulePath = ''github.com/alltest0777/tatcore'' in
     (cmd\<lparr>cmd_Short := ''Updates chain'' @ [CHR 0x27] @
            ''s application and consensus state with provided validator info and starts '' @ ''the node'',
          cmd_Long := ''The test command modifies both application and consensus stores within '' @
            ''a local mainnet node and starts the node,'' @ [CHR 0x0A] @
            ''with the aim of facilitating testing procedures. This command replaces '' @
            ''existing validator data with updated information,'' @ [CHR 0x0A] @
            ''thereby removing the old validator set and introducing a new set suitable '' @
            ''for local testing purposes. By altering the state extracted from the mainnet '' @ ''node,'' @
            [CHR 0x0A] @ ''it enables developers to configure their local environments to reflect '' @
            ''mainnet conditions more accurately.'',
          cmd_Example := modulePath @ ''d in-place-testnet testing-1 cosmosvaloper1w7f3xx7e75p4l7qdym5msqem9rd4dyc4mq79dm '' @
            ''--home $HOME/.'' @
            modulePath @ ''d/validator1 --validator-privkey=6dq+/KHNvyiw2TToCgOpUpQKIzrLs69Rb8Az39xvmxPHNoPxY1Cil8FY+4DhT9YwD6s0tFABMlLcpaylzKKBOg== '' @
            ''--accounts-to-fund='' @ [CHR 0x22] @
            ''cosmos1f7twgcq4ypzg7y24wuywy06xmdet8pc4473tnq,cosmos1qvuhm5m644660nd8377d6l7yz9e9hhm9evmx3x'' @
            [CHR 0x22]\<rparr>,
      flags @ [(flagAccountsToFund, '''', ''Comma-separated list of account addresses that will be funded for testing '' @ ''purposes'')]))"

text \<open>
  The result of \<^verbatim>\<open>getCommandArgs\<close>. Its caller panics on an error and drops the partly filled
  arguments, which are not represented.
\<close>

definition getCommandArgs ::
  "('k, 'o) option_reader \<Rightarrow> (string \<Rightarrow> ('k, 'o) option_value) \<Rightarrow> string + 'k val_args" where
  "getCommandArgs R opts =
     (case opts (KeyNewValAddr R) of HexBytes valAddr \<Rightarrow>
       (case opts (KeyUserPubKey R) of PubKey valPubKey \<Rightarrow>
         (case opts (KeyNewOpAddr R) of StringValue operatorAddress \<Rightarrow>
           (case opts (KeyTriggerTestnetUpgrade R) of StringValue upgrade \<Rightarrow>
              (let accountsString = ToString R (opts flagAccountsToFund);
                   accounts = [] @ Split (CHR '','') accountsString;
                   home = ToString R (opts (FlagHome R))
               in if home = '''' then Inl ''invalid home dir''
                  else Inr \<lparr>newValAddr = valAddr, newOperatorAddress = operatorAddress,
                         newValPubKey = valPubKey, accountsToFund = accounts,
                         upgradeToTrigger = upgrade, homeDir = home\<rparr>)
            | _ \<Rightarrow> Inl ''upgradeToTrigger is not of type string'')
          | _ \<Rightarrow> Inl ''newOperatorAddress is not of type string'')
        | _ \<Rightarrow> Inl ''newValPubKey is not of type crypto.PubKey'')
      | _ \<Rightarrow> Inl ''newValAddr is not of type bytes.HexBytes'')"

section \<open>The new validator\<close>

text \<open>A \<^verbatim>\<open>LegacyDec\<close> is an integer in units of \<open>10 ^ -18\<close>; \<open>dec m e\<close> is \<open>m * 10 ^ -e\<close>.\<close>

definition dec :: "int \<Rightarrow> nat \<Rightarrow> int" where
  "dec m e = m * 10 ^ (18 - e)"

datatype bond_status = Unspecified | Unbonded | Unbonding | Bonded

text \<open>
  The validator that the command creates, with the fields it sets: the moniker of the description and
  the three commission rates stand beside the others, and every field not listed is zero.
\<close>

record 'o new_validator =
  OperatorAddress :: string
  ConsensusPubkey :: 'o
  Jailed :: bool
  Status :: bond_status
  Tokens :: int
  DelegatorShares :: int
  Moniker :: string
  Rate :: int
  MaxRate :: int
  MaxChangeRate :: int
  MinSelfDelegation :: int

definition valVotingPower :: int where
  "valVotingPower = 900000000000000"

definition new_validator_of :: "'k val_args \<Rightarrow> 'o \<Rightarrow> 'o new_validator" where
  "new_validator_of args pubkeyAny =
     \<lparr>OperatorAddress = newOperatorAddress args, ConsensusPubkey = pubkeyAny, Jailed = False,
      Status = Bonded, Tokens = valVotingPower, DelegatorShares = dec 10000000 0,
      Moniker = ''Testnet Validator'', Rate = dec 5 2, MaxRate = dec 1 1, MaxChangeRate = dec 5 2,
      MinSelfDelegation = 1\<rparr>"

record signing_info =
  Info_Address :: string
  StartHeight :: int
  Tombstoned :: bool

section \<open>Calls\<close>

type_synonym bytes = "byte list"
type_synonym coins = "(string \<times> int) list"

datatype ('k, 'o) tcall =
    NewApp
  | Store_Delete bytes
  | Iterator_Close
  | SetValidator "'o new_validator"
  | SetValidatorByConsAddr "'o new_validator"
  | SetValidatorByPowerIndex "'o new_validator"
  | SetLastValidatorPower bytes int
  | AfterValidatorCreated bytes
  | SetValidatorHistoricalRewards bytes int coins int   \<comment> \<open>period, rewards, reference count\<close>
  | SetValidatorCurrentRewards bytes coins int          \<comment> \<open>rewards, period\<close>
  | SetValidatorAccumulatedCommission bytes
  | SetValidatorOutstandingRewards bytes coins
  | SetValidatorSigningInfo bytes signing_info
  | MintCoins string coins
  | SendCoinsFromModuleToAccount string bytes coins

text \<open>A panic, and the exit of \<^verbatim>\<open>handleErr\<close>, which prints the error\<close>

datatype 'x tstop =
    PanicErr 'x
  | PanicMsg string
  | Exit1 'x

record ('k, 'o, 'x) testnet =
  NewAnyWithValue :: "'k \<Rightarrow> 'x + 'o"              \<comment> \<open>the ed25519 key with the bytes of the argument, packed\<close>
  ValStringToBytes :: "string \<Rightarrow> 'x + bytes"
  AccStringToBytes :: "string \<Rightarrow> 'x + bytes"
  ConsAddressString :: "bytes \<Rightarrow> string"
  ValidatorsKey :: bytes
  ValidatorQueueKey :: bytes
  MintModuleName :: string
  App_LastBlockHeight :: "('k, 'o) tcall list \<Rightarrow> int"
  StakingStore :: "('k, 'o) tcall list \<Rightarrow> 'x option"   \<comment> \<open>\<^verbatim>\<open>ctx.KVStore(app.GetKey(...))\<close>; panics without such a key\<close>
  ValidatorsPowerStoreIterator :: "('k, 'o) tcall list \<Rightarrow> 'x + bytes list"
  LastValidatorsIterator :: "('k, 'o) tcall list \<Rightarrow> 'x + bytes list"
  PrefixIterator :: "bytes \<Rightarrow> ('k, 'o) tcall list \<Rightarrow> bytes list"  \<comment> \<open>from the prefix to its \<^verbatim>\<open>PrefixEndBytes\<close>\<close>
  TBondDenom :: "('k, 'o) tcall list \<Rightarrow> 'x + string"
  NewInt64Coin :: "string \<Rightarrow> int \<Rightarrow> 'x + coins"   \<comment> \<open>with \<^verbatim>\<open>NewCoins\<close>; panics\<close>
  TCallError :: "('k, 'o) tcall list \<Rightarrow> ('k, 'o) tcall \<Rightarrow> 'x option"

type_synonym ('k, 'o, 'x, 'a) testnet_prog = "(('k, 'o) tcall, 'x tstop, 'a) prog"

text \<open>\<^verbatim>\<open>handleErr(f(...))\<close>, and \<^verbatim>\<open>v, err := ...; handleErr(err)\<close>\<close>

definition handleErr :: "('k, 'o, 'x) testnet \<Rightarrow> ('k, 'o) tcall \<Rightarrow> ('k, 'o, 'x, unit) testnet_prog" where
  "handleErr E c = seqp (perform (TCallError E) c) (check Exit1)"

definition handle :: "'x + 'a \<Rightarrow> ('k, 'o, 'x, 'a) testnet_prog" where
  "handle r = unwrap Exit1 r"

text \<open>A call whose error is dropped\<close>

definition ignoring :: "('k, 'o, 'x) testnet \<Rightarrow> ('k, 'o) tcall \<Rightarrow> ('k, 'o, 'x, unit) testnet_prog" where
  "ignoring E c = seqp (perform (TCallError E) c) (\<lambda>_. ret ())"

section \<open>Staking\<close>

text \<open>\<^verbatim>\<open>for ; iterator.Valid(); iterator.Next() { stakingStore.Delete(iterator.Key()) }; iterator.Close()\<close>\<close>

definition delete_all :: "('k, 'o, 'x) testnet \<Rightarrow> bytes list \<Rightarrow> ('k, 'o, 'x, unit) testnet_prog" where
  "delete_all E keys = seqp (each (\<lambda>k. ignoring E (Store_Delete k)) keys) (\<lambda>_. ignoring E Iterator_Close)"

definition remove_validators :: "('k, 'o, 'x) testnet \<Rightarrow> ('k, 'o, 'x, unit) testnet_prog" where
  "remove_validators E =
     seqp (ask (StakingStore E)) (\<lambda>p. seqp (check PanicErr p) (\<lambda>_.
     seqp (ask (ValidatorsPowerStoreIterator E)) (\<lambda>r. seqp (handle r) (\<lambda>keys.
     seqp (delete_all E keys) (\<lambda>_.
     seqp (ask (LastValidatorsIterator E)) (\<lambda>r. seqp (handle r) (\<lambda>keys.
     seqp (delete_all E keys) (\<lambda>_.
     seqp (ask (PrefixIterator E (ValidatorsKey E))) (\<lambda>keys.
     seqp (delete_all E keys) (\<lambda>_.
     seqp (ask (PrefixIterator E (ValidatorQueueKey E))) (\<lambda>keys.
       delete_all E keys)))))))))))"

definition add_validator ::
  "('k, 'o, 'x) testnet \<Rightarrow> 'o new_validator \<Rightarrow> bytes \<Rightarrow> ('k, 'o, 'x, unit) testnet_prog" where
  "add_validator E newVal validator =
     seqp (handleErr E (SetValidator newVal)) (\<lambda>_.
     seqp (handleErr E (SetValidatorByConsAddr newVal)) (\<lambda>_.
     seqp (handleErr E (SetValidatorByPowerIndex newVal)) (\<lambda>_.
     seqp (handleErr E (SetLastValidatorPower validator 0)) (\<lambda>_.
       handleErr E (AfterValidatorCreated validator)))))"

section \<open>Distribution, slashing and bank\<close>

definition init_distribution :: "('k, 'o, 'x) testnet \<Rightarrow> bytes \<Rightarrow> ('k, 'o, 'x, unit) testnet_prog" where
  "init_distribution E validator =
     seqp (handleErr E (SetValidatorHistoricalRewards validator 0 [] 1)) (\<lambda>_.
     seqp (handleErr E (SetValidatorCurrentRewards validator [] 1)) (\<lambda>_.
     seqp (handleErr E (SetValidatorAccumulatedCommission validator)) (\<lambda>_.
       handleErr E (SetValidatorOutstandingRewards validator []))))"

definition set_signing_info :: "('k, 'o, 'x) testnet \<Rightarrow> bytes \<Rightarrow> ('k, 'o, 'x, unit) testnet_prog" where
  "set_signing_info E newConsAddr =
     seqp (ask (App_LastBlockHeight E)) (\<lambda>height.
       ignoring E (SetValidatorSigningInfo newConsAddr
         \<lparr>Info_Address = ConsAddressString E newConsAddr, StartHeight = height - 1, Tombstoned = False\<rparr>))"

definition fund_account :: "('k, 'o, 'x) testnet \<Rightarrow> coins \<Rightarrow> string \<Rightarrow> ('k, 'o, 'x, unit) testnet_prog" where
  "fund_account E defaultCoins accountStr =
     seqp (handleErr E (MintCoins (MintModuleName E) defaultCoins)) (\<lambda>_.
     seqp (handle (AccStringToBytes E accountStr)) (\<lambda>account.
       handleErr E (SendCoinsFromModuleToAccount (MintModuleName E) account defaultCoins)))"

definition fund_accounts :: "('k, 'o, 'x) testnet \<Rightarrow> string list \<Rightarrow> ('k, 'o, 'x, unit) testnet_prog" where
  "fund_accounts E accounts =
     seqp (ask (TBondDenom E)) (\<lambda>r. seqp (handle r) (\<lambda>bondDenom.
     seqp (unwrap PanicErr (NewInt64Coin E bondDenom 1000000000)) (\<lambda>defaultCoins.
       each (fund_account E defaultCoins) accounts)))"

section \<open>The whole change\<close>

definition initAppForTestnet ::
  "('k, 'o, 'x) testnet \<Rightarrow> 'k val_args \<Rightarrow> ('k, 'o, 'x, unit) testnet_prog" where
  "initAppForTestnet E args =
     seqp (handle (NewAnyWithValue E (newValPubKey args))) (\<lambda>pubkeyAny.
     let newVal = new_validator_of args pubkeyAny in
     seqp (handle (ValStringToBytes E (OperatorAddress newVal))) (\<lambda>validator.
     seqp (remove_validators E) (\<lambda>_.
     seqp (add_validator E newVal validator) (\<lambda>_.
     seqp (init_distribution E validator) (\<lambda>_.
     seqp (set_signing_info E (newValAddr args)) (\<lambda>_.
       fund_accounts E (accountsToFund args)))))))"

text \<open>
  \<^verbatim>\<open>newTestnetApp\<close>: \<^verbatim>\<open>newApp\<close> of commands.go panics or returns an \<^verbatim>\<open>*app.App\<close>, so the type
  assertion behind it succeeds.
\<close>

definition newTestnetApp ::
  "('k, 'o, 'x) testnet \<Rightarrow> ('k, 'o) option_reader \<Rightarrow> (string \<Rightarrow> ('k, 'o) option_value)
    \<Rightarrow> ('k, 'o, 'x, unit) testnet_prog" where
  "newTestnetApp E R opts =
     seqp (perform (TCallError E) NewApp) (\<lambda>err. seqp (check PanicErr err) (\<lambda>_.
     seqp (unwrap PanicMsg (getCommandArgs R opts)) (\<lambda>args.
       initAppForTestnet E args)))"

end
