(* ===== verification/TestnetProperties.thy ===== *)
theory TestnetProperties
  imports Testnet
begin

text \<open>
  What the in-place testnet does to the state it starts from: the old validators are gone before
  the new one is stored, each listed account gets the same coins, and what happens with the
  default value of the accounts flag.
\<close>

section \<open>The calls of the parts\<close>

lemma handleErr_Inr [simp]:
  "handleErr E c h = (Inr u, h') \<longleftrightarrow> TCallError E h c = None \<and> h' = h @ [c]"
  by (auto simp: handleErr_def seqp_Inr)

lemma handle_Inr [simp]: "handle r h = (Inr a, h') \<longleftrightarrow> r = Inr a \<and> h' = h"
  by (simp add: handle_def)

lemma ignoring_eq [simp]: "ignoring E c h = (Inr (), h @ [c])"
  by (simp add: ignoring_def prog_defs)

lemma calls_handleErr [calls_rules]: "Q c \<Longrightarrow> calls Q (handleErr E c)"
  unfolding handleErr_def by (intro calls_rules)

lemma calls_handle [calls_rules]: "calls Q (handle r)"
  unfolding handle_def by (intro calls_rules)

lemma calls_ignoring [calls_rules]: "Q c \<Longrightarrow> calls Q (ignoring E c)"
  unfolding ignoring_def by (intro calls_rules)

lemma each_delete: "each (\<lambda>k. ignoring E (Store_Delete k)) keys h = (Inr (), h @ map Store_Delete keys)"
  by (induction keys arbitrary: h) (simp_all add: seqp_def ret_def)

text \<open>The calls that empty one listing\<close>

definition deletions :: "bytes list \<Rightarrow> ('k, 'o) tcall list" where
  "deletions keys = map Store_Delete keys @ [Iterator_Close]"

lemma delete_all_eq: "delete_all E keys h = (Inr (), h @ deletions keys)"
  by (simp add: delete_all_def seqp_def each_delete deletions_def)

lemma delete_all_Inr [simp]: "delete_all E keys h = (Inr u, h') \<longleftrightarrow> h' = h @ deletions keys"
  by (auto simp: delete_all_eq)

section \<open>The staking store\<close>

text \<open>
  What a store promises about a listing of keys: deleting a key takes it out of the listing and
  leaves the others, closing an iterator changes nothing.
\<close>

definition follows_deletes :: "(('k, 'o) tcall list \<Rightarrow> 'x + bytes list) \<Rightarrow> bool" where
  "follows_deletes f \<longleftrightarrow>
     (\<forall>h k. f (h @ [Store_Delete k]) = map_sum id (filter (\<lambda>x. x \<noteq> k)) (f h))
     \<and> (\<forall>h. f (h @ [Iterator_Close]) = f h)"

definition store_law :: "('k, 'o, 'x) testnet \<Rightarrow> bool" where
  "store_law E \<longleftrightarrow>
     follows_deletes (ValidatorsPowerStoreIterator E) \<and> follows_deletes (LastValidatorsIterator E)
     \<and> (\<forall>p. follows_deletes (\<lambda>h. Inr (PrefixIterator E p h) :: 'x + bytes list))"

lemma follows_deletions:
  assumes "follows_deletes f"
  shows "f (h @ deletions keys) = map_sum id (filter (\<lambda>x. x \<notin> set keys)) (f h)"
proof -
  have "f (h @ map Store_Delete keys) = map_sum id (filter (\<lambda>x. x \<notin> set keys)) (f h)"
  proof (induction keys arbitrary: h)
    case Nil
    then show ?case by (cases "f h") simp_all
  next
    case (Cons k keys)
    from Cons [of "h @ [Store_Delete k]"] assms show ?case
      by (cases "f h") (auto simp: follows_deletes_def intro: filter_cong)
  qed
  then show ?thesis
    using assms by (simp add: follows_deletes_def deletions_def append_assoc [symmetric] del: append_assoc)
qed

lemma listing_emptied:
  assumes "follows_deletes f" "f h = Inr keys"
  shows "f (h @ deletions keys) = Inr []"
  using follows_deletions [OF assms(1), of h keys] assms(2) by simp

lemma listing_stays_empty:
  assumes "follows_deletes f" "f h = Inr []"
  shows "f (h @ deletions keys) = Inr []"
  using follows_deletions [OF assms(1), of h keys] assms(2) by simp

fun removal :: "('k, 'o) tcall \<Rightarrow> bool" where
  "removal (Store_Delete k) = True"
| "removal Iterator_Close = True"
| "removal _ = False"

lemma removal_deletions: "list_all removal (deletions keys)"
  by (simp add: deletions_def list_all_iff)

lemma remove_validators_Inr:
  assumes "store_law E" "remove_validators E h = (Inr u, h')"
  obtains clear where "h' = h @ clear" "list_all removal clear"
    "ValidatorsPowerStoreIterator E h' = Inr []" "LastValidatorsIterator E h' = Inr []"
    "PrefixIterator E (ValidatorsKey E) h' = []" "PrefixIterator E (ValidatorQueueKey E) h' = []"
proof -
  from assms(2) obtain ks1 ks2 where k: "ValidatorsPowerStoreIterator E h = Inr ks1"
      "LastValidatorsIterator E (h @ deletions ks1) = Inr ks2"
    and h': "h' = (((h @ deletions ks1) @ deletions ks2)
        @ deletions (PrefixIterator E (ValidatorsKey E) ((h @ deletions ks1) @ deletions ks2)))
      @ deletions (PrefixIterator E (ValidatorQueueKey E) (((h @ deletions ks1) @ deletions ks2)
          @ deletions (PrefixIterator E (ValidatorsKey E) ((h @ deletions ks1) @ deletions ks2))))"
      (is "h' = (?h2 @ deletions ?ks3) @ deletions ?ks4")
    by (auto simp: remove_validators_def seqp_Inr simp del: append_assoc)
  from assms(1) have f: "follows_deletes (ValidatorsPowerStoreIterator E)"
      "follows_deletes (LastValidatorsIterator E)"
    and p: "\<And>p. follows_deletes (\<lambda>h. Inr (PrefixIterator E p h) :: 'c + bytes list)"
    by (simp_all add: store_law_def)
  note p3 = p [of "ValidatorsKey E"] and p4 = p [of "ValidatorQueueKey E"]
  have "ValidatorsPowerStoreIterator E h' = Inr []" "LastValidatorsIterator E h' = Inr []"
    unfolding h'
    by (intro listing_stays_empty [OF f(1)] listing_emptied [OF f(1)] k
        listing_stays_empty [OF f(2)] listing_emptied [OF f(2)])+
  moreover have "PrefixIterator E (ValidatorsKey E) h' = []" "PrefixIterator E (ValidatorQueueKey E) h' = []"
    unfolding h'
    using listing_stays_empty [OF p3 listing_emptied [OF p3 refl, of ?h2], of ?ks4]
      listing_emptied [OF p4 refl, of "?h2 @ deletions ?ks3"] by simp_all
  moreover have "h' = h @ deletions ks1 @ deletions ks2 @ deletions ?ks3 @ deletions ?ks4"
    unfolding h' by (simp only: append_assoc)
  moreover have "list_all removal (deletions ks1 @ deletions ks2 @ deletions ?ks3 @ deletions ?ks4)"
    by (simp only: list_all_append removal_deletions simp_thms)
  ultimately show ?thesis by (intro that)
qed

lemma add_validator_Inr:
  assumes "add_validator E newVal v h = (Inr u, h')"
  shows "h' = h @ [SetValidator newVal, SetValidatorByConsAddr newVal, SetValidatorByPowerIndex newVal,
    SetLastValidatorPower v 0, AfterValidatorCreated v]"
  using assms by (auto simp: add_validator_def seqp_Inr)

section \<open>Distribution, slashing and bank\<close>

text \<open>The calls made on the staking keeper, and those that create or move coins\<close>

fun staking_call :: "('k, 'o) tcall \<Rightarrow> bool" where
  "staking_call (Store_Delete k) = True"
| "staking_call (SetValidator v) = True"
| "staking_call (SetValidatorByConsAddr v) = True"
| "staking_call (SetValidatorByPowerIndex v) = True"
| "staking_call (SetLastValidatorPower a p) = True"
| "staking_call _ = False"

fun bank_call :: "('k, 'o) tcall \<Rightarrow> bool" where
  "bank_call (MintCoins m cs) = True"
| "bank_call (SendCoinsFromModuleToAccount m a cs) = True"
| "bank_call _ = False"

lemma other_calls:
  "calls (\<lambda>c. \<not> staking_call c) (init_distribution E v)"
  "calls (\<lambda>c. \<not> staking_call c) (set_signing_info E a)"
  "calls (\<lambda>c. \<not> staking_call c) (fund_accounts E accounts)"
  unfolding init_distribution_def set_signing_info_def fund_accounts_def fund_account_def
  by (intro calls_rules; simp)+

lemma no_bank_calls:
  "calls (\<lambda>c. \<not> bank_call c) (remove_validators E)"
  "calls (\<lambda>c. \<not> bank_call c) (add_validator E newVal v)"
  "calls (\<lambda>c. \<not> bank_call c) (init_distribution E v)"
  "calls (\<lambda>c. \<not> bank_call c) (set_signing_info E a)"
  unfolding remove_validators_def delete_all_def add_validator_def init_distribution_def set_signing_info_def
  by (intro calls_rules; simp)+

lemma initAppForTestnet_Inr:
  assumes "initAppForTestnet E args h = (Inr u, h')"
  obtains pubkey v h1 h2 where "NewAnyWithValue E (newValPubKey args) = Inr pubkey"
    "ValStringToBytes E (newOperatorAddress args) = Inr v"
    "remove_validators E h = (Inr (), h1)"
    "add_validator E (new_validator_of args pubkey) v h1 = (Inr (), h2)"
    "seqp (init_distribution E v) (\<lambda>_. seqp (set_signing_info E (newValAddr args)) (\<lambda>_.
       fund_accounts E (accountsToFund args))) h2 = (Inr (), h')"
  using assms
  by (fastforce simp: initAppForTestnet_def Let_def seqp_Inr new_validator_of_def [of args])

lemma fund_account_Inr:
  assumes "fund_account E coins s h = (Inr u, h')"
  obtains a where "AccStringToBytes E s = Inr a"
    "h' = h @ [MintCoins (MintModuleName E) coins, SendCoinsFromModuleToAccount (MintModuleName E) a coins]"
  using assms by (auto simp: fund_account_def seqp_Inr)

lemma fund_accounts_each:
  assumes "each (fund_account E coins) accounts h = (Inr u, h')"
  obtains addrs where "map (AccStringToBytes E) accounts = map Inr addrs"
    "h' = h @ concat (map (\<lambda>a. [MintCoins (MintModuleName E) coins,
        SendCoinsFromModuleToAccount (MintModuleName E) a coins]) addrs)"
proof -
  have "\<exists>addrs. map (AccStringToBytes E) accounts = map Inr addrs
    \<and> h' = h @ concat (map (\<lambda>a. [MintCoins (MintModuleName E) coins,
        SendCoinsFromModuleToAccount (MintModuleName E) a coins]) addrs)"
    using assms
  proof (induction accounts arbitrary: h)
    case (Cons s accounts)
    then obtain a h1 where a: "AccStringToBytes E s = Inr a"
      and h1: "h1 = h @ [MintCoins (MintModuleName E) coins, SendCoinsFromModuleToAccount (MintModuleName E) a coins]"
      and e: "each (fund_account E coins) accounts h1 = (Inr u, h')"
      by (auto simp: seqp_Inr elim: fund_account_Inr)
    from Cons.IH [OF e] obtain addrs where
      "map (AccStringToBytes E) accounts = map Inr addrs"
      "h' = h1 @ concat (map (\<lambda>a. [MintCoins (MintModuleName E) coins,
        SendCoinsFromModuleToAccount (MintModuleName E) a coins]) addrs)" by blast
    with a h1 show ?case by (intro exI [of _ "a # addrs"]) simp
  qed simp
  then show ?thesis using that by blast
qed

text \<open>A sample environment: keys \<open>n\<close>, a store listing \<open>[1]\<close> and \<open>[2]\<close> until they are deleted\<close>

definition left :: "bytes list \<Rightarrow> (nat, nat) tcall list \<Rightarrow> bytes list" where
  "left keys h = filter (\<lambda>k. Store_Delete k \<notin> set h) keys"

definition sample_testnet :: "(nat, nat, string) testnet" where
  "sample_testnet = \<lparr>
     NewAnyWithValue = (\<lambda>k. Inr (k + 100)),
     ValStringToBytes = (\<lambda>s. if s = '''' then Inl ''empty address'' else Inr [7]),
     AccStringToBytes = (\<lambda>s. if s = '''' then Inl ''empty address'' else Inr [of_nat (length s)]),
     ConsAddressString = (\<lambda>a. ''tatvalcons1''), ValidatorsKey = [33], ValidatorQueueKey = [67],
     MintModuleName = ''mint'', App_LastBlockHeight = (\<lambda>h. 10), StakingStore = (\<lambda>h. None),
     ValidatorsPowerStoreIterator = (\<lambda>h. Inr (left [[35, 1]] h)),
     LastValidatorsIterator = (\<lambda>h. Inr (left [[17, 1]] h)),
     PrefixIterator = (\<lambda>p h. left (if p = [33] then [[33, 1], [33, 2]] else [[67, 1]]) h),
     TBondDenom = (\<lambda>h. Inr ''stake''), NewInt64Coin = (\<lambda>d n. Inr [(d, n)]), TCallError = (\<lambda>h c. None) \<rparr>"

definition sample_val_args :: "nat val_args" where
  "sample_val_args = \<lparr>newValAddr = [9], newOperatorAddress = ''tatvaloper1a'', newValPubKey = 5,
     accountsToFund = [''a'', ''bc''], upgradeToTrigger = '''', homeDir = ''/h''\<rparr>"

lemma left_delete: "left keys (h @ [Store_Delete k]) = filter (\<lambda>x. x \<noteq> k) (left keys h)"
  by (auto simp: left_def filter_filter intro: filter_cong)

lemma sample_store_law: "store_law sample_testnet"
  by (auto simp: store_law_def follows_deletes_def sample_testnet_def left_delete)
     (simp_all add: left_def)

lemma sample_returns: "fst (initAppForTestnet sample_testnet sample_val_args []) = Inr ()"
  by (simp add: initAppForTestnet_def Let_def remove_validators_def delete_all_eq seqp_def ask_def
      handle_def ret_def sample_testnet_def sample_val_args_def new_validator_of_def add_validator_def
      handleErr_def perform_def init_distribution_def set_signing_info_def ignoring_def
      fund_accounts_def fund_account_def)

lemma sample_testnet_run: "initAppForTestnet sample_testnet sample_val_args []
    = (Inr (), snd (initAppForTestnet sample_testnet sample_val_args []))"
  using sample_returns by (metis prod.collapse)

section \<open>Runs that cannot fund an account\<close>

text \<open>
  The calls before a run stopped: none on the bank, or in the end one that mints, and then the
  run stops with \<open>e\<close> if minting succeeded.
\<close>

definition stopped_unfunded ::
  "('k, 'o, 'x) testnet \<Rightarrow> 'x tstop \<Rightarrow> ('k, 'o) tcall list \<Rightarrow> ('k, 'o) tcall list \<Rightarrow> 'x tstop \<Rightarrow> bool" where
  "stopped_unfunded E e h t e' \<longleftrightarrow>
     list_all (\<lambda>c. \<not> bank_call c) t
     \<or> (\<exists>t' coins. t = t' @ [MintCoins (MintModuleName E) coins] \<and> list_all (\<lambda>c. \<not> bank_call c) t'
         \<and> (TCallError E (h @ t') (MintCoins (MintModuleName E) coins) = None \<longrightarrow> e' = e))"

definition refuses :: "('k, 'o, 'x) testnet \<Rightarrow> 'x tstop \<Rightarrow> ('k, 'o, 'x, 'a) testnet_prog \<Rightarrow> bool" where
  "refuses E e m \<longleftrightarrow> (\<forall>h. \<exists>e' t. m h = (Inl e', h @ t) \<and> stopped_unfunded E e h t e')"

lemma refuses_seqp:
  assumes "calls (\<lambda>c. \<not> bank_call c) m" "\<And>x h h'. m h = (Inr x, h') \<Longrightarrow> refuses E e (k x)"
  shows "refuses E e (seqp m k)"
  unfolding refuses_def
proof
  fix h
  obtain r h1 where m: "m h = (r, h1)" by (cases "m h")
  with assms(1) obtain t where t: "h1 = h @ t" "list_all (\<lambda>c. \<not> bank_call c) t" by (rule callsD)
  show "\<exists>e' t. seqp m k h = (Inl e', h @ t) \<and> stopped_unfunded E e h t e'"
  proof (cases r)
    case (Inl a)
    with m t show ?thesis by (simp add: seqp_def stopped_unfunded_def)
  next
    case (Inr x)
    with m assms(2) have "refuses E e (k x)" by blast
    then obtain e' u where u: "k x h1 = (Inl e', h1 @ u)" "stopped_unfunded E e h1 u e'"
      unfolding refuses_def by blast
    from u(2) t have "stopped_unfunded E e h (t @ u) e'"
      unfolding stopped_unfunded_def by (metis append_assoc list_all_append)
    with m Inr t(1) u(1) show ?thesis by (intro exI [of _ e'] exI [of _ "t @ u"]) (simp add: seqp_def)
  qed
qed

lemma fund_account_refuses:
  assumes "AccStringToBytes E s = Inl x"
  shows "refuses E (Exit1 x) (each (fund_account E coins) (s # accounts))"
proof -
  let ?m = "MintCoins (MintModuleName E) coins"
  have "\<exists>e' t. each (fund_account E coins) (s # accounts) h = (Inl e', h @ t)
      \<and> stopped_unfunded E (Exit1 x) h t e'" for h
    using assms
    by (intro exI [of _ "case TCallError E h ?m of None \<Rightarrow> Exit1 x | Some y \<Rightarrow> Exit1 y"] exI [of _ "[?m]"])
       (cases "TCallError E h ?m";
        simp add: fund_account_def seqp_def handleErr_def handle_def prog_defs stopped_unfunded_def)
  then show ?thesis by (simp add: refuses_def)
qed

lemma initAppForTestnet_refuses:
  assumes "accountsToFund args = s # accounts" "AccStringToBytes E s = Inl x"
  shows "refuses E (Exit1 x) (initAppForTestnet E args)"
  unfolding initAppForTestnet_def fund_accounts_def Let_def assms(1)
  by (intro refuses_seqp no_bank_calls calls_rules fund_account_refuses [OF assms(2)])

section \<open>Properties\<close>

text \<open>
  C13. The in-place testnet starts from an empty validator set: given that deleting keys takes them out of the
  store's listings, a run that returns first empties the power index, the last validators, the
  validators and the unbonding queue by deletions alone, then stores the new validator, bonded and not
  jailed, and makes no other change in the staking store.
\<close>

theorem validators_replaced:
  assumes "store_law E" "initAppForTestnet E args h = (Inr u, h')"
  shows "\<exists>clear v new rest. h' = h @ clear @ [SetValidator new, SetValidatorByConsAddr new,
        SetValidatorByPowerIndex new, SetLastValidatorPower v 0, AfterValidatorCreated v] @ rest
    \<and> list_all removal clear \<and> list_all (\<lambda>c. \<not> staking_call c) rest
    \<and> ValidatorsPowerStoreIterator E (h @ clear) = Inr [] \<and> LastValidatorsIterator E (h @ clear) = Inr []
    \<and> PrefixIterator E (ValidatorsKey E) (h @ clear) = [] \<and> PrefixIterator E (ValidatorQueueKey E) (h @ clear) = []
    \<and> ValStringToBytes E (newOperatorAddress args) = Inr v \<and> OperatorAddress new = newOperatorAddress args
    \<and> Status new = Bonded \<and> \<not> Jailed new \<and> Tokens new = 900000000000000"
proof -
  from assms(2) obtain pubkey v h1 h2 where v: "ValStringToBytes E (newOperatorAddress args) = Inr v"
    and r: "remove_validators E h = (Inr (), h1)"
    and a: "add_validator E (new_validator_of args pubkey) v h1 = (Inr (), h2)"
    and rest: "seqp (init_distribution E v) (\<lambda>_. seqp (set_signing_info E (newValAddr args)) (\<lambda>_.
       fund_accounts E (accountsToFund args))) h2 = (Inr (), h')"
    by (rule initAppForTestnet_Inr)
  obtain clear where clear: "h1 = h @ clear" "list_all removal clear"
    "ValidatorsPowerStoreIterator E h1 = Inr []" "LastValidatorsIterator E h1 = Inr []"
    "PrefixIterator E (ValidatorsKey E) h1 = []" "PrefixIterator E (ValidatorQueueKey E) h1 = []"
    using remove_validators_Inr [OF assms(1) r] .
  have "calls (\<lambda>c. \<not> staking_call c) (seqp (init_distribution E v) (\<lambda>_.
      seqp (set_signing_info E (newValAddr args)) (\<lambda>_. fund_accounts E (accountsToFund args))))"
    by (intro calls_rules other_calls)
  then obtain t where t: "h' = h2 @ t" "list_all (\<lambda>c. \<not> staking_call c) t"
    using rest by (rule callsD)
  show ?thesis
    by (rule exI [of _ clear], rule exI [of _ v], rule exI [of _ "new_validator_of args pubkey"], rule exI [of _ t])
       (use clear t v add_validator_Inr [OF a] in \<open>simp add: new_validator_of_def valVotingPower_def\<close>)
qed

theorem validators_replaced_witness:
  "\<exists>clear v new rest. snd (initAppForTestnet sample_testnet sample_val_args [])
      = [] @ clear @ [SetValidator new, SetValidatorByConsAddr new,
        SetValidatorByPowerIndex new, SetLastValidatorPower v 0, AfterValidatorCreated v] @ rest
    \<and> ValidatorsPowerStoreIterator sample_testnet ([] @ clear) = Inr [] \<and> Status new = Bonded"
  using validators_replaced [OF sample_store_law sample_testnet_run] by blast

text \<open>
  C29. A run that returns mints and sends the same coins, 1000000000 of the bond denomination, once for each
  listed account and in the order of the list, after everything else; every account string
  was an address.
\<close>

theorem accounts_funded:
  assumes "initAppForTestnet E args h = (Inr u, h')"
  shows "\<exists>t addrs denom coins. map (AccStringToBytes E) (accountsToFund args) = map Inr addrs
    \<and> TBondDenom E (h @ t) = Inr denom \<and> NewInt64Coin E denom 1000000000 = Inr coins
    \<and> list_all (\<lambda>c. \<not> bank_call c) t
    \<and> h' = h @ t @ concat (map (\<lambda>a. [MintCoins (MintModuleName E) coins,
        SendCoinsFromModuleToAccount (MintModuleName E) a coins]) addrs)"
proof -
  let ?before = "\<lambda>pubkey v. seqp (remove_validators E) (\<lambda>_. seqp (add_validator E (new_validator_of args pubkey) v) (\<lambda>_.
      seqp (init_distribution E v) (\<lambda>_. set_signing_info E (newValAddr args))))"
  from assms obtain pubkey v h1 h2 where
    r: "remove_validators E h = (Inr (), h1)"
    and a: "add_validator E (new_validator_of args pubkey) v h1 = (Inr (), h2)"
    and rest: "seqp (init_distribution E v) (\<lambda>_. seqp (set_signing_info E (newValAddr args)) (\<lambda>_.
       fund_accounts E (accountsToFund args))) h2 = (Inr (), h')"
    by (rule initAppForTestnet_Inr)
  from rest obtain h3 h4 where d: "init_distribution E v h2 = (Inr (), h3)"
    and s: "set_signing_info E (newValAddr args) h3 = (Inr (), h4)"
    and f: "fund_accounts E (accountsToFund args) h4 = (Inr (), h')"
    by (auto simp: seqp_Inr)
  have b: "?before pubkey v h = (Inr (), h4)"
    using r a d s by (simp add: seqp_def)
  have "calls (\<lambda>c. \<not> bank_call c) (?before pubkey v)"
    by (intro calls_rules no_bank_calls)
  then obtain t where t: "h4 = h @ t" "list_all (\<lambda>c. \<not> bank_call c) t"
    using b by (rule callsD)
  from f obtain denom coins where c: "TBondDenom E h4 = Inr denom" "NewInt64Coin E denom 1000000000 = Inr coins"
    and e: "each (fund_account E coins) (accountsToFund args) h4 = (Inr (), h')"
    by (auto simp: fund_accounts_def seqp_Inr)
  from e obtain addrs where addrs: "map (AccStringToBytes E) (accountsToFund args) = map Inr addrs"
    "h' = h4 @ concat (map (\<lambda>a. [MintCoins (MintModuleName E) coins,
        SendCoinsFromModuleToAccount (MintModuleName E) a coins]) addrs)"
    by (rule fund_accounts_each)
  show ?thesis
    by (rule exI [of _ t], rule exI [of _ addrs], rule exI [of _ denom], rule exI [of _ coins])
       (use addrs c t in simp)
qed

theorem accounts_funded_witness:
  "\<exists>t addrs denom coins. map (AccStringToBytes sample_testnet) (accountsToFund sample_val_args) = map Inr addrs
    \<and> TBondDenom sample_testnet ([] @ t) = Inr denom \<and> NewInt64Coin sample_testnet denom 1000000000 = Inr coins
    \<and> snd (initAppForTestnet sample_testnet sample_val_args []) = [] @ t @ concat (map (\<lambda>a.
        [MintCoins (MintModuleName sample_testnet) coins,
         SendCoinsFromModuleToAccount (MintModuleName sample_testnet) a coins]) addrs)"
  using accounts_funded [OF sample_testnet_run] by blast

text \<open>
  C37. Without the accounts flag the command cannot succeed: its default value, the empty string, is split into a
  list with one empty string, so the run stops before it sent coins to anyone; if it reaches the funding,
  it mints the coins of the account that does not exist once and exits with the codec's error.
\<close>

theorem default_accounts_exit:
  assumes "ToString R (opts flagAccountsToFund) = ''''" "AccStringToBytes E '''' = Inl x"
  shows "\<exists>e t. newTestnetApp E R opts h = (Inl e, h @ t)
    \<and> (list_all (\<lambda>c. \<not> bank_call c) t
      \<or> (\<exists>t' coins. t = t' @ [MintCoins (MintModuleName E) coins] \<and> list_all (\<lambda>c. \<not> bank_call c) t'
          \<and> (TCallError E (h @ t') (MintCoins (MintModuleName E) coins) = None \<longrightarrow> e = Exit1 x)))"
proof -
  have args: "accountsToFund args = ['''']" if "getCommandArgs R opts = Inr args" for args
    using that assms(1) by (auto simp: getCommandArgs_def Let_def split: option_value.splits if_splits)
  have "refuses E (Exit1 x) (newTestnetApp E R opts)"
    unfolding newTestnetApp_def
    by (intro refuses_seqp calls_rules)
       (auto intro: initAppForTestnet_refuses [OF args assms(2)])
  then show ?thesis unfolding refuses_def stopped_unfunded_def by (rule spec)
qed

definition sample_reader :: "(nat, nat) option_reader" where
  "sample_reader = \<lparr>KeyNewValAddr = ''a'', KeyUserPubKey = ''p'', KeyNewOpAddr = ''o'',
     KeyTriggerTestnetUpgrade = ''u'', FlagHome = ''home'',
     ToString = (\<lambda>v. case v of StringValue s \<Rightarrow> s | _ \<Rightarrow> '''')\<rparr>"

definition sample_opts :: "string \<Rightarrow> (nat, nat) option_value" where
  "sample_opts k = (if k = ''a'' then HexBytes [9] else if k = ''p'' then PubKey 5
     else if k = ''o'' then StringValue ''tatvaloper1a'' else if k = ''u'' then StringValue ''''
     else if k = ''home'' then StringValue ''/h'' else StringValue '''')"

theorem default_accounts_exit_witness:
  "fst (newTestnetApp sample_testnet sample_reader sample_opts []) = Inl (Exit1 ''empty address'')
    \<and> (\<exists>e t. newTestnetApp sample_testnet sample_reader sample_opts [] = (Inl e, [] @ t))"
proof
  show "fst (newTestnetApp sample_testnet sample_reader sample_opts []) = Inl (Exit1 ''empty address'')"
    by (simp add: newTestnetApp_def getCommandArgs_def sample_reader_def sample_opts_def flagAccountsToFund_def
        initAppForTestnet_def Let_def remove_validators_def delete_all_eq seqp_def ask_def
        handle_def ret_def stop_def sample_testnet_def new_validator_of_def add_validator_def
        handleErr_def perform_def init_distribution_def set_signing_info_def ignoring_def
        fund_accounts_def fund_account_def)
  have "ToString sample_reader (sample_opts flagAccountsToFund) = ''''"
    "AccStringToBytes sample_testnet '''' = Inl ''empty address''"
    by (simp_all add: sample_reader_def sample_opts_def flagAccountsToFund_def sample_testnet_def)
  from default_accounts_exit [of sample_reader sample_opts sample_testnet, OF this, of "[]"]
  show "\<exists>e t. newTestnetApp sample_testnet sample_reader sample_opts [] = (Inl e, [] @ t)" by blast
qed

section \<open>When the command succeeds\<close>

text \<open>
  Nothing outside fails: the staking store exists, its listings can be read, coins of the bond denomination can be made
  and no call returns an error. What depends on the arguments is \<open>usable\<close>.
\<close>

definition faultless_testnet :: "('k, 'o, 'x) testnet \<Rightarrow> bool" where
  "faultless_testnet E \<longleftrightarrow>
     (\<forall>h c. TCallError E h c = None) \<and> (\<forall>h. StakingStore E h = None)
     \<and> (\<forall>h e. ValidatorsPowerStoreIterator E h \<noteq> Inl e) \<and> (\<forall>h e. LastValidatorsIterator E h \<noteq> Inl e)
     \<and> (\<forall>h e. TBondDenom E h \<noteq> Inl e)
     \<and> (\<forall>h d e. TBondDenom E h = Inr d \<longrightarrow> NewInt64Coin E d 1000000000 \<noteq> Inl e)"

definition usable :: "('k, 'o, 'x) testnet \<Rightarrow> 'k val_args \<Rightarrow> bool" where
  "usable E args \<longleftrightarrow>
     (\<forall>e. NewAnyWithValue E (newValPubKey args) \<noteq> Inl e)
     \<and> (\<forall>e. ValStringToBytes E (newOperatorAddress args) \<noteq> Inl e)
     \<and> (\<forall>s \<in> set (accountsToFund args). \<forall>e. AccStringToBytes E s \<noteq> Inl e)"

lemma stops_handleErr [stops_rules]: "faultless_testnet E \<Longrightarrow> stops P (handleErr E c)"
  by (simp add: stops_def handleErr_def seqp_def perform_def faultless_testnet_def ret_def)

lemma stops_handle [stops_rules]: "(\<And>x h. r = Inl x \<Longrightarrow> P (Exit1 x) h) \<Longrightarrow> stops P (handle r)"
  unfolding handle_def by (rule stops_unwrap)

lemma stops_ignoring [stops_rules]: "stops P (ignoring E c)"
  by (simp add: stops_def)

lemma delete_all_stops [stops_rules]: "stops P (delete_all E keys)"
  by (simp add: stops_def delete_all_eq)

lemma remove_validators_stops:
  assumes "faultless_testnet E"
  shows "stops P (remove_validators E)"
  unfolding remove_validators_def
  by (intro stops_rules) (use assms in \<open>simp_all add: faultless_testnet_def\<close>)

lemma fund_accounts_stops:
  assumes "faultless_testnet E" "\<And>s x h. s \<in> set accounts \<Longrightarrow> AccStringToBytes E s = Inl x \<Longrightarrow> P (Exit1 x) h"
  shows "stops P (fund_accounts E accounts)"
proof -
  have "stops P (each (fund_account E coins) accounts)" for coins
    unfolding fund_account_def by (intro stops_rules) (use assms in auto)
  moreover have denom: "stops P (seqp (handle (TBondDenom E h)) (\<lambda>d. seqp (unwrap PanicErr (NewInt64Coin E d 1000000000)) k))"
    if "\<And>coins. stops P (k coins)" for h k
    using assms(1) that by (cases "TBondDenom E h"; cases "NewInt64Coin E (projr (TBondDenom E h)) 1000000000")
      (auto simp: handle_def faultless_testnet_def)
  ultimately show ?thesis unfolding fund_accounts_def by (intro stops_ask denom)
qed

lemma initAppForTestnet_stops:
  assumes "faultless_testnet E"
    and "\<And>x h. NewAnyWithValue E (newValPubKey args) = Inl x \<Longrightarrow> P (Exit1 x) h"
    and "\<And>x h. ValStringToBytes E (newOperatorAddress args) = Inl x \<Longrightarrow> P (Exit1 x) h"
    and "\<And>s x h. s \<in> set (accountsToFund args) \<Longrightarrow> AccStringToBytes E s = Inl x \<Longrightarrow> P (Exit1 x) h"
  shows "stops P (initAppForTestnet E args)"
  unfolding initAppForTestnet_def Let_def add_validator_def init_distribution_def set_signing_info_def
  by (intro remove_validators_stops fund_accounts_stops stops_rules)
     (use assms in \<open>auto simp: new_validator_of_def\<close>)

lemma initAppForTestnet_usable:
  assumes "initAppForTestnet E args h = (Inr u, h')"
  shows "usable E args"
proof -
  from assms obtain pubkey v h2 where p: "NewAnyWithValue E (newValPubKey args) = Inr pubkey"
    and v: "ValStringToBytes E (newOperatorAddress args) = Inr v"
    and rest: "seqp (init_distribution E v) (\<lambda>_. seqp (set_signing_info E (newValAddr args)) (\<lambda>_.
       fund_accounts E (accountsToFund args))) h2 = (Inr (), h')"
    by (rule initAppForTestnet_Inr)
  from rest obtain h3 coins where "each (fund_account E coins) (accountsToFund args) h3 = (Inr (), h')"
    by (auto simp: seqp_Inr fund_accounts_def)
  then obtain addrs where "map (AccStringToBytes E) (accountsToFund args) = map Inr addrs"
    by (rule fund_accounts_each)
  then have "AccStringToBytes E s \<in> range Inr" if "s \<in> set (accountsToFund args)" for s
    using that by (metis (mono_tags, lifting) image_eqI image_mono list.set_map subset_UNIV subsetD)
  with p v show ?thesis unfolding usable_def by fastforce
qed

lemma newTestnetApp_eq:
  assumes "faultless_testnet E"
  shows "newTestnetApp E R opts h = (case getCommandArgs R opts of
     Inl msg \<Rightarrow> (Inl (PanicMsg msg), h @ [NewApp]) | Inr args \<Rightarrow> initAppForTestnet E args (h @ [NewApp]))"
  using assms by (auto simp: newTestnetApp_def seqp_def perform_def faultless_testnet_def ret_def stop_def split: sum.split)

text \<open>
  C35. When the command succeeds: if nothing outside fails, it builds the application and returns exactly
  when its options have the right types, the validator's key can be packed, and the operator and every listed
  account are addresses; with wrong options it panics with the message of the first one before anything is
  changed, and with a bad key or address it exits with that error.
\<close>

theorem testnet_returns:
  assumes "faultless_testnet E"
  shows "case getCommandArgs R opts of
     Inl msg \<Rightarrow> newTestnetApp E R opts h = (Inl (PanicMsg msg), h @ [NewApp])
   | Inr args \<Rightarrow>
       if usable E args then \<exists>t. newTestnetApp E R opts h = (Inr (), h @ NewApp # t)
       else \<exists>x t. newTestnetApp E R opts h = (Inl (Exit1 x), h @ NewApp # t)
         \<and> (NewAnyWithValue E (newValPubKey args) = Inl x \<or> ValStringToBytes E (newOperatorAddress args) = Inl x
            \<or> (\<exists>s. s \<in> set (accountsToFund args) \<and> AccStringToBytes E s = Inl x))"
proof (cases "getCommandArgs R opts")
  case (Inl msg)
  then show ?thesis by (simp add: newTestnetApp_eq [OF assms])
next
  case (Inr args)
  let ?bad = "\<lambda>x. NewAnyWithValue E (newValPubKey args) = Inl x \<or> ValStringToBytes E (newOperatorAddress args) = Inl x
            \<or> (\<exists>s. s \<in> set (accountsToFund args) \<and> AccStringToBytes E s = Inl x)"
  obtain r h' where run: "initAppForTestnet E args (h @ [NewApp]) = (r, h')"
    by (cases "initAppForTestnet E args (h @ [NewApp])")
  have "calls (\<lambda>_. True) (initAppForTestnet E args)"
    unfolding initAppForTestnet_def remove_validators_def delete_all_def add_validator_def init_distribution_def
      set_signing_info_def fund_accounts_def fund_account_def Let_def
    by (intro calls_rules TrueI)
  then obtain t where "h' = (h @ [NewApp]) @ t" using run by (rule callsD)
  then have t: "h' = h @ NewApp # t" by simp
  have "stops (\<lambda>e _. \<exists>x. e = Exit1 x \<and> ?bad x) (initAppForTestnet E args)"
    by (rule initAppForTestnet_stops [OF assms]) auto
  then show ?thesis
    using run t Inr initAppForTestnet_usable [of E args "h @ [NewApp]"]
    by (cases r) (auto simp: newTestnetApp_eq [OF assms] usable_def dest: stopsD)
qed

definition funding_opts :: "string \<Rightarrow> (nat, nat) option_value" where
  "funding_opts k = (if k = ''accounts-to-fund'' then StringValue ''a,bc'' else sample_opts k)"

lemma sample_testnet_faultless: "faultless_testnet sample_testnet"
  by (simp add: faultless_testnet_def sample_testnet_def)

lemma sample_command_args:
  "getCommandArgs sample_reader funding_opts = Inr sample_val_args"
  "getCommandArgs sample_reader sample_opts = Inr (sample_val_args\<lparr>accountsToFund := ['''']\<rparr>)"
  by (simp_all add: getCommandArgs_def sample_reader_def sample_opts_def funding_opts_def flagAccountsToFund_def
      sample_val_args_def Let_def)

lemma sample_wrong_option:
  "getCommandArgs sample_reader (\<lambda>_. OtherValue 0) = Inl ''newValAddr is not of type bytes.HexBytes''"
  by (simp add: getCommandArgs_def)

lemma sample_usable:
  "usable sample_testnet sample_val_args"
  "\<not> usable sample_testnet (sample_val_args\<lparr>accountsToFund := ['''']\<rparr>)"
  by (simp_all add: usable_def sample_testnet_def sample_val_args_def)

theorem testnet_returns_witness:
  "(\<exists>t. newTestnetApp sample_testnet sample_reader funding_opts [] = (Inr (), [] @ NewApp # t))
    \<and> (\<exists>x t. newTestnetApp sample_testnet sample_reader sample_opts [] = (Inl (Exit1 x), [] @ NewApp # t))
    \<and> newTestnetApp sample_testnet sample_reader (\<lambda>_. OtherValue 0) []
      = (Inl (PanicMsg ''newValAddr is not of type bytes.HexBytes''), [] @ [NewApp])"
  using testnet_returns [OF sample_testnet_faultless, of sample_reader funding_opts "[]"]
    testnet_returns [OF sample_testnet_faultless, of sample_reader sample_opts "[]"]
    testnet_returns [OF sample_testnet_faultless, of sample_reader "\<lambda>_. OtherValue 0" "[]"]
  unfolding sample_command_args sample_wrong_option by (auto simp: sample_usable)

end
