(* ===== verification/Wire.thy ===== *)
theory Wire
  imports Prelude
begin

unbundle bit_operations_syntax

text \<open>
  The wire codec of x/tatcore/types/*.pb.go. The five files hold one copy each of the same
  routines (\<^verbatim>\<open>sovX\<close>, \<^verbatim>\<open>encodeVarintX\<close>, \<^verbatim>\<open>skipX\<close>) with error values of their own, and
  every message's \<^verbatim>\<open>Unmarshal\<close> is the same loop around its own \<^verbatim>\<open>switch fieldNum\<close>. Here the
  routines are written once, over the file whose sentinels they return (\<open>pbfile\<close>) and over
  the table of the message's fields; Messages instantiates them file by file.

  Indices are Go \<open>int\<close>s. Every sum that the code forms on them wraps (\<open>goint\<close>), every
  access is bounds-checked, and the outer loops run on fuel, so a panic (\<open>GoPanic\<close>) and a
  loop that does not end (\<open>OutOfFuel\<close>) are results like the errors the code returns. The
  lemmas then show that neither happens on a slice Go can hold (\<open>fits\<close>).
\<close>

section \<open>Errors\<close>

datatype pbfile = PbParams | PbTx | PbQuery | PbGenesis | PbModule

datatype perr =
    ErrIntOverflow pbfile
  | ErrInvalidLength pbfile
  | ErrUnexpectedEndOfGroup pbfile
  | ErrUnexpectedEOF
  | EndGroupForNonGroup string      \<comment> \<open>message\<close>
  | IllegalTag string int u64       \<comment> \<open>message, field number, the tag\<close>
  | WrongWireType int string        \<comment> \<open>wire type, field\<close>
  | IllegalWireType int
  | GoPanic                         \<comment> \<open>index or slice bounds out of range\<close>
  | OutOfFuel

definition crashed :: "perr + 'a \<Rightarrow> bool" where
  "crashed r \<longleftrightarrow> r = Inl GoPanic \<or> r = Inl OutOfFuel"

section \<open>Size of a varint\<close>

text \<open>\<^verbatim>\<open>math/bits.Len64\<close>: the number of bits needed to write the value, 0 for 0.\<close>

fun bitlen_nat :: "nat \<Rightarrow> nat" where
  "bitlen_nat n = (if n = 0 then 0 else Suc (bitlen_nat (n div 2)))"

declare bitlen_nat.simps [simp del]

definition Len64 :: "u64 \<Rightarrow> nat" where
  "Len64 x = bitlen_nat (unat x)"

definition sov :: "u64 \<Rightarrow> nat" where
  "sov x = (Len64 (x OR 1) + 6) div 7"

text \<open>\<open>x << 1 ^ uint64(int64(x) >> 63)\<close>: the arithmetic shift copies the sign bit.\<close>

definition soz :: "u64 \<Rightarrow> nat" where
  "soz x = sov (push_bit 1 x XOR signed_drop_bit 63 x)"

section \<open>Writing a varint\<close>

lemma unat_drop_7: "unat (drop_bit 7 v) = unat (v :: u64) div 128"
  by (simp only: unat_drop_bit_eq) (simp add: drop_bit_eq_div)

function put_varint :: "byte list \<Rightarrow> int \<Rightarrow> u64 \<Rightarrow> perr + byte list" where
  "put_varint dAtA offset v =
     (if v \<ge> 0x80
      then bindE (write_at GoPanic dAtA offset (ucast (v AND 0x7f OR 0x80)))
             (\<lambda>dAtA'. put_varint dAtA' (goint (offset + 1)) (drop_bit 7 v))
      else write_at GoPanic dAtA offset (ucast v))"
  by pat_completeness auto
termination
proof (relation "measure (\<lambda>(d, i, v). unat v)")
  fix dAtA :: "byte list" and offset :: int and v :: u64 and dAtA' :: "byte list"
  assume "0x80 \<le> v"
  then have "128 \<le> unat v" by (simp add: word_le_nat_alt)
  then show "((dAtA', goint (offset + 1), drop_bit 7 v), dAtA, offset, v)
      \<in> measure (\<lambda>(d, i, v). unat v)"
    by (simp only: in_measure split_conv unat_drop_7)
qed simp

declare put_varint.simps [simp del]

definition encodeVarint :: "byte list \<Rightarrow> int \<Rightarrow> u64 \<Rightarrow> perr + (byte list \<times> int)" where
  "encodeVarint dAtA offset v =
     (let base = goint (offset - int (sov v))
      in bindE (put_varint dAtA base v) (\<lambda>dAtA'. Inr (dAtA', base)))"

section \<open>Reading a varint\<close>

text \<open>
  The loop \<^verbatim>\<open>for shift := uint(0); ; shift += 7\<close> that the code repeats inline for tags and
  lengths. The accumulator is the 64-bit pattern; where the code accumulates into an \<open>int\<close>
  the same pattern is read with \<open>sint\<close>.
\<close>

function read_varint :: "pbfile \<Rightarrow> byte list \<Rightarrow> nat \<Rightarrow> int \<Rightarrow> u64 \<Rightarrow> perr + (u64 \<times> int)" where
  "read_varint f dAtA shift iNdEx acc =
     (if shift \<ge> 64 then Inl (ErrIntOverflow f)
      else if iNdEx \<ge> int (length dAtA) then Inl ErrUnexpectedEOF
      else bindE (read_at GoPanic dAtA iNdEx) (\<lambda>b.
        let acc' = acc OR push_bit shift (ucast (b AND 0x7F)) in
        if b < 0x80 then Inr (acc', goint (iNdEx + 1))
        else read_varint f dAtA (shift + 7) (goint (iNdEx + 1)) acc'))"
  by pat_completeness auto
termination
  by (relation "measure (\<lambda>(f, d, shift, i, acc). 64 - shift)") auto

declare read_varint.simps [simp del]

section \<open>Skipping an unknown field\<close>

function skip_varint :: "pbfile \<Rightarrow> byte list \<Rightarrow> nat \<Rightarrow> int \<Rightarrow> perr + int" where
  "skip_varint f dAtA shift iNdEx =
     (if shift \<ge> 64 then Inl (ErrIntOverflow f)
      else if iNdEx \<ge> int (length dAtA) then Inl ErrUnexpectedEOF
      else bindE (read_at GoPanic dAtA (goint (iNdEx + 1) - 1)) (\<lambda>b.
        if b < 0x80 then Inr (goint (iNdEx + 1))
        else skip_varint f dAtA (shift + 7) (goint (iNdEx + 1))))"
  by pat_completeness auto
termination
  by (relation "measure (\<lambda>(f, d, shift, i). 64 - shift)") auto

declare skip_varint.simps [simp del]

text \<open>The \<^verbatim>\<open>switch wireType\<close> of \<^verbatim>\<open>skipX\<close>: the next index and the group depth.\<close>

definition skip_value :: "pbfile \<Rightarrow> byte list \<Rightarrow> int \<Rightarrow> int \<Rightarrow> nat \<Rightarrow> perr + (int \<times> nat)" where
  "skip_value f dAtA wireType iNdEx depth =
     (if wireType = 0 then bindE (skip_varint f dAtA 0 iNdEx) (\<lambda>i. Inr (i, depth))
      else if wireType = 1 then Inr (goint (iNdEx + 8), depth)
      else if wireType = 2 then
        bindE (read_varint f dAtA 0 iNdEx 0) (\<lambda>(w, i).
          let len = sint w in
          if len < 0 then Inl (ErrInvalidLength f) else Inr (goint (i + len), depth))
      else if wireType = 3 then Inr (iNdEx, depth + 1)
      else if wireType = 4 then
        (if depth = 0 then Inl (ErrUnexpectedEndOfGroup f) else Inr (iNdEx, depth - 1))
      else if wireType = 5 then Inr (goint (iNdEx + 4), depth)
      else Inl (IllegalWireType wireType))"

definition wire_type :: "u64 \<Rightarrow> int" where
  "wire_type wire = uint (wire AND 0x7)"

fun skip_loop :: "nat \<Rightarrow> pbfile \<Rightarrow> byte list \<Rightarrow> int \<Rightarrow> nat \<Rightarrow> perr + int" where
  "skip_loop 0 f dAtA iNdEx depth = Inl OutOfFuel"
| "skip_loop (Suc fuel) f dAtA iNdEx depth =
     (if iNdEx < int (length dAtA) then
        bindE (read_varint f dAtA 0 iNdEx 0) (\<lambda>(wire, i1).
        bindE (skip_value f dAtA (wire_type wire) i1 depth) (\<lambda>(i2, depth2).
          if i2 < 0 then Inl (ErrInvalidLength f)
          else if depth2 = 0 then Inr i2
          else skip_loop fuel f dAtA i2 depth2))
      else Inl ErrUnexpectedEOF)"

definition skip_field :: "pbfile \<Rightarrow> byte list \<Rightarrow> perr + int" where
  "skip_field f dAtA = skip_loop (Suc (length dAtA)) f dAtA 0 0"

section \<open>The Unmarshal loop\<close>

text \<open>
  A message's \<^verbatim>\<open>switch fieldNum\<close> as a table: for every declared field its name and how the
  bytes of the field change the message. All fields of the repository are length-delimited
  (a string or an embedded message).
\<close>

type_synonym 'm fields = "int \<Rightarrow> (string \<times> ('m \<Rightarrow> byte list \<Rightarrow> perr + 'm)) option"

definition field_number :: "u64 \<Rightarrow> int" where
  "field_number wire = sint (ucast (drop_bit 3 wire) :: 32 word)"

text \<open>The length prefix of a declared field with its checks: where the field starts and ends.\<close>

definition field_bounds :: "pbfile \<Rightarrow> byte list \<Rightarrow> int \<Rightarrow> perr + (int \<times> int)" where
  "field_bounds f dAtA iNdEx =
     bindE (read_varint f dAtA 0 iNdEx 0) (\<lambda>(w, i).
       let len = sint w in
       if len < 0 then Inl (ErrInvalidLength f)
       else let postIndex = goint (i + len) in
         if postIndex < 0 then Inl (ErrInvalidLength f)
         else if postIndex > int (length dAtA) then Inl ErrUnexpectedEOF
         else Inr (i, postIndex))"

definition read_field ::
  "pbfile \<Rightarrow> (string \<times> ('m \<Rightarrow> byte list \<Rightarrow> perr + 'm)) \<Rightarrow> int \<Rightarrow> byte list \<Rightarrow> 'm \<Rightarrow> int
    \<Rightarrow> perr + ('m \<times> int)" where
  "read_field f fld wireType dAtA m iNdEx =
     (if wireType \<noteq> 2 then Inl (WrongWireType wireType (fst fld))
      else bindE (field_bounds f dAtA iNdEx) (\<lambda>(i, postIndex).
           bindE (subslice GoPanic dAtA i postIndex) (\<lambda>bs.
           bindE (snd fld m bs) (\<lambda>m'. Inr (m', postIndex)))))"

text \<open>The \<^verbatim>\<open>default\<close> branch: skip the field, tag included.\<close>

definition skip_unknown :: "pbfile \<Rightarrow> byte list \<Rightarrow> int \<Rightarrow> perr + int" where
  "skip_unknown f dAtA iNdEx =
     bindE (subslice GoPanic dAtA iNdEx (int (length dAtA))) (\<lambda>rest.
     bindE (skip_field f rest) (\<lambda>skippy.
       if skippy < 0 \<or> goint (iNdEx + skippy) < 0 then Inl (ErrInvalidLength f)
       else if goint (iNdEx + skippy) > int (length dAtA) then Inl ErrUnexpectedEOF
       else Inr (goint (iNdEx + skippy))))"

definition unmarshal_step ::
  "pbfile \<Rightarrow> string \<Rightarrow> 'm fields \<Rightarrow> byte list \<Rightarrow> 'm \<Rightarrow> int \<Rightarrow> perr + ('m \<times> int)" where
  "unmarshal_step f name flds dAtA m iNdEx =
     (let preIndex = iNdEx in
      bindE (read_varint f dAtA 0 iNdEx 0) (\<lambda>(wire, i1).
        let fieldNum = field_number wire; wireType = wire_type wire in
        if wireType = 4 then Inl (EndGroupForNonGroup name)
        else if fieldNum \<le> 0 then Inl (IllegalTag name fieldNum wire)
        else case flds fieldNum of
          Some fld \<Rightarrow> read_field f fld wireType dAtA m i1
        | None \<Rightarrow> bindE (skip_unknown f dAtA preIndex) (\<lambda>i. Inr (m, i))))"

fun unmarshal_loop ::
  "nat \<Rightarrow> pbfile \<Rightarrow> string \<Rightarrow> 'm fields \<Rightarrow> byte list \<Rightarrow> 'm \<Rightarrow> int \<Rightarrow> perr + 'm" where
  "unmarshal_loop 0 f name flds dAtA m iNdEx = Inl OutOfFuel"
| "unmarshal_loop (Suc fuel) f name flds dAtA m iNdEx =
     (if iNdEx < int (length dAtA)
      then bindE (unmarshal_step f name flds dAtA m iNdEx)
             (\<lambda>(m', i). unmarshal_loop fuel f name flds dAtA m' i)
      else if iNdEx > int (length dAtA) then Inl ErrUnexpectedEOF
      else Inr m)"

definition unmarshal :: "pbfile \<Rightarrow> string \<Rightarrow> 'm fields \<Rightarrow> 'm \<Rightarrow> byte list \<Rightarrow> perr + 'm" where
  "unmarshal f name flds m dAtA =
     unmarshal_loop (Suc (length dAtA)) f name flds dAtA m 0"

end
