(* ===== verification/WireSpec.thy ===== *)
theory WireSpec
  imports Wire
begin

text \<open>
  The protobuf wire format as a grammar on byte lists, without indices, buffers, fuel or
  error values: what a varint, a length-delimited block, a skipped value and a message are.
  WireCorrect shows that the code's routines of Wire accept exactly these byte strings and
  compute these values.
\<close>

section \<open>Varints\<close>

text \<open>The canonical encoding: groups of seven bits, lowest first, the high bit set but for the last.\<close>

fun varint :: "nat \<Rightarrow> byte list" where
  "varint n = (if n < 128 then [word_of_nat n] else word_of_nat (n mod 128 + 128) # varint (n div 128))"

declare varint.simps [simp del]

text \<open>A varint of at most \<open>k\<close> groups at the front of the bytes, and the bytes after it.\<close>

fun take_varint :: "nat \<Rightarrow> byte list \<Rightarrow> (nat \<times> byte list) option" where
  "take_varint 0 bs = None"
| "take_varint (Suc k) [] = None"
| "take_varint (Suc k) (b # bs) =
     (if unat b < 128 then Some (unat b, bs)
      else map_option (\<lambda>(n, r). (unat b - 128 + 128 * n, r)) (take_varint k bs))"

definition parse_varint :: "byte list \<Rightarrow> (u64 \<times> byte list) option" where
  "parse_varint bs = map_option (\<lambda>(n, r). (word_of_nat n, r)) (take_varint 10 bs)"

definition parse_block :: "byte list \<Rightarrow> (byte list \<times> byte list) option" where
  "parse_block bs =
     Option.bind (parse_varint bs) (\<lambda>(w, r).
       if sint w < 0 \<or> sint w > int (length r) then None
       else Some (take (nat (sint w)) r, drop (nat (sint w)) r))"

lemma take_varint_length: "take_varint k bs = Some (n, r) \<Longrightarrow> length r < length bs"
  by (induction k bs arbitrary: n rule: take_varint.induct) (auto split: if_splits)

lemma parse_varint_length: "parse_varint bs = Some (w, r) \<Longrightarrow> length r < length bs"
  by (auto simp: parse_varint_def dest: take_varint_length)

lemma parse_block_length: "parse_block bs = Some (p, r) \<Longrightarrow> length r < length bs"
  by (auto simp: parse_block_def bind_eq_Some_conv split: if_splits dest!: parse_varint_length)

section \<open>Skipped values\<close>

definition drop_bytes :: "nat \<Rightarrow> byte list \<Rightarrow> byte list option" where
  "drop_bytes n bs = (if n \<le> length bs then Some (drop n bs) else None)"

text \<open>One value of the given wire type inside \<open>depth\<close> open groups.\<close>

definition skip_one :: "int \<Rightarrow> byte list \<Rightarrow> nat \<Rightarrow> (byte list \<times> nat) option" where
  "skip_one wt bs depth =
     (if wt = 0 then map_option (\<lambda>(w, r). (r, depth)) (parse_varint bs)
      else if wt = 1 then map_option (\<lambda>r. (r, depth)) (drop_bytes 8 bs)
      else if wt = 2 then map_option (\<lambda>(p, r). (r, depth)) (parse_block bs)
      else if wt = 3 then Some (bs, depth + 1)
      else if wt = 4 then (if depth = 0 then None else Some (bs, depth - 1))
      else if wt = 5 then map_option (\<lambda>r. (r, depth)) (drop_bytes 4 bs)
      else None)"

lemma skip_one_length: "skip_one wt bs depth = Some (r, d) \<Longrightarrow> length r \<le> length bs"
  by (auto simp: skip_one_def drop_bytes_def split: if_splits
      dest!: parse_varint_length parse_block_length)

text \<open>A whole field, tag first; a group is skipped up to its matching end.\<close>

function skip_fields :: "nat \<Rightarrow> byte list \<Rightarrow> byte list option" where
  "skip_fields depth bs =
     Option.bind (parse_varint bs) (\<lambda>(wire, r1).
     Option.bind (skip_one (wire_type wire) r1 depth) (\<lambda>(r2, depth2).
       if depth2 = 0 then Some r2 else skip_fields depth2 r2))"
  by pat_completeness auto
termination
  by (relation "measure (\<lambda>(d, bs). length bs)")
     (auto dest!: parse_varint_length skip_one_length)

declare skip_fields.simps [simp del]

lemma skip_fields_length: "skip_fields depth bs = Some r \<Longrightarrow> length r < length bs"
proof (induction depth bs rule: skip_fields.induct)
  case (1 depth bs)
  from "1.prems" obtain wire r1 r2 d2 where
    p: "parse_varint bs = Some (wire, r1)" "skip_one (wire_type wire) r1 depth = Some (r2, d2)"
    and r: "(if d2 = 0 then Some r2 else skip_fields d2 r2) = Some r"
    by (subst (asm) skip_fields.simps) (auto simp: bind_eq_Some_conv)
  have "length r2 < length bs"
    using parse_varint_length [OF p(1)] skip_one_length [OF p(2)] by simp
  moreover have "d2 \<noteq> 0 \<Longrightarrow> length r < length r2"
    using "1.IH" [OF p(1) refl p(2) refl] r by simp
  ultimately show ?case using r by (cases "d2 = 0") auto
qed

section \<open>Messages\<close>

type_synonym 'm sfields = "int \<Rightarrow> ('m \<Rightarrow> byte list \<Rightarrow> 'm option) option"

definition decode_field :: "'m sfields \<Rightarrow> 'm \<Rightarrow> byte list \<Rightarrow> ('m \<times> byte list) option" where
  "decode_field flds m bs =
     Option.bind (parse_varint bs) (\<lambda>(wire, r1).
       if wire_type wire = 4 \<or> field_number wire \<le> 0 then None
       else case flds (field_number wire) of
         Some upd \<Rightarrow>
           (if wire_type wire \<noteq> 2 then None
            else Option.bind (parse_block r1) (\<lambda>(p, r2). map_option (\<lambda>m'. (m', r2)) (upd m p)))
       | None \<Rightarrow> map_option (\<lambda>r. (m, r)) (skip_fields 0 bs))"

lemma decode_field_length: "decode_field flds m bs = Some (m', r) \<Longrightarrow> length r < length bs"
  by (auto simp: decode_field_def bind_eq_Some_conv split: if_splits option.splits
      dest!: parse_varint_length parse_block_length skip_fields_length)

text \<open>A message is a sequence of fields, each updating the message read so far.\<close>

function decode :: "'m sfields \<Rightarrow> 'm \<Rightarrow> byte list \<Rightarrow> 'm option" where
  "decode flds m bs =
     (if bs = [] then Some m
      else Option.bind (decode_field flds m bs) (\<lambda>(m', r). decode flds m' r))"
  by pat_completeness auto
termination
  by (relation "measure (\<lambda>(f, m, bs). length bs)") (auto dest!: decode_field_length)

declare decode.simps [simp del]

lemma decode_Nil [simp]: "decode flds m [] = Some m"
  by (subst decode.simps) simp

lemma decode_nonempty:
  "bs \<noteq> [] \<Longrightarrow> decode flds m bs = Option.bind (decode_field flds m bs) (\<lambda>(m', r). decode flds m' r)"
  by (subst decode.simps) simp

section \<open>Bytes after a well-formed prefix do not change how it is read\<close>

named_theorems extend "reading a prefix of a longer byte string"

lemma take_varint_extend [extend]:
  "take_varint k bs = Some (n, r) \<Longrightarrow> take_varint k (bs @ ys) = Some (n, r @ ys)"
  by (induction k bs arbitrary: n rule: take_varint.induct) (auto split: if_splits)

lemma parse_varint_extend [extend]:
  "parse_varint bs = Some (w, r) \<Longrightarrow> parse_varint (bs @ ys) = Some (w, r @ ys)"
  by (auto simp: parse_varint_def take_varint_extend)

lemma parse_block_extend [extend]:
  "parse_block bs = Some (p, r) \<Longrightarrow> parse_block (bs @ ys) = Some (p, r @ ys)"
proof -
  assume "parse_block bs = Some (p, r)"
  then obtain w t where w: "parse_varint bs = Some (w, t)" "0 \<le> sint w" "sint w \<le> int (length t)"
    and "p = take (nat (sint w)) t" "r = drop (nat (sint w)) t"
    by (auto simp: parse_block_def bind_eq_Some_conv split: if_splits)
  then show ?thesis
    by (simp add: parse_block_def parse_varint_extend [OF w(1)] nat_le_iff)
qed

lemma drop_bytes_extend [extend]:
  "drop_bytes n bs = Some r \<Longrightarrow> drop_bytes n (bs @ ys) = Some (r @ ys)"
  by (auto simp: drop_bytes_def split: if_splits)

lemma skip_one_extend [extend]:
  "skip_one wt bs depth = Some (r, d) \<Longrightarrow> skip_one wt (bs @ ys) depth = Some (r @ ys, d)"
  by (auto simp: skip_one_def extend split: if_splits)

lemma skip_fields_extend [extend]:
  "skip_fields depth bs = Some r \<Longrightarrow> skip_fields depth (bs @ ys) = Some (r @ ys)"
proof (induction depth bs rule: skip_fields.induct)
  case (1 depth bs)
  from "1.prems" obtain wire r1 r2 d2 where
    p: "parse_varint bs = Some (wire, r1)" "skip_one (wire_type wire) r1 depth = Some (r2, d2)"
    and r: "(if d2 = 0 then Some r2 else skip_fields d2 r2) = Some r"
    by (subst (asm) skip_fields.simps) (auto simp: bind_eq_Some_conv)
  have "d2 \<noteq> 0 \<Longrightarrow> skip_fields d2 (r2 @ ys) = Some (r @ ys)"
    using "1.IH" [OF p(1) refl p(2) refl] r by simp
  then show ?case
    using parse_varint_extend [OF p(1), of ys] skip_one_extend [OF p(2), of ys] r
    by (subst skip_fields.simps) (auto split: if_splits)
qed

lemma decode_field_extend [extend]:
  "decode_field flds m bs = Some (m', r) \<Longrightarrow> decode_field flds m (bs @ ys) = Some (m', r @ ys)"
proof -
  assume a: "decode_field flds m bs = Some (m', r)"
  then obtain wire r1 where w: "parse_varint bs = Some (wire, r1)"
    by (auto simp: decode_field_def bind_eq_Some_conv)
  from a w show ?thesis
    by (cases "flds (field_number wire)")
       (auto simp: decode_field_def parse_varint_extend [OF w] extend bind_eq_Some_conv
         split: if_splits)
qed

lemma decode_field_nonempty: "decode_field flds m bs = Some x \<Longrightarrow> bs \<noteq> []"
  by (auto simp: decode_field_def bind_eq_Some_conv dest: parse_varint_length)

theorem decode_append:
  "decode flds m a = Some m1 \<Longrightarrow> decode flds m (a @ b) = decode flds m1 b"
proof (induction flds m a rule: decode.induct)
  case (1 flds m a)
  show ?case
  proof (cases "a = []")
    case True
    with "1.prems" show ?thesis by simp
  next
    case False
    with "1.prems" obtain m' r where
      f: "decode_field flds m a = Some (m', r)" and r: "decode flds m' r = Some m1"
      by (auto simp: decode_nonempty bind_eq_Some_conv)
    from "1.IH" [OF False f refl r] decode_field_extend [OF f, of b] False show ?thesis
      by (simp add: decode_nonempty)
  qed
qed

section \<open>Reading back what the encoding writes\<close>

lemma varint_ne [simp]: "varint n \<noteq> []"
  by (subst varint.simps) simp

lemma varint_small: "n < 128 \<Longrightarrow> varint n = [word_of_nat n]"
  by (subst varint.simps) simp

lemma varint_large:
  "\<not> n < 128 \<Longrightarrow> varint n = word_of_nat (n mod 128 + 128) # varint (n div 128)"
  by (subst varint.simps) simp

lemma take_varint_continue:
  assumes "unat b = m + 128" "take_varint k bs = Some (q, r)"
  shows "take_varint (Suc k) (b # bs) = Some (m + 128 * q, r)"
  using assms by simp

lemma take_varint_varint:
  "n < 128 ^ k \<Longrightarrow> 0 < k \<Longrightarrow> take_varint k (varint n @ ys) = Some (n, ys)"
proof (induction k arbitrary: n)
  case (Suc k)
  show ?case
  proof (cases "n < 128")
    case True
    then have "unat (word_of_nat n :: byte) = n" by (intro unat_byte) simp
    with True show ?thesis by (simp add: varint_small)
  next
    case False
    have "n div 128 < 128 ^ k"
      using Suc.prems(1) by (simp add: div_less_iff_less_mult mult.commute)
    moreover have "0 < k"
      using False Suc.prems(1) by (cases k) auto
    ultimately have "take_varint k (varint (n div 128) @ ys) = Some (n div 128, ys)"
      by (rule Suc.IH)
    moreover have "unat (word_of_nat (n mod 128 + 128) :: byte) = n mod 128 + 128"
      using mod_less_divisor [of 128 n] by (intro unat_byte) linarith
    ultimately have "take_varint (Suc k)
        (word_of_nat (n mod 128 + 128) # varint (n div 128) @ ys) = Some (n mod 128 + 128 * (n div 128), ys)"
      by (intro take_varint_continue)
    moreover have "n mod 128 + 128 * (n div 128) = n" by simp
    ultimately show ?thesis
      by (simp only: varint_large [OF False] append_Cons)
  qed
qed simp

lemma parse_varint_varint [simp]: "parse_varint (varint (unat w) @ ys) = Some (w, ys)"
proof -
  have "unat w < 2 ^ 64" using unsigned_less [of w] by simp
  then have "unat w < 128 ^ 10" by simp
  then show ?thesis by (simp add: parse_varint_def take_varint_varint)
qed

lemma parse_varint_nat:
  "n < 2 ^ 64 \<Longrightarrow> parse_varint (varint n @ ys) = Some (word_of_nat n, ys)"
proof -
  assume "n < 2 ^ 64"
  then have "n < 128 ^ 10" by simp
  then show ?thesis by (simp add: parse_varint_def take_varint_varint)
qed

lemma parse_block_varint:
  assumes "fits p"
  shows "parse_block (varint (length p) @ p @ ys) = Some (p, ys)"
proof -
  let ?w = "word_of_nat (length p) :: u64"
  have l: "length p < 2 ^ 63" using assms by (simp add: fits_def)
  then have v: "parse_varint (varint (length p) @ p @ ys) = Some (?w, p @ ys)"
    by (intro parse_varint_nat) simp
  have s: "sint ?w = int (length p)"
    using l by (rule sint_u64)
  show ?thesis
    unfolding parse_block_def v bind.bind_lunit prod.case s by simp
qed

end
