(* ===== verification/WireCorrect.thy ===== *)
theory WireCorrect
  imports WireSpec
begin

text \<open>
  The routines of Wire against the grammar of WireSpec. \<open>refines R P m s\<close> relates a result
  \<open>m\<close> of the code to a value \<open>s\<close> of the grammar: if the grammar has a value, the code returns
  one related by \<open>R\<close>; if it has none, the code returns an error that is neither a panic nor
  exhausted fuel, or a value that satisfies \<open>P\<close> (an index past the end of the slice, which
  the caller rejects).
\<close>

section \<open>Refinement of results\<close>

definition graceful :: "perr \<Rightarrow> bool" where
  "graceful e \<longleftrightarrow> e \<noteq> GoPanic \<and> e \<noteq> OutOfFuel"

definition refines ::
  "('a \<Rightarrow> 'b \<Rightarrow> bool) \<Rightarrow> ('a \<Rightarrow> bool) \<Rightarrow> perr + 'a \<Rightarrow> 'b option \<Rightarrow> bool" where
  "refines R P m s =
     (case s of
        Some y \<Rightarrow> (\<exists>x. m = Inr x \<and> R x y)
      | None \<Rightarrow> (\<exists>e. m = Inl e \<and> graceful e) \<or> (\<exists>x. m = Inr x \<and> P x))"

lemma graceful_simps [simp]:
  "graceful (ErrIntOverflow f)" "graceful (ErrInvalidLength f)"
  "graceful (ErrUnexpectedEndOfGroup f)" "graceful ErrUnexpectedEOF"
  "graceful (EndGroupForNonGroup m)" "graceful (IllegalTag m n w)"
  "graceful (WrongWireType t x)" "graceful (IllegalWireType t)"
  "\<not> graceful GoPanic" "\<not> graceful OutOfFuel"
  by (simp_all add: graceful_def)

lemma refines_Some [simp]: "refines R P m (Some y) \<longleftrightarrow> (\<exists>x. m = Inr x \<and> R x y)"
  by (simp add: refines_def)

lemma refines_Inr [simp]:
  "refines R P (Inr x) s \<longleftrightarrow> (case s of Some y \<Rightarrow> R x y | None \<Rightarrow> P x)"
  by (simp add: refines_def split: option.splits)

lemma refines_error [simp]: "refines R P (Inl e) None \<longleftrightarrow> graceful e"
  by (simp add: refines_def)

lemma refines_bind:
  assumes "refines R P m s"
    and "\<And>x y. R x y \<Longrightarrow> s = Some y \<Longrightarrow> refines Q P' (k x) (h y)"
    and "\<And>x. P x \<Longrightarrow> refines Q P' (k x) None"
  shows "refines Q P' (bindE m k) (Option.bind s h)"
proof (cases s)
  case None
  with assms(1) consider e where "m = Inl e" "graceful e" | x where "m = Inr x" "P x"
    by (auto simp: refines_def)
  then show ?thesis using None assms(3) by cases simp_all
next
  case (Some y)
  with assms(1) obtain x where "m = Inr x" "R x y" by auto
  with Some assms(2) show ?thesis by simp
qed

lemma refines_bind_strict:
  assumes "refines R (\<lambda>_. False) m s"
    and "\<And>x y. R x y \<Longrightarrow> s = Some y \<Longrightarrow> refines Q P (k x) (h y)"
  shows "refines Q P (bindE m k) (Option.bind s h)"
  using assms by (rule refines_bind) simp_all

lemma refines_not_crashed:
  assumes "refines R P m s" shows "\<not> crashed m"
  using assms by (cases s) (auto simp: refines_def crashed_def graceful_def)

section \<open>Bits\<close>

lemma and_127: "(w :: 'a :: len word) AND 0x7F = take_bit 7 w"
  by (simp add: take_bit_eq_mask mask_eq_exp_minus_1)

lemma take_bit_bit_less: "take_bit s acc = acc \<Longrightarrow> bit acc n \<Longrightarrow> n < s"
  by (metis bit_take_bit_iff)

lemma or_push_bit:
  assumes "take_bit s acc = (acc :: u64)"
  shows "acc OR push_bit s x = acc + push_bit s x"
proof -
  have "acc AND push_bit s x = 0"
    by (rule bit_eqI) (use take_bit_bit_less [OF assms] in \<open>fastforce simp: bit_simps\<close>)
  then show ?thesis by (simp add: disjunctive_add_eq_or)
qed

lemma take_bit_or_push_bit:
  assumes "take_bit s acc = (acc :: u64)"
  shows "take_bit (s + 7) (acc OR push_bit s (ucast (take_bit 7 (b :: byte))))
      = acc OR push_bit s (ucast (take_bit 7 b))"
  by (rule bit_eqI) (use take_bit_bit_less [OF assms] in \<open>fastforce simp: bit_simps\<close>)

lemma word_of_unat: "word_of_nat (unat (b :: byte)) = (ucast b :: u64)"
  by transfer simp

lemma ucast_low_bits: "(ucast (take_bit 7 (b :: byte)) :: u64) = word_of_nat (unat b mod 128)"
proof -
  have "unat (take_bit 7 b) = unat b mod 128"
    by (simp only: unsigned_take_bit_eq) (simp add: take_bit_eq_mod)
  then show ?thesis by (simp only: word_of_unat [symmetric])
qed

section \<open>Reading\<close>

text \<open>The index \<open>i\<close> points at the rest \<open>r\<close> of the slice \<open>d\<close>.\<close>

definition at :: "byte list \<Rightarrow> int \<Rightarrow> byte list \<Rightarrow> bool" where
  "at d i r \<longleftrightarrow> (\<exists>n \<le> length d. i = int n \<and> r = drop n d)"

named_theorems at_rules "moving an index through a slice"

lemma at_start [at_rules]: "at d 0 d"
  by (auto simp: at_def)

lemma at_range:
  assumes "at d i r" "fits d"
  shows "0 \<le> i" "i < 2 ^ 63" "i \<le> int (length d)" "int (length r) = int (length d) - i"
  using assms by (auto simp: at_def fits_def)

lemma at_Nil: "at d i [] \<Longrightarrow> i = int (length d)"
  by (auto simp: at_def)

lemma at_Cons:
  assumes "at d i (b # bs)" "fits d"
  shows "i < int (length d)" "read_at p d i = Inr b" "goint (i + 1) = i + 1" "at d (i + 1) bs"
proof -
  obtain n where n: "n \<le> length d" "i = int n" "b # bs = drop n d"
    using assms(1) by (auto simp: at_def)
  then have l: "n < length d"
    by (metis drop_all leI list.discI)
  with n have "b = d ! n" "bs = drop (Suc n) d"
    by (metis Cons_nth_drop_Suc list.inject)+
  with n l assms(2) show "i < int (length d)" "read_at p d i = Inr b" "goint (i + 1) = i + 1"
      "at d (i + 1) bs"
    by (auto simp: read_at_nth fits_def at_def intro!: exI [of _ "Suc n"])
qed

lemma at_less_iff: "at d i r \<Longrightarrow> i < int (length d) \<longleftrightarrow> r \<noteq> []"
  by (auto simp: at_def)

text \<open>Adding a length to an index: either the sum wraps, or it is past the end, or it is in the slice.\<close>

lemma at_advance:
  assumes "at d i r" "fits d" "0 \<le> n" "n < 2 ^ 63"
  shows "n \<le> int (length r) \<Longrightarrow> goint (i + n) = i + n \<and> at d (i + n) (drop (nat n) r)"
    and "n > int (length r) \<Longrightarrow> goint (i + n) < 0 \<or> goint (i + n) > int (length d)"
proof -
  note r = at_range [OF assms(1,2)]
  { assume n: "n \<le> int (length r)"
    have "int (length d) < 2 ^ 63" using assms(2) by (simp add: fits_def)
    with r n assms(3) have g: "goint (i + n) = i + n" by (intro goint_id) linarith+
    obtain k where k: "k \<le> length d" "i = int k" "r = drop k d"
      using assms(1) by (auto simp: at_def)
    obtain m where m: "n = int m" using assms(3) nonneg_int_cases by blast
    have "i + n = int (k + m)" "k + m \<le> length d" "drop (nat n) r = drop (k + m) d"
      using k n m by (auto simp: add.commute)
    then have "at d (i + n) (drop (nat n) r)" unfolding at_def by blast
    with g show "goint (i + n) = i + n \<and> at d (i + n) (drop (nat n) r)" by simp }
  { assume "n > int (length r)"
    then show "goint (i + n) < 0 \<or> goint (i + n) > int (length d)"
      using goint_sum_cases [of i n] r assms by linarith }
qed

lemma less_0x80: "b < 0x80 \<longleftrightarrow> unat (b :: byte) < 128"
  by (simp add: word_less_nat_alt)

lemma read_varint_refines_acc:
  assumes "fits d"
  shows "k \<le> 10 \<Longrightarrow> take_bit (70 - 7 * k) acc = acc \<Longrightarrow> at d i bs \<Longrightarrow>
    refines (\<lambda>(v, j) (n, r). v = acc + word_of_nat (n * 2 ^ (70 - 7 * k)) \<and> at d j r) (\<lambda>_. False)
      (read_varint f d (70 - 7 * k) i acc) (take_varint k bs)"
proof (induction k arbitrary: bs acc i)
  case 0
  then show ?case by (subst read_varint.simps) simp
next
  case (Suc k)
  let ?sh = "70 - 7 * Suc k"
  have sh: "?sh < 64" "?sh + 7 = 70 - 7 * k" using Suc.prems(1) by auto
  show ?case
  proof (cases bs)
    case Nil
    with Suc.prems(3) have "i = int (length d)" by (simp add: at_Nil)
    with Nil sh(1) show ?thesis by (subst read_varint.simps) simp
  next
    case (Cons b bs')
    note step = at_Cons [OF Suc.prems(3) [unfolded Cons] assms]
    let ?acc = "acc OR push_bit ?sh (ucast (b AND 0x7F))"
    have acc: "?acc = acc + word_of_nat (unat b mod 128 * 2 ^ ?sh)"
      unfolding and_127 or_push_bit [OF Suc.prems(2)] ucast_low_bits
      by (simp add: push_bit_eq_mult)
    have unfold: "read_varint f d ?sh i acc =
        (if unat b < 128 then Inr (?acc, i + 1)
         else read_varint f d (?sh + 7) (i + 1) ?acc)"
      using step(1) sh(1)
      by (subst read_varint.simps) (simp add: Let_def less_0x80 step(2,3) del: mult_Suc_right)
    show ?thesis
    proof (cases "unat b < 128")
      case True
      with Cons step(4) show ?thesis unfolding unfold acc by simp
    next
      case False
      have "take_bit (70 - 7 * k) ?acc = ?acc"
        unfolding sh(2) [symmetric] and_127 by (rule take_bit_or_push_bit [OF Suc.prems(2)])
      then have IH: "refines (\<lambda>(v, j) (n, r). v = ?acc + word_of_nat (n * 2 ^ (70 - 7 * k)) \<and> at d j r)
          (\<lambda>_. False) (read_varint f d (70 - 7 * k) (i + 1) ?acc) (take_varint k bs')"
        using Suc.prems(1) step(4) by (intro Suc.IH) simp_all
      have "unat b < 256" using unsigned_less [of b] by simp
      with False have m: "unat b mod 128 = unat b - 128" by (simp add: mod_if)
      have p: "(2::nat) ^ (70 - 7 * k) = 128 * 2 ^ ?sh"
        unfolding sh(2) [symmetric] by (simp add: power_add)
      have v: "?acc + word_of_nat (n * 2 ^ (70 - 7 * k))
          = acc + word_of_nat ((unat b - 128 + 128 * n) * 2 ^ ?sh)" for n
        unfolding acc m p by (simp only: add.assoc flip: of_nat_add) (simp add: algebra_simps)
      from IH [unfolded v] False Cons show ?thesis
        unfolding unfold sh(2)
        by (cases "take_varint k bs'") (auto simp: refines_def)
    qed
  qed
qed

lemma read_varint_refines:
  assumes "fits d" "at d i bs"
  shows "refines (\<lambda>(v, j) (w, r). v = w \<and> at d j r) (\<lambda>_. False)
    (read_varint f d 0 i 0) (parse_varint bs)"
  using read_varint_refines_acc [OF assms(1), of 10 0 i bs f] assms(2)
  by (cases "take_varint 10 bs") (auto simp: parse_varint_def refines_def)

section \<open>Skipping\<close>

text \<open>The loop of wire type 0 walks over the same bytes as the one that reads a varint.\<close>

lemma skip_varint_read:
  "fits d \<Longrightarrow> 0 \<le> i \<Longrightarrow> skip_varint f d sh i = bindE (read_varint f d sh i acc) (\<lambda>(v, j). Inr j)"
proof (induction f d sh i arbitrary: acc rule: skip_varint.induct)
  case (1 f d sh i)
  show ?case
  proof (cases "sh \<ge> 64 \<or> i \<ge> int (length d)")
    case True
    then show ?thesis by (subst skip_varint.simps, subst read_varint.simps) auto
  next
    case False
    with "1.prems" have g: "goint (i + 1) = i + 1" by (intro goint_Suc [of i d]) auto
    have r: "read_at GoPanic d i = Inr (d ! nat i)" using False "1.prems" by (simp add: read_at_def)
    show ?thesis
      using False "1.IH" [of "d ! nat i"] "1.prems"
      by (subst skip_varint.simps, subst read_varint.simps) (simp add: g r Let_def)
  qed
qed

lemma skip_varint_refines:
  assumes "fits d" "at d i bs"
  shows "refines (at d) (\<lambda>_. False) (skip_varint f d 0 i)
    (map_option (\<lambda>(w, r). r) (parse_varint bs))"
proof -
  have "refines (at d) (\<lambda>_. False)
      (bindE (read_varint f d 0 i 0) (\<lambda>(v, j). Inr j)) (Option.bind (parse_varint bs) (\<lambda>(w, r). Some r))"
    by (rule refines_bind_strict [OF read_varint_refines [OF assms]]) auto
  then show ?thesis
    using skip_varint_read [OF assms(1), of i f 0 0] at_range [OF assms(2,1)]
    by (simp add: map_conv_bind_option case_prod_beta' comp_def)
qed

definition beyond :: "byte list \<Rightarrow> int \<Rightarrow> bool" where
  "beyond d j \<longleftrightarrow> int (length d) < j \<and> j < 2 ^ 63"

definition past :: "byte list \<Rightarrow> int \<Rightarrow> bool" where
  "past d j \<longleftrightarrow> j < 0 \<or> beyond d j"

lemma past_goint: "goint x < 0 \<or> int (length d) < goint x \<Longrightarrow> past d (goint x)"
  using goint_range [of x] by (auto simp: past_def beyond_def)

lemma drop_bytes_refines:
  assumes "fits d" "at d i bs" "n < 2 ^ 63"
  shows "refines (at d) (past d) (Inr (goint (i + int n))) (drop_bytes n bs)"
  using at_advance [OF assms(2,1), of "int n"] assms(3)
  by (auto simp: drop_bytes_def intro!: past_goint)

lemma skip_value_refines:
  assumes "fits d" "at d i bs"
  shows "refines (\<lambda>(j, dp) (r, dp'). dp = dp' \<and> at d j r) (\<lambda>(j, dp). past d j)
    (skip_value f d wt i depth) (skip_one wt bs depth)"
proof -
  let ?R = "\<lambda>(j, dp) (r, dp'). dp = (dp' :: nat) \<and> at d j r" and ?P = "\<lambda>(j, dp). past d j"
  have w0: "refines ?R ?P (bindE (skip_varint f d 0 i) (\<lambda>i. Inr (i, depth)))
      (Option.bind (map_option (\<lambda>(w, r). r) (parse_varint bs)) (\<lambda>r. Some (r, depth)))"
    by (rule refines_bind_strict [OF skip_varint_refines [OF assms]]) simp
  have w2: "refines ?R ?P
      (bindE (read_varint f d 0 i 0) (\<lambda>(w, i).
          let len = sint w in
          if len < 0 then Inl (ErrInvalidLength f) else Inr (goint (i + len), depth)))
      (Option.bind (parse_varint bs) (\<lambda>(w, r).
          if sint w < 0 \<or> sint w > int (length r) then None
          else Some (drop (nat (sint w)) r, depth)))"
    apply (rule refines_bind_strict [OF read_varint_refines [OF assms]])
    subgoal for x y
      using at_advance [OF _ assms(1), of "snd x" "snd y" "sint (fst y)"] sint_u64_range [of "fst y"]
      by (cases x; cases y) (auto simp: Let_def intro!: past_goint)
    done
  have b: "map_option (\<lambda>(p, r). (r, depth)) (parse_block bs) =
      Option.bind (parse_varint bs) (\<lambda>(w, r).
          if sint w < 0 \<or> sint w > int (length r) then None
          else Some (drop (nat (sint w)) r, depth))"
    by (cases "parse_varint bs") (auto simp: parse_block_def)
  have v: "map_option (\<lambda>(w, r). (r, depth)) (parse_varint bs) =
      Option.bind (map_option (\<lambda>(w, r). r) (parse_varint bs)) (\<lambda>r. Some (r, depth))"
    by (cases "parse_varint bs") auto
  have fixed: "refines ?R ?P (Inr (goint (i + int n), depth))
      (map_option (\<lambda>r. (r, depth)) (drop_bytes n bs))" if "n < 2 ^ 63" for n
    using drop_bytes_refines [OF assms that] by (cases "drop_bytes n bs") auto
  show ?thesis
    using w0 w2 assms(2) fixed [of 8] fixed [of 4]
    by (auto simp: skip_value_def skip_one_def b v)
qed

lemma skip_loop_refines:
  assumes "fits d"
  shows "at d i bs \<Longrightarrow> length bs < fuel \<Longrightarrow>
    refines (at d) (beyond d) (skip_loop fuel f d i depth) (skip_fields depth bs)"
proof (induction fuel arbitrary: i bs depth)
  case (Suc fuel)
  let ?P = "beyond d"
  show ?case
  proof (cases "bs = []")
    case True
    with at_Nil Suc.prems(1) have "i = int (length d)" by blast
    with True show ?thesis by (subst skip_fields.simps) (simp add: parse_varint_def numeral_eq_Suc)
  next
    case False
    with Suc.prems(2) obtain n where n: "fuel = Suc n" by (cases fuel) auto
    have "refines (at d) ?P
      (bindE (read_varint f d 0 i 0) (\<lambda>(wire, i1).
        bindE (skip_value f d (wire_type wire) i1 depth) (\<lambda>(i2, depth2).
          if i2 < 0 then Inl (ErrInvalidLength f)
          else if depth2 = 0 then Inr i2
          else skip_loop fuel f d i2 depth2)))
      (skip_fields depth bs)"
      unfolding skip_fields.simps [of depth bs]
    proof (rule refines_bind_strict [OF read_varint_refines [OF assms Suc.prems(1)]], clarify)
      fix wire i1 r1
      assume a1: "at d i1 r1" and p: "parse_varint bs = Some (wire, r1)"
      show "refines (at d) ?P
        (bindE (skip_value f d (wire_type wire) i1 depth) (\<lambda>(i2, depth2).
          if i2 < 0 then Inl (ErrInvalidLength f)
          else if depth2 = 0 then Inr i2
          else skip_loop fuel f d i2 depth2))
        (Option.bind (skip_one (wire_type wire) r1 depth) (\<lambda>(r2, depth2).
          if depth2 = 0 then Some r2 else skip_fields depth2 r2))"
      proof (rule refines_bind [OF skip_value_refines [OF assms a1]], clarify)
        fix i2 r2 d2
        assume a2: "at d i2 r2" and s: "skip_one (wire_type wire) r1 depth = Some (r2, d2)"
        have "length r2 < fuel"
          using parse_varint_length [OF p] skip_one_length [OF s] Suc.prems(2) by simp
        from Suc.IH [OF a2 this] a2 at_range [OF a2 assms]
        show "refines (at d) ?P
          (if i2 < 0 then Inl (ErrInvalidLength f)
           else if d2 = 0 then Inr i2 else skip_loop fuel f d i2 d2)
          (if d2 = 0 then Some r2 else skip_fields d2 r2)"
          by simp
      next
        fix x :: "int \<times> nat"
        assume "case x of (j, dp) \<Rightarrow> past d j"
        then show "refines (at d) ?P
          (case x of (i2, depth2) \<Rightarrow>
             if i2 < 0 then Inl (ErrInvalidLength f)
             else if depth2 = 0 then Inr i2 else skip_loop fuel f d i2 depth2) None"
          by (auto simp: past_def beyond_def n)
      qed
    qed
    moreover have "i < int (length d)" using at_less_iff [OF Suc.prems(1)] False by simp
    ultimately show ?thesis by simp
  qed
qed simp

lemma skip_field_refines:
  assumes "fits d"
  shows "refines (at d) (beyond d) (skip_field f d) (skip_fields 0 d)"
  unfolding skip_field_def by (rule skip_loop_refines [OF assms at_start]) simp

section \<open>Messages\<close>

lemma skip_unknown_refines:
  assumes "fits d" "at d i bs"
  shows "refines (at d) (\<lambda>_. False) (skip_unknown f d i) (skip_fields 0 bs)"
proof -
  have sl: "subslice GoPanic d i (int (length d)) = Inr bs"
    using assms(2) by (auto simp: at_def slice_to_end)
  have fb: "fits bs" using assms by (auto simp: at_def fits_takedrop)
  have "refines (at d) (\<lambda>_. False)
    (bindE (skip_field f bs) (\<lambda>skippy.
       if skippy < 0 \<or> goint (i + skippy) < 0 then Inl (ErrInvalidLength f)
       else if goint (i + skippy) > int (length d) then Inl ErrUnexpectedEOF
       else Inr (goint (i + skippy))))
    (Option.bind (skip_fields 0 bs) Some)"
  proof (rule refines_bind [OF skip_field_refines [OF fb]])
    fix j r
    assume "at bs j r" "skip_fields 0 bs = Some r"
    then show "refines (at d) (\<lambda>_. False)
       (if j < 0 \<or> goint (i + j) < 0 then Inl (ErrInvalidLength f)
        else if goint (i + j) > int (length d) then Inl ErrUnexpectedEOF
        else Inr (goint (i + j))) (Some r)"
      using at_advance(1) [OF assms(2,1), of j] at_range [OF _ fb, of j r]
        at_range [OF _ assms(1), of "i + j" r] at_range [OF assms(2,1)]
      by (auto simp: at_def)
  next
    fix j
    assume "beyond bs j"
    then show "refines (at d) (\<lambda>_. False)
       (if j < 0 \<or> goint (i + j) < 0 then Inl (ErrInvalidLength f)
        else if goint (i + j) > int (length d) then Inl ErrUnexpectedEOF
        else Inr (goint (i + j))) None"
      using at_advance(2) [OF assms(2,1), of j] by (auto simp: beyond_def)
  qed
  then show ?thesis by (simp add: skip_unknown_def sl)
qed

lemma field_bounds_refines:
  assumes "fits d" "at d i bs"
  shows "refines (\<lambda>(j, k) (p, r). subslice GoPanic d j k = Inr p \<and> fits p \<and> at d k r) (\<lambda>_. False)
    (field_bounds f d i) (parse_block bs)"
  unfolding field_bounds_def parse_block_def
proof (rule refines_bind_strict [OF read_varint_refines [OF assms]], clarify)
  fix w j r
  assume a: "at d j r" and "parse_varint bs = Some (w, r)"
  note adv = at_advance [OF a assms(1), of "sint w"] and rng = sint_u64_range [of w]
  show "refines (\<lambda>(j, k) (p, r). subslice GoPanic d j k = Inr p \<and> fits p \<and> at d k r) (\<lambda>_. False)
    (let len = sint w in
     if len < 0 then Inl (ErrInvalidLength f)
     else let postIndex = goint (j + len) in
       if postIndex < 0 then Inl (ErrInvalidLength f)
       else if postIndex > int (length d) then Inl ErrUnexpectedEOF
       else Inr (j, postIndex))
    (if sint w < 0 \<or> sint w > int (length r) then None
     else Some (take (nat (sint w)) r, drop (nat (sint w)) r))"
  proof (cases "0 \<le> sint w \<and> sint w \<le> int (length r)")
    case True
    with adv(1) rng(2) have k: "goint (j + sint w) = j + sint w"
        "at d (j + sint w) (drop (nat (sint w)) r)" by auto
    obtain n where n: "j = int n" "n \<le> length d" "r = drop n d" using a by (auto simp: at_def)
    have "fits (take (nat (sint w)) r)" using assms(1) n by (simp add: fits_takedrop)
    moreover have "subslice GoPanic d j (j + sint w) = Inr (take (nat (sint w)) r)"
      using True n by (auto simp: subslice_def)
    ultimately show ?thesis using True k at_range [OF k(2) assms(1)] by (simp add: Let_def)
  next
    case False
    with adv(2) rng(2) show ?thesis by (auto simp: Let_def)
  qed
qed

text \<open>
  The contract between a message's \<^verbatim>\<open>switch\<close> and its fields in the grammar: the same fields
  are declared and each update of the code implements the one of the grammar.
\<close>

locale message_fields =
  fixes flds :: "'m fields" and sflds :: "'m sfields"
  assumes undeclared: "flds n = None \<longleftrightarrow> sflds n = None"
    and field_update: "flds n = Some fld \<Longrightarrow> sflds n = Some upd \<Longrightarrow> fits p \<Longrightarrow>
      refines (=) (\<lambda>_. False) (snd fld m p) (upd m p)"
begin

lemma unmarshal_step_refines:
  assumes "fits d" "at d i bs"
  shows "refines (\<lambda>(m', j) (m'', r). m' = m'' \<and> at d j r) (\<lambda>_. False)
    (unmarshal_step f name flds d m i) (decode_field sflds m bs)"
  unfolding unmarshal_step_def decode_field_def Let_def
proof (rule refines_bind_strict [OF read_varint_refines [OF assms]], clarify)
  let ?R = "\<lambda>(m', j) (m'', r). m' = (m'' :: 'm) \<and> at d j r"
  fix wire j r1
  assume a: "at d j r1" and "parse_varint bs = Some (wire, r1)"
  let ?n = "field_number wire"
  have skip: "refines ?R (\<lambda>_. False) (bindE (skip_unknown f d i) (\<lambda>i. Inr (m, i)))
      (Option.bind (skip_fields 0 bs) (\<lambda>r. Some (m, r)))"
    by (rule refines_bind_strict [OF skip_unknown_refines [OF assms]]) simp
  have read: "refines ?R (\<lambda>_. False) (read_field f fld 2 d m j)
      (Option.bind (parse_block r1) (\<lambda>(p, r2). Option.bind (upd m p) (\<lambda>m'. Some (m', r2))))"
    if "flds ?n = Some fld" "sflds ?n = Some upd" for fld upd
    unfolding read_field_def
    by (auto intro!: refines_bind_strict [OF field_bounds_refines [OF assms(1) a]]
        refines_bind_strict [OF field_update [OF that]])
  show "refines ?R (\<lambda>_. False)
      (if wire_type wire = 4 then Inl (EndGroupForNonGroup name)
       else if ?n \<le> 0 then Inl (IllegalTag name ?n wire)
       else case flds ?n of
          Some fld \<Rightarrow> read_field f fld (wire_type wire) d m j
        | None \<Rightarrow> bindE (skip_unknown f d i) (\<lambda>i. Inr (m, i)))
      (if wire_type wire = 4 \<or> ?n \<le> 0 then None
       else case sflds ?n of
         Some upd \<Rightarrow>
           (if wire_type wire \<noteq> 2 then None
            else Option.bind (parse_block r1) (\<lambda>(p, r2). map_option (\<lambda>m'. (m', r2)) (upd m p)))
       | None \<Rightarrow> map_option (\<lambda>r. (m, r)) (skip_fields 0 bs))"
    using skip read undeclared [of ?n]
    by (auto simp: map_conv_bind_option comp_def read_field_def split: option.splits)
qed

lemma unmarshal_loop_refines:
  assumes "fits d"
  shows "at d i bs \<Longrightarrow> length bs < fuel \<Longrightarrow>
    refines (=) (\<lambda>_. False) (unmarshal_loop fuel f name flds d m i) (decode sflds m bs)"
proof (induction fuel arbitrary: i bs m)
  case (Suc fuel)
  show ?case
  proof (cases "bs = []")
    case True
    with at_Nil Suc.prems(1) have "i = int (length d)" by blast
    with True show ?thesis by simp
  next
    case False
    then have "i < int (length d)" using at_less_iff [OF Suc.prems(1)] by simp
    moreover have "refines (=) (\<lambda>_. False)
        (bindE (unmarshal_step f name flds d m i)
          (\<lambda>(m', j). unmarshal_loop fuel f name flds d m' j)) (decode sflds m bs)"
      unfolding decode_nonempty [OF False]
    proof (rule refines_bind_strict [OF unmarshal_step_refines [OF assms Suc.prems(1)]], clarify)
      fix m' j r
      assume a: "at d j r" and s: "decode_field sflds m bs = Some (m', r)"
      show "refines (=) (\<lambda>_. False) (unmarshal_loop fuel f name flds d m' j) (decode sflds m' r)"
        using decode_field_length [OF s] Suc.prems(2) by (intro Suc.IH [OF a]) simp
    qed
    ultimately show ?thesis by simp
  qed
qed simp

theorem unmarshal_refines:
  "fits d \<Longrightarrow> refines (=) (\<lambda>_. False) (unmarshal f name flds m d) (decode sflds m d)"
  unfolding unmarshal_def by (rule unmarshal_loop_refines [OF _ at_start]) simp_all

lemma unmarshal_Inr_iff:
  "fits d \<Longrightarrow> unmarshal f name flds m d = Inr m' \<longleftrightarrow> decode sflds m d = Some m'"
  using unmarshal_refines [of d f name m] by (cases "decode sflds m d") (auto simp: refines_def)

lemma unmarshal_not_crashed: "fits d \<Longrightarrow> \<not> crashed (unmarshal f name flds m d)"
  by (rule refines_not_crashed [OF unmarshal_refines])

lemma unmarshal_append:
  assumes "fits (a @ b)" "unmarshal f name flds m a = Inr m1"
  shows "unmarshal f name flds m (a @ b) = Inr m2 \<longleftrightarrow> unmarshal f name flds m1 b = Inr m2"
proof -
  have "fits a" "fits b" using fits_append [OF assms(1)] by auto
  with assms show ?thesis by (simp add: unmarshal_Inr_iff decode_append)
qed

end

section \<open>Writing\<close>

lemma bitlen_nat_0 [simp]: "bitlen_nat 0 = 0"
  by (subst bitlen_nat.simps) simp

lemma bitlen_nat_pos: "0 < n \<Longrightarrow> bitlen_nat n = Suc (bitlen_nat (n div 2))"
  by (subst bitlen_nat.simps) simp

lemma bitlen_nat_less: "n < 2 ^ k \<Longrightarrow> bitlen_nat n \<le> k"
proof (induction k arbitrary: n)
  case (Suc k)
  then show ?case by (cases "n = 0") (simp_all add: bitlen_nat_pos less_mult_imp_div_less)
qed simp

lemma bitlen_nat_ge: "2 ^ k \<le> n \<Longrightarrow> bitlen_nat n = Suc k + bitlen_nat (n div 2 ^ Suc k)"
proof (induction k)
  case 0
  then show ?case by (simp add: bitlen_nat_pos)
next
  case (Suc k)
  then have "0 < n div 2 ^ Suc k" by (simp add: div_greater_zero_iff)
  then have "bitlen_nat (n div 2 ^ Suc k) = Suc (bitlen_nat (n div 2 ^ Suc k div 2))"
    by (rule bitlen_nat_pos)
  also have "n div 2 ^ Suc k div 2 = n div 2 ^ Suc (Suc k)"
    by (simp only: div_mult2_eq [symmetric]) (simp add: mult.commute)
  finally show ?case using Suc by (simp add: div_mult2_eq)
qed

lemma varint_length: "length (varint n) = (Suc (bitlen_nat (n div 2)) + 6) div 7"
proof (induction n rule: varint.induct)
  case (1 n)
  show ?case
  proof (cases "n < 128")
    case True
    then have "bitlen_nat (n div 2) \<le> 6" by (intro bitlen_nat_less) simp
    then show ?thesis using True by (simp add: varint_small)
  next
    case False
    then have "bitlen_nat (n div 2) = 7 + bitlen_nat (n div 128 div 2)"
      using bitlen_nat_ge [of 6 "n div 2"] by (simp add: div_mult2_eq [symmetric])
    moreover have "(14 + x) div 7 = Suc ((7 + x) div 7)" for x :: nat
      using div_add_self1 [of 7 "7 + x"] by simp
    ultimately show ?thesis using False "1.IH" by (simp add: varint_large)
  qed
qed

lemma unat_or_1: "unat (v OR 1 :: u64) = 2 * (unat v div 2) + 1"
proof -
  have "unat (v OR 1) = unat v OR 1" by (simp add: unsigned_or_eq)
  also have "\<dots> = 2 * (unat v div 2) + 1" by (cases "even (unat v)") (auto simp: or_Suc_0_eq elim!: evenE oddE)
  finally show ?thesis .
qed

text \<open>\<^verbatim>\<open>sovX\<close> computes the length of the canonical encoding without a loop.\<close>

theorem sov_length: "sov v = length (varint (unat v))"
  by (simp add: sov_def Len64_def unat_or_1 bitlen_nat_pos varint_length)

lemma sov_range: "1 \<le> sov v" "sov v \<le> 10"
proof -
  have "unat v < 2 ^ 64" using unsigned_less [of v] by simp
  then have "bitlen_nat (unat v div 2) \<le> 63"
    by (intro bitlen_nat_less) (simp add: less_mult_imp_div_less)
  then show "1 \<le> sov v" "sov v \<le> 10" by (simp_all add: sov_length varint_length)
qed

lemma nat_or_128: "m < 128 \<Longrightarrow> (m :: nat) OR 128 = m + 128"
proof -
  assume "m < 128"
  then have "\<not> bit m 7" by (simp add: bit_iff_odd)
  then show ?thesis
    using set_bit_eq_or [of 7 m] set_bit_eq [of 7 m] by (simp add: push_bit_eq_mult)
qed

lemma ucast_byte: "(ucast (v :: u64) :: byte) = word_of_nat (unat v)"
  by transfer simp

lemma ucast_continue:
  "(ucast (v AND 0x7f OR 0x80 :: u64) :: byte) = word_of_nat (unat v mod 128 + 128)"
proof -
  have "unat (v AND 0x7f OR 0x80) = (unat (take_bit 7 v)) OR 128"
    by (simp only: and_127 unsigned_or_eq) simp
  also have "unat (take_bit 7 v) = unat v mod 128"
    by (simp only: unsigned_take_bit_eq) (simp add: take_bit_eq_mod)
  also have "(unat v mod 128) OR 128 = unat v mod 128 + 128"
    by (rule nat_or_128) simp
  finally show ?thesis by (simp only: ucast_byte)
qed

lemma ge_0x80: "v \<ge> 0x80 \<longleftrightarrow> \<not> unat (v :: u64) < 128"
  by (simp add: word_le_nat_alt not_less)

text \<open>\<^verbatim>\<open>encodeVarintX\<close> fills exactly the bytes in front of the offset with the encoding.\<close>

lemma put_varint_writes:
  "length ys = length (varint (unat v)) \<Longrightarrow> fits (xs @ ys @ zs) \<Longrightarrow>
   put_varint (xs @ ys @ zs) (int (length xs)) v = Inr (xs @ varint (unat v) @ zs)"
proof (induction ys arbitrary: xs v)
  case (Cons y ys)
  show ?case
  proof (cases "unat v < 128")
    case True
    with Cons.prems(1) have "ys = []" by (simp add: varint_small)
    with True show ?thesis
      by (subst put_varint.simps) (simp add: ge_0x80 varint_small write_at_middle)
  next
    case False
    let ?b = "word_of_nat (unat v mod 128 + 128) :: byte"
    have d: "unat (drop_bit 7 v) = unat v div 128" by (rule unat_drop_7)
    have g: "goint (int (length xs) + 1) = int (length (xs @ [?b]))"
      using goint_Suc [OF _ _ Cons.prems(2), of "int (length xs)"] by simp
    have l: "length ys = length (varint (unat (drop_bit 7 v)))"
      using Cons.prems(1) False unfolding d by (simp add: varint_large)
    have f: "fits ((xs @ [?b]) @ ys @ zs)" using Cons.prems(2) by (simp add: fits_def)
    have "put_varint (xs @ (y # ys) @ zs) (int (length xs)) v =
        bindE (write_at GoPanic (xs @ y # ys @ zs) (int (length xs)) ?b)
          (\<lambda>d. put_varint d (int (length (xs @ [?b]))) (drop_bit 7 v))"
      using False unfolding put_varint.simps [of _ _ v] ucast_continue g ge_0x80 by simp
    also have "\<dots> = put_varint ((xs @ [?b]) @ ys @ zs) (int (length (xs @ [?b]))) (drop_bit 7 v)"
      unfolding write_at_middle bindE_simps append_assoc append_Cons append_Nil ..
    also have "\<dots> = Inr ((xs @ [?b]) @ varint (unat v div 128) @ zs)"
      unfolding Cons.IH [OF l f] d ..
    finally show ?thesis using False by (simp add: varint_large)
  qed
qed simp

theorem encodeVarint_writes:
  assumes "length ys = sov v" "fits (xs @ ys @ zs)"
  shows "encodeVarint (xs @ ys @ zs) (int (length xs + length ys)) v =
    Inr (xs @ varint (unat v) @ zs, int (length xs))"
proof -
  have "goint (int (length xs + length ys) - int (sov v)) = int (length xs)"
    using assms by (simp add: fits_def)
  then show ?thesis
    using put_varint_writes [of ys v xs zs] assms by (simp add: encodeVarint_def sov_length)
qed

end
