(* ===== verification/Marshal.thy ===== *)
theory Marshal
  imports WireCorrect
begin

text \<open>
  What the \<^verbatim>\<open>Marshal\<close> side of the messages shares: a message is written backwards into a
  buffer of its \<^verbatim>\<open>Size()\<close>, last field first. The locale \<open>message_codec\<close> is the contract of
  one message type: its \<^verbatim>\<open>Size\<close>, \<^verbatim>\<open>MarshalToSizedBuffer\<close> and \<^verbatim>\<open>Unmarshal\<close> agree on one
  encoding. Its lemmas (the allocation cannot panic, the bytes are the encoding, reading
  them back gives the message) are proved once and interpreted for every message.
\<close>

section \<open>Writing fields\<close>

text \<open>\<^verbatim>\<open>make([]byte, size)\<close> panics on a negative size.\<close>

definition make_bytes :: "int \<Rightarrow> perr + byte list" where
  "make_bytes sz = (if sz < 0 then Inl GoPanic else Inr (replicate (nat sz) 0))"

text \<open>\<^verbatim>\<open>i = encodeVarintX(dAtA, i, n); i--; dAtA[i] = tag\<close>\<close>

definition put_prefix :: "byte \<Rightarrow> byte list \<Rightarrow> int \<Rightarrow> int \<Rightarrow> perr + (byte list \<times> int)" where
  "put_prefix tag dAtA i n =
     bindE (encodeVarint dAtA i (word_of_int n)) (\<lambda>(dAtA, i).
       let i = goint (i - 1) in
       bindE (write_at GoPanic dAtA i tag) (\<lambda>dAtA. Inr (dAtA, i)))"

text \<open>A string field: \<^verbatim>\<open>i -= len(s); copy(dAtA[i:], s)\<close> and the prefix.\<close>

definition put_string :: "byte \<Rightarrow> string \<Rightarrow> byte list \<Rightarrow> int \<Rightarrow> perr + (byte list \<times> int)" where
  "put_string tag s dAtA i =
     (let i = goint (i - int (length s)) in
      bindE (copy_at GoPanic dAtA i (bytes_of s)) (\<lambda>dAtA.
        put_prefix tag dAtA i (int (length s))))"

text \<open>
  An embedded message: it writes into the sub-slice \<^verbatim>\<open>dAtA[:i]\<close>, which shares its memory
  with \<^verbatim>\<open>dAtA\<close>.
\<close>

definition put_message ::
  "byte \<Rightarrow> (byte list \<Rightarrow> perr + (byte list \<times> int)) \<Rightarrow> byte list \<Rightarrow> int \<Rightarrow> perr + (byte list \<times> int)" where
  "put_message tag mts dAtA i =
     bindE (subslice GoPanic dAtA 0 i) (\<lambda>sub.
     bindE (mts sub) (\<lambda>(sub', sz).
       put_prefix tag (sub' @ drop (nat i) dAtA) (goint (i - sz)) sz))"

text \<open>The body of \<^verbatim>\<open>Marshal\<close> and \<^verbatim>\<open>MarshalTo\<close>, the same text for every message.\<close>

definition marshal_alloc ::
  "int \<Rightarrow> (byte list \<Rightarrow> perr + (byte list \<times> int)) \<Rightarrow> perr + byte list" where
  "marshal_alloc sz mts =
     bindE (make_bytes sz) (\<lambda>dAtA.
     bindE (subslice GoPanic dAtA 0 sz) (\<lambda>sub.
     bindE (mts sub) (\<lambda>(dAtA, n). subslice GoPanic dAtA 0 n)))"

definition marshal_to ::
  "int \<Rightarrow> (byte list \<Rightarrow> perr + (byte list \<times> int)) \<Rightarrow> byte list \<Rightarrow> perr + (byte list \<times> int)" where
  "marshal_to sz mts dAtA =
     bindE (subslice GoPanic dAtA 0 sz) (\<lambda>sub.
     bindE (mts sub) (\<lambda>(sub', n). Inr (sub' @ drop (nat sz) dAtA, n)))"

text \<open>
  The body of \<^verbatim>\<open>XXX_Marshal\<close>: the deterministic case is the runtime's
  \<^verbatim>\<open>InternalMessageInfo.Marshal\<close> (\<open>info_Marshal\<close>); the other one writes into the slice extended to its capacity and
  returns its first \<^verbatim>\<open>n\<close> bytes.
\<close>

definition xxx_marshal ::
  "(byte list \<Rightarrow> perr + byte list) \<Rightarrow> (byte list \<Rightarrow> perr + (byte list \<times> int)) \<Rightarrow> byte list \<Rightarrow> bool
    \<Rightarrow> perr + byte list" where
  "xxx_marshal info_Marshal mts b deterministic =
     (if deterministic then info_Marshal b
      else bindE (mts b) (\<lambda>(b, n). subslice GoPanic b 0 n))"

section \<open>The encoding of a field\<close>

definition enc_field :: "byte \<Rightarrow> byte list \<Rightarrow> byte list" where
  "enc_field tag p = tag # varint (length p) @ p"

lemma length_enc_field:
  "fits p \<Longrightarrow> int (length (enc_field tag p)) = 1 + int (length p) + int (sov (word_of_nat (length p)))"
  by (simp add: enc_field_def sov_length unat_u64 fits_def)

definition writes ::
  "(byte list \<Rightarrow> perr + (byte list \<times> int)) \<Rightarrow> byte list \<Rightarrow> bool" where
  "writes mts e \<longleftrightarrow> (\<forall>xs ys. length ys = length e \<longrightarrow> fits (xs @ ys) \<longrightarrow>
     mts (xs @ ys) = Inr (xs @ e, int (length e)))"

lemma writesD:
  "writes mts e \<Longrightarrow> length ys = length e \<Longrightarrow> fits (xs @ ys) \<Longrightarrow>
   mts (xs @ ys) = Inr (xs @ e, int (length e))"
  by (simp add: writes_def)

lemma split_length:
  assumes "length b = m + n"
  obtains b1 b2 where "b = b1 @ b2" "length b1 = m" "length b2 = n"
proof
  show "b = take m b @ drop m b" by simp
qed (use assms in simp_all)

lemma goint_back:
  "fits xs \<Longrightarrow> n \<le> length xs \<Longrightarrow> goint (int (length xs) - int n) = int (length xs - n)"
  by (simp add: fits_def of_nat_diff)

lemma put_prefix_writes:
  assumes "length b = Suc (length (varint n))" "n < 2 ^ 63" "fits (xs @ b @ zs)"
  shows "put_prefix tag (xs @ b @ zs) (int (length xs + length b)) (int n) =
    Inr (xs @ tag # varint n @ zs, int (length xs))"
proof -
  obtain t bs where b: "b = t # bs" "length bs = length (varint n)"
    using assms(1) by (cases b) auto
  let ?w = "word_of_nat n :: u64"
  have w: "unat ?w = n" using assms(2) by (intro unat_u64) simp
  have "encodeVarint ((xs @ [t]) @ bs @ zs) (int (length (xs @ [t]) + length bs)) ?w =
      Inr ((xs @ [t]) @ varint (unat ?w) @ zs, int (length (xs @ [t])))"
    using assms(3) b by (intro encodeVarint_writes) (simp_all only: sov_length w, simp)
  then have e: "encodeVarint (xs @ b @ zs) (int (length xs + length b)) (word_of_int (int n)) =
      Inr (xs @ t # varint n @ zs, int (length xs) + 1)"
    unfolding w by (simp add: b(1) add.commute)
  have g: "goint (int (length xs) + 1 - 1) = int (length xs)"
    using assms(3) by (simp add: fits_def)
  show ?thesis
    unfolding put_prefix_def e bindE_simps prod.case Let_def g write_at_middle ..
qed

lemma put_string_writes:
  assumes "length b = length (enc_field tag (bytes_of s))" "fits (xs @ b @ zs)"
  shows "put_string tag s (xs @ b @ zs) (int (length xs + length b)) =
    Inr (xs @ enc_field tag (bytes_of s) @ zs, int (length xs))"
proof -
  have "length b = Suc (length (varint (length s))) + length s"
    using assms(1) by (simp add: enc_field_def)
  then obtain p c where b: "b = p @ c" "length p = Suc (length (varint (length s)))" "length c = length s"
    by (rule split_length)
  have n: "length s < 2 ^ 63" using assms(2) b by (simp add: fits_def)
  have g: "goint (int (length xs + length b) - int (length s)) = int (length (xs @ p))"
    using assms(2) b by (simp add: fits_def)
  have c: "copy_at GoPanic (xs @ b @ zs) (int (length (xs @ p))) (bytes_of s) =
      Inr (xs @ p @ bytes_of s @ zs)"
    using copy_at_exact [of "bytes_of s" c GoPanic "xs @ p" zs] b by simp
  have f: "fits (xs @ p @ bytes_of s @ zs)" using assms(2) b by (simp add: fits_def)
  have "put_prefix tag (xs @ p @ bytes_of s @ zs) (int (length xs + length p)) (int (length s)) =
      Inr (xs @ tag # varint (length s) @ bytes_of s @ zs, int (length xs))"
    using put_prefix_writes [OF b(2) n f] by simp
  then show ?thesis
    unfolding put_string_def Let_def g c bindE_simps by (simp add: enc_field_def)
qed

lemma put_message_writes:
  assumes "writes mts e" "length b = length (enc_field tag e)" "fits (xs @ b @ zs)"
  shows "put_message tag mts (xs @ b @ zs) (int (length xs + length b)) =
    Inr (xs @ enc_field tag e @ zs, int (length xs))"
proof -
  have "length b = Suc (length (varint (length e))) + length e"
    using assms(2) by (simp add: enc_field_def)
  then obtain p c where b: "b = p @ c" "length p = Suc (length (varint (length e)))" "length c = length e"
    by (rule split_length)
  have n: "length e < 2 ^ 63" using assms(3) b by (simp add: fits_def)
  have sub: "subslice GoPanic (xs @ b @ zs) 0 (int (length xs + length b)) = Inr (xs @ p @ c)"
    using b by (simp add: subslice_def)
  have "fits ((xs @ p) @ c)" using assms(3) b by (simp add: fits_def)
  from writesD [OF assms(1) b(3) this]
  have m: "mts (xs @ p @ c) = Inr (xs @ p @ e, int (length e))" by simp
  have g: "goint (int (length xs + length b) - int (length e)) = int (length xs + length p)"
    using assms(3) b by (simp add: fits_def)
  have f: "fits (xs @ p @ e @ zs)" using assms(3) b by (simp add: fits_def)
  have "put_prefix tag (xs @ p @ e @ zs) (int (length xs + length p)) (int (length e)) =
      Inr (xs @ tag # varint (length e) @ e @ zs, int (length xs))"
    using put_prefix_writes [OF b(2) n f] by simp
  then show ?thesis
    unfolding put_message_def sub bindE_simps m prod.case g using b by (simp add: enc_field_def)
qed

section \<open>Reading a field back\<close>

lemma parse_tag: "n < 128 \<Longrightarrow> parse_varint (word_of_nat n # ys) = Some (word_of_nat n, ys)"
  using parse_varint_nat [of n ys] by (simp add: varint_small)

lemma parse_tags [simp]:
  "parse_varint (0x0a # ys) = Some (0x0a, ys)" "parse_varint (0x12 # ys) = Some (0x12, ys)"
  using parse_tag [of 10 ys] parse_tag [of 18 ys] by simp_all

lemma tag_fields [simp]:
  "wire_type 0x0a = 2" "field_number 0x0a = 1" "wire_type 0x12 = 2" "field_number 0x12 = 2"
  by (simp_all add: wire_type_def field_number_def)

lemma decode_enc_field:
  assumes "parse_varint (tag # varint (length p) @ p @ ys) = Some (w, varint (length p) @ p @ ys)"
    and "wire_type w = 2" "0 < field_number w" "flds (field_number w) = Some upd" "fits p"
  shows "decode flds m (enc_field tag p @ ys) = Option.bind (upd m p) (\<lambda>m'. decode flds m' ys)"
proof -
  have "decode_field flds m (enc_field tag p @ ys) = map_option (\<lambda>m'. (m', ys)) (upd m p)"
    using assms parse_block_varint [OF assms(5), of ys]
    by (simp add: enc_field_def decode_field_def)
  then show ?thesis
    by (subst decode_nonempty) (simp_all add: enc_field_def bind_map_option comp_def)
qed

lemma decode_field_1:
  assumes "flds 1 = Some upd" "fits p"
  shows "decode flds m (enc_field 0x0a p @ ys) = Option.bind (upd m p) (\<lambda>m'. decode flds m' ys)"
  using assms by (intro decode_enc_field [where w = 10]) simp_all

lemma decode_field_2:
  assumes "flds 2 = Some upd" "fits p"
  shows "decode flds m (enc_field 0x12 p @ ys) = Option.bind (upd m p) (\<lambda>m'. decode flds m' ys)"
  using assms by (intro decode_enc_field [where w = 18]) simp_all

section \<open>The contract of a message type\<close>

locale message_codec = message_fields flds sflds
  for flds :: "'m fields" and sflds :: "'m sfields" +
  fixes size_of :: "'m \<Rightarrow> int" and mts :: "'m \<Rightarrow> byte list \<Rightarrow> perr + (byte list \<times> int)"
    and enc :: "'m \<Rightarrow> byte list" and zero :: 'm
  assumes size_enc: "fits (enc m) \<Longrightarrow> size_of m = int (length (enc m))"
    and mts_writes: "fits (enc m) \<Longrightarrow> writes (mts m) (enc m)"
    and decode_enc: "fits (enc m) \<Longrightarrow> decode sflds zero (enc m) = Some m"
begin

lemma marshal_enc: "fits (enc m) \<Longrightarrow> marshal_alloc (size_of m) (mts m) = Inr (enc m)"
proof -
  assume f: "fits (enc m)"
  let ?b = "replicate (length (enc m)) (0 :: byte)"
  have "fits ([] @ ?b)" using f by (simp add: fits_def)
  from writesD [OF mts_writes [OF f] _ this] show ?thesis
    by (simp add: marshal_alloc_def make_bytes_def size_enc [OF f] subslice_def)
qed

lemma marshal_to_enc:
  assumes "fits (buf @ rest)" "length buf = length (enc m)"
  shows "marshal_to (size_of m) (mts m) (buf @ rest) = Inr (enc m @ rest, int (length (enc m)))"
proof -
  have f: "fits (enc m)" "fits ([] @ buf)" using assms by (auto simp: fits_def)
  from writesD [OF mts_writes [OF f(1)] assms(2) f(2)] assms(2) show ?thesis
    by (simp add: marshal_to_def size_enc [OF f(1)] subslice_def)
qed

lemma marshal_to_short:
  assumes "fits (enc m)" "length buf < length (enc m)"
  shows "marshal_to (size_of m) (mts m) buf = Inl GoPanic"
  using assms(2) by (simp add: marshal_to_def size_enc [OF assms(1)] subslice_def)

lemma xxx_marshal_enc:
  assumes "fits buf" "length buf = length (enc m)"
  shows "xxx_marshal info (mts m) buf False = Inr (enc m)"
proof -
  have f: "fits (enc m)" "fits ([] @ buf)" using assms by (auto simp: fits_def)
  from writesD [OF mts_writes [OF f(1)] assms(2) f(2)] assms(2) show ?thesis
    by (simp add: xxx_marshal_def subslice_def)
qed

lemma roundtrip: "fits (enc m) \<Longrightarrow> unmarshal f name flds zero (enc m) = Inr m"
  by (simp add: unmarshal_Inr_iff decode_enc)

lemma marshal_roundtrip:
  "fits (enc m) \<Longrightarrow>
   bindE (marshal_alloc (size_of m) (mts m)) (unmarshal f name flds zero) = Inr m"
  by (simp add: marshal_enc roundtrip)

lemma enc_inj: "fits (enc m) \<Longrightarrow> fits (enc m') \<Longrightarrow> enc m = enc m' \<Longrightarrow> m = m'"
  by (metis decode_enc option.inject)

end

end
