(* ===== verification/Messages.thy ===== *)
theory Messages
  imports Marshal
begin

unbundle bit_operations_syntax

text \<open>
  The messages of x/tatcore/types (params.pb.go, tx.pb.go, query.pb.go, genesis.pb.go,
  module.pb.go): the structs, \<^verbatim>\<open>Size\<close>, \<^verbatim>\<open>MarshalToSizedBuffer\<close>, \<^verbatim>\<open>Marshal\<close>, \<^verbatim>\<open>Unmarshal\<close> and
  the nil-safe getters of each, as instances of Wire and Marshal. A nil pointer is \<open>None\<close>.
  Every message type interprets the contract \<open>message_codec\<close>.
\<close>

section \<open>The copies of the shared routines\<close>

definition sovParams :: "u64 \<Rightarrow> nat" where "sovParams = sov"
definition sovTx :: "u64 \<Rightarrow> nat" where "sovTx = sov"
definition sovQuery :: "u64 \<Rightarrow> nat" where "sovQuery = sov"
definition sovGenesis :: "u64 \<Rightarrow> nat" where "sovGenesis = sov"
definition sovModule :: "u64 \<Rightarrow> nat" where "sovModule = sov"

lemmas sov_defs = sovParams_def sovTx_def sovQuery_def sovGenesis_def sovModule_def

definition sozParams :: "u64 \<Rightarrow> nat" where "sozParams x = sovParams (push_bit 1 x XOR signed_drop_bit 63 x)"
definition sozTx :: "u64 \<Rightarrow> nat" where "sozTx x = sovTx (push_bit 1 x XOR signed_drop_bit 63 x)"
definition sozQuery :: "u64 \<Rightarrow> nat" where "sozQuery x = sovQuery (push_bit 1 x XOR signed_drop_bit 63 x)"
definition sozGenesis :: "u64 \<Rightarrow> nat" where "sozGenesis x = sovGenesis (push_bit 1 x XOR signed_drop_bit 63 x)"
definition sozModule :: "u64 \<Rightarrow> nat" where "sozModule x = sovModule (push_bit 1 x XOR signed_drop_bit 63 x)"

text \<open>\<^verbatim>\<open>encodeVarintX\<close>: the new content of the slice and the index it returns.\<close>

definition encodeVarintParams :: "byte list \<Rightarrow> int \<Rightarrow> u64 \<Rightarrow> perr + (byte list \<times> int)" where
  "encodeVarintParams dAtA offset v =
     (let offset = goint (offset - int (sovParams v)); base = offset
      in bindE (put_varint dAtA offset v) (\<lambda>dAtA. Inr (dAtA, base)))"
definition encodeVarintTx :: "byte list \<Rightarrow> int \<Rightarrow> u64 \<Rightarrow> perr + (byte list \<times> int)" where
  "encodeVarintTx dAtA offset v =
     (let offset = goint (offset - int (sovTx v)); base = offset
      in bindE (put_varint dAtA offset v) (\<lambda>dAtA. Inr (dAtA, base)))"
definition encodeVarintQuery :: "byte list \<Rightarrow> int \<Rightarrow> u64 \<Rightarrow> perr + (byte list \<times> int)" where
  "encodeVarintQuery dAtA offset v =
     (let offset = goint (offset - int (sovQuery v)); base = offset
      in bindE (put_varint dAtA offset v) (\<lambda>dAtA. Inr (dAtA, base)))"
definition encodeVarintGenesis :: "byte list \<Rightarrow> int \<Rightarrow> u64 \<Rightarrow> perr + (byte list \<times> int)" where
  "encodeVarintGenesis dAtA offset v =
     (let offset = goint (offset - int (sovGenesis v)); base = offset
      in bindE (put_varint dAtA offset v) (\<lambda>dAtA. Inr (dAtA, base)))"
definition encodeVarintModule :: "byte list \<Rightarrow> int \<Rightarrow> u64 \<Rightarrow> perr + (byte list \<times> int)" where
  "encodeVarintModule dAtA offset v =
     (let offset = goint (offset - int (sovModule v)); base = offset
      in bindE (put_varint dAtA offset v) (\<lambda>dAtA. Inr (dAtA, base)))"

definition skipParams :: "byte list \<Rightarrow> perr + int" where "skipParams = skip_field PbParams"
definition skipTx :: "byte list \<Rightarrow> perr + int" where "skipTx = skip_field PbTx"
definition skipQuery :: "byte list \<Rightarrow> perr + int" where "skipQuery = skip_field PbQuery"
definition skipGenesis :: "byte list \<Rightarrow> perr + int" where "skipGenesis = skip_field PbGenesis"
definition skipModule :: "byte list \<Rightarrow> perr + int" where "skipModule = skip_field PbModule"

text \<open>\<^verbatim>\<open>uint64(l)\<close> of a length\<close>

definition u64_of :: "int \<Rightarrow> u64" where
  "u64_of l = word_of_int l"

section \<open>Params\<close>

datatype Params = Params_struct

definition Params_zero :: Params where
  "Params_zero = Params_struct"

fun Params_Size :: "Params option \<Rightarrow> int" where
  "Params_Size None = 0"
| "Params_Size (Some m) = 0"

definition Params_MarshalToSizedBuffer :: "Params \<Rightarrow> byte list \<Rightarrow> perr + (byte list \<times> int)" where
  "Params_MarshalToSizedBuffer m dAtA =
     (let i = int (length dAtA) in Inr (dAtA, int (length dAtA) - i))"

definition Params_Marshal :: "Params \<Rightarrow> perr + byte list" where
  "Params_Marshal m = marshal_alloc (Params_Size (Some m)) (Params_MarshalToSizedBuffer m)"

definition Params_MarshalTo :: "Params \<Rightarrow> byte list \<Rightarrow> perr + (byte list \<times> int)" where
  "Params_MarshalTo m = marshal_to (Params_Size (Some m)) (Params_MarshalToSizedBuffer m)"

definition Params_XXX_Marshal ::
  "(byte list \<Rightarrow> perr + byte list) \<Rightarrow> Params \<Rightarrow> byte list \<Rightarrow> bool \<Rightarrow> perr + byte list" where
  "Params_XXX_Marshal info_Marshal m b deterministic =
     xxx_marshal info_Marshal (Params_MarshalToSizedBuffer m) b deterministic"

definition Params_fields :: "Params fields" where
  "Params_fields n = None"

definition Params_Unmarshal :: "Params \<Rightarrow> byte list \<Rightarrow> perr + Params" where
  "Params_Unmarshal m dAtA = unmarshal PbParams ''Params'' Params_fields m dAtA"

text \<open>
  \<^verbatim>\<open>Equal(that interface{})\<close>: the dynamic value is nil, a pointer, a value or something else.
\<close>

datatype iface = IfaceNil | IfacePtr "Params option" | IfaceVal Params | IfaceOther

definition Params_Equal :: "Params option \<Rightarrow> iface \<Rightarrow> bool" where
  "Params_Equal this that =
     (let compare = (\<lambda>that1. if that1 = None then this = None
                      else if this = None then False else True)
      in case that of
        IfaceNil \<Rightarrow> this = None
      | IfacePtr that1 \<Rightarrow> compare that1
      | IfaceVal that2 \<Rightarrow> compare (Some that2)
      | IfaceOther \<Rightarrow> False)"

section \<open>MsgUpdateParams and its response (tx.pb.go)\<close>

record MsgUpdateParams =
  mup_Authority :: string
  mup_Params :: Params

definition MsgUpdateParams_zero :: MsgUpdateParams where
  "MsgUpdateParams_zero = \<lparr>mup_Authority = '''', mup_Params = Params_zero\<rparr>"

fun MsgUpdateParams_GetAuthority :: "MsgUpdateParams option \<Rightarrow> string" where
  "MsgUpdateParams_GetAuthority (Some m) = mup_Authority m"
| "MsgUpdateParams_GetAuthority None = ''''"

fun MsgUpdateParams_GetParams :: "MsgUpdateParams option \<Rightarrow> Params" where
  "MsgUpdateParams_GetParams (Some m) = mup_Params m"
| "MsgUpdateParams_GetParams None = Params_zero"

fun MsgUpdateParams_Size :: "MsgUpdateParams option \<Rightarrow> int" where
  "MsgUpdateParams_Size None = 0"
| "MsgUpdateParams_Size (Some m) =
     (let l = int (length (mup_Authority m));
          n = (if l > 0 then goint (1 + l + int (sovTx (u64_of l))) else 0);
          l2 = Params_Size (Some (mup_Params m))
      in goint (n + 1 + l2 + int (sovTx (u64_of l2))))"

definition MsgUpdateParams_MarshalToSizedBuffer ::
  "MsgUpdateParams \<Rightarrow> byte list \<Rightarrow> perr + (byte list \<times> int)" where
  "MsgUpdateParams_MarshalToSizedBuffer m dAtA =
     (let l = int (length dAtA); i = l in
      bindE (put_message 0x12 (Params_MarshalToSizedBuffer (mup_Params m)) dAtA i) (\<lambda>(dAtA, i).
      bindE (if length (mup_Authority m) > 0 then put_string 0x0a (mup_Authority m) dAtA i
             else Inr (dAtA, i)) (\<lambda>(dAtA, i).
        Inr (dAtA, l - i))))"

definition MsgUpdateParams_Marshal :: "MsgUpdateParams \<Rightarrow> perr + byte list" where
  "MsgUpdateParams_Marshal m =
     marshal_alloc (MsgUpdateParams_Size (Some m)) (MsgUpdateParams_MarshalToSizedBuffer m)"

definition MsgUpdateParams_MarshalTo :: "MsgUpdateParams \<Rightarrow> byte list \<Rightarrow> perr + (byte list \<times> int)" where
  "MsgUpdateParams_MarshalTo m =
     marshal_to (MsgUpdateParams_Size (Some m)) (MsgUpdateParams_MarshalToSizedBuffer m)"

definition MsgUpdateParams_XXX_Marshal ::
  "(byte list \<Rightarrow> perr + byte list) \<Rightarrow> MsgUpdateParams \<Rightarrow> byte list \<Rightarrow> bool \<Rightarrow> perr + byte list" where
  "MsgUpdateParams_XXX_Marshal info_Marshal m b deterministic =
     xxx_marshal info_Marshal (MsgUpdateParams_MarshalToSizedBuffer m) b deterministic"

definition MsgUpdateParams_fields :: "MsgUpdateParams fields" where
  "MsgUpdateParams_fields n =
     (if n = 1 then Some (''Authority'', \<lambda>m bs. Inr (m\<lparr>mup_Authority := string_of bs\<rparr>))
      else if n = 2 then Some (''Params'', \<lambda>m bs.
        bindE (Params_Unmarshal (mup_Params m) bs) (\<lambda>p. Inr (m\<lparr>mup_Params := p\<rparr>)))
      else None)"

definition MsgUpdateParams_Unmarshal :: "MsgUpdateParams \<Rightarrow> byte list \<Rightarrow> perr + MsgUpdateParams" where
  "MsgUpdateParams_Unmarshal m dAtA =
     unmarshal PbTx ''MsgUpdateParams'' MsgUpdateParams_fields m dAtA"

datatype MsgUpdateParamsResponse = MsgUpdateParamsResponse_struct

fun MsgUpdateParamsResponse_Size :: "MsgUpdateParamsResponse option \<Rightarrow> int" where
  "MsgUpdateParamsResponse_Size None = 0"
| "MsgUpdateParamsResponse_Size (Some m) = 0"

definition MsgUpdateParamsResponse_MarshalToSizedBuffer ::
  "MsgUpdateParamsResponse \<Rightarrow> byte list \<Rightarrow> perr + (byte list \<times> int)" where
  "MsgUpdateParamsResponse_MarshalToSizedBuffer m dAtA =
     (let i = int (length dAtA) in Inr (dAtA, int (length dAtA) - i))"

definition MsgUpdateParamsResponse_Marshal :: "MsgUpdateParamsResponse \<Rightarrow> perr + byte list" where
  "MsgUpdateParamsResponse_Marshal m =
     marshal_alloc (MsgUpdateParamsResponse_Size (Some m))
       (MsgUpdateParamsResponse_MarshalToSizedBuffer m)"

definition MsgUpdateParamsResponse_MarshalTo :: "MsgUpdateParamsResponse \<Rightarrow> byte list \<Rightarrow> perr + (byte list \<times> int)" where
  "MsgUpdateParamsResponse_MarshalTo m = marshal_to (MsgUpdateParamsResponse_Size (Some m)) (MsgUpdateParamsResponse_MarshalToSizedBuffer m)"

definition MsgUpdateParamsResponse_XXX_Marshal ::
  "(byte list \<Rightarrow> perr + byte list) \<Rightarrow> MsgUpdateParamsResponse \<Rightarrow> byte list \<Rightarrow> bool \<Rightarrow> perr + byte list" where
  "MsgUpdateParamsResponse_XXX_Marshal info_Marshal m b deterministic =
     xxx_marshal info_Marshal (MsgUpdateParamsResponse_MarshalToSizedBuffer m) b deterministic"

definition MsgUpdateParamsResponse_fields :: "MsgUpdateParamsResponse fields" where
  "MsgUpdateParamsResponse_fields n = None"

definition MsgUpdateParamsResponse_Unmarshal ::
  "MsgUpdateParamsResponse \<Rightarrow> byte list \<Rightarrow> perr + MsgUpdateParamsResponse" where
  "MsgUpdateParamsResponse_Unmarshal m dAtA =
     unmarshal PbTx ''MsgUpdateParamsResponse'' MsgUpdateParamsResponse_fields m dAtA"

section \<open>QueryParamsRequest and QueryParamsResponse (query.pb.go)\<close>

datatype QueryParamsRequest = QueryParamsRequest_struct

fun QueryParamsRequest_Size :: "QueryParamsRequest option \<Rightarrow> int" where
  "QueryParamsRequest_Size None = 0"
| "QueryParamsRequest_Size (Some m) = 0"

definition QueryParamsRequest_MarshalToSizedBuffer ::
  "QueryParamsRequest \<Rightarrow> byte list \<Rightarrow> perr + (byte list \<times> int)" where
  "QueryParamsRequest_MarshalToSizedBuffer m dAtA =
     (let i = int (length dAtA) in Inr (dAtA, int (length dAtA) - i))"

definition QueryParamsRequest_Marshal :: "QueryParamsRequest \<Rightarrow> perr + byte list" where
  "QueryParamsRequest_Marshal m =
     marshal_alloc (QueryParamsRequest_Size (Some m)) (QueryParamsRequest_MarshalToSizedBuffer m)"

definition QueryParamsRequest_MarshalTo :: "QueryParamsRequest \<Rightarrow> byte list \<Rightarrow> perr + (byte list \<times> int)" where
  "QueryParamsRequest_MarshalTo m = marshal_to (QueryParamsRequest_Size (Some m)) (QueryParamsRequest_MarshalToSizedBuffer m)"

definition QueryParamsRequest_XXX_Marshal ::
  "(byte list \<Rightarrow> perr + byte list) \<Rightarrow> QueryParamsRequest \<Rightarrow> byte list \<Rightarrow> bool \<Rightarrow> perr + byte list" where
  "QueryParamsRequest_XXX_Marshal info_Marshal m b deterministic =
     xxx_marshal info_Marshal (QueryParamsRequest_MarshalToSizedBuffer m) b deterministic"

definition QueryParamsRequest_fields :: "QueryParamsRequest fields" where
  "QueryParamsRequest_fields n = None"

definition QueryParamsRequest_Unmarshal ::
  "QueryParamsRequest \<Rightarrow> byte list \<Rightarrow> perr + QueryParamsRequest" where
  "QueryParamsRequest_Unmarshal m dAtA =
     unmarshal PbQuery ''QueryParamsRequest'' QueryParamsRequest_fields m dAtA"

record QueryParamsResponse =
  qpr_Params :: Params

definition QueryParamsResponse_zero :: QueryParamsResponse where
  "QueryParamsResponse_zero = \<lparr>qpr_Params = Params_zero\<rparr>"

fun QueryParamsResponse_GetParams :: "QueryParamsResponse option \<Rightarrow> Params" where
  "QueryParamsResponse_GetParams (Some m) = qpr_Params m"
| "QueryParamsResponse_GetParams None = Params_zero"

fun QueryParamsResponse_Size :: "QueryParamsResponse option \<Rightarrow> int" where
  "QueryParamsResponse_Size None = 0"
| "QueryParamsResponse_Size (Some m) =
     (let l = Params_Size (Some (qpr_Params m)) in goint (1 + l + int (sovQuery (u64_of l))))"

definition QueryParamsResponse_MarshalToSizedBuffer ::
  "QueryParamsResponse \<Rightarrow> byte list \<Rightarrow> perr + (byte list \<times> int)" where
  "QueryParamsResponse_MarshalToSizedBuffer m dAtA =
     (let l = int (length dAtA); i = l in
      bindE (put_message 0x0a (Params_MarshalToSizedBuffer (qpr_Params m)) dAtA i) (\<lambda>(dAtA, i).
        Inr (dAtA, l - i)))"

definition QueryParamsResponse_Marshal :: "QueryParamsResponse \<Rightarrow> perr + byte list" where
  "QueryParamsResponse_Marshal m =
     marshal_alloc (QueryParamsResponse_Size (Some m)) (QueryParamsResponse_MarshalToSizedBuffer m)"

definition QueryParamsResponse_MarshalTo :: "QueryParamsResponse \<Rightarrow> byte list \<Rightarrow> perr + (byte list \<times> int)" where
  "QueryParamsResponse_MarshalTo m = marshal_to (QueryParamsResponse_Size (Some m)) (QueryParamsResponse_MarshalToSizedBuffer m)"

definition QueryParamsResponse_XXX_Marshal ::
  "(byte list \<Rightarrow> perr + byte list) \<Rightarrow> QueryParamsResponse \<Rightarrow> byte list \<Rightarrow> bool \<Rightarrow> perr + byte list" where
  "QueryParamsResponse_XXX_Marshal info_Marshal m b deterministic =
     xxx_marshal info_Marshal (QueryParamsResponse_MarshalToSizedBuffer m) b deterministic"

definition QueryParamsResponse_fields :: "QueryParamsResponse fields" where
  "QueryParamsResponse_fields n =
     (if n = 1 then Some (''Params'', \<lambda>m bs.
        bindE (Params_Unmarshal (qpr_Params m) bs) (\<lambda>p. Inr (m\<lparr>qpr_Params := p\<rparr>)))
      else None)"

definition QueryParamsResponse_Unmarshal ::
  "QueryParamsResponse \<Rightarrow> byte list \<Rightarrow> perr + QueryParamsResponse" where
  "QueryParamsResponse_Unmarshal m dAtA =
     unmarshal PbQuery ''QueryParamsResponse'' QueryParamsResponse_fields m dAtA"

section \<open>GenesisState (genesis.pb.go)\<close>

record GenesisState =
  gs_Params :: Params

definition GenesisState_zero :: GenesisState where
  "GenesisState_zero = \<lparr>gs_Params = Params_zero\<rparr>"

fun GenesisState_GetParams :: "GenesisState option \<Rightarrow> Params" where
  "GenesisState_GetParams (Some m) = gs_Params m"
| "GenesisState_GetParams None = Params_zero"

fun GenesisState_Size :: "GenesisState option \<Rightarrow> int" where
  "GenesisState_Size None = 0"
| "GenesisState_Size (Some m) =
     (let l = Params_Size (Some (gs_Params m)) in goint (1 + l + int (sovGenesis (u64_of l))))"

definition GenesisState_MarshalToSizedBuffer ::
  "GenesisState \<Rightarrow> byte list \<Rightarrow> perr + (byte list \<times> int)" where
  "GenesisState_MarshalToSizedBuffer m dAtA =
     (let l = int (length dAtA); i = l in
      bindE (put_message 0x0a (Params_MarshalToSizedBuffer (gs_Params m)) dAtA i) (\<lambda>(dAtA, i).
        Inr (dAtA, l - i)))"

definition GenesisState_Marshal :: "GenesisState \<Rightarrow> perr + byte list" where
  "GenesisState_Marshal m =
     marshal_alloc (GenesisState_Size (Some m)) (GenesisState_MarshalToSizedBuffer m)"

definition GenesisState_MarshalTo :: "GenesisState \<Rightarrow> byte list \<Rightarrow> perr + (byte list \<times> int)" where
  "GenesisState_MarshalTo m = marshal_to (GenesisState_Size (Some m)) (GenesisState_MarshalToSizedBuffer m)"

definition GenesisState_XXX_Marshal ::
  "(byte list \<Rightarrow> perr + byte list) \<Rightarrow> GenesisState \<Rightarrow> byte list \<Rightarrow> bool \<Rightarrow> perr + byte list" where
  "GenesisState_XXX_Marshal info_Marshal m b deterministic =
     xxx_marshal info_Marshal (GenesisState_MarshalToSizedBuffer m) b deterministic"

definition GenesisState_fields :: "GenesisState fields" where
  "GenesisState_fields n =
     (if n = 1 then Some (''Params'', \<lambda>m bs.
        bindE (Params_Unmarshal (gs_Params m) bs) (\<lambda>p. Inr (m\<lparr>gs_Params := p\<rparr>)))
      else None)"

definition GenesisState_Unmarshal :: "GenesisState \<Rightarrow> byte list \<Rightarrow> perr + GenesisState" where
  "GenesisState_Unmarshal m dAtA =
     unmarshal PbGenesis ''GenesisState'' GenesisState_fields m dAtA"

section \<open>Module (module.pb.go)\<close>

record Module =
  mod_Authority :: string

definition Module_zero :: Module where
  "Module_zero = \<lparr>mod_Authority = ''''\<rparr>"

fun Module_GetAuthority :: "Module option \<Rightarrow> string" where
  "Module_GetAuthority (Some m) = mod_Authority m"
| "Module_GetAuthority None = ''''"

fun Module_Size :: "Module option \<Rightarrow> int" where
  "Module_Size None = 0"
| "Module_Size (Some m) =
     (let l = int (length (mod_Authority m))
      in if l > 0 then goint (1 + l + int (sovModule (u64_of l))) else 0)"

definition Module_MarshalToSizedBuffer :: "Module \<Rightarrow> byte list \<Rightarrow> perr + (byte list \<times> int)" where
  "Module_MarshalToSizedBuffer m dAtA =
     (let l = int (length dAtA); i = l in
      bindE (if length (mod_Authority m) > 0 then put_string 0x0a (mod_Authority m) dAtA i
             else Inr (dAtA, i)) (\<lambda>(dAtA, i).
        Inr (dAtA, l - i)))"

definition Module_Marshal :: "Module \<Rightarrow> perr + byte list" where
  "Module_Marshal m = marshal_alloc (Module_Size (Some m)) (Module_MarshalToSizedBuffer m)"

definition Module_MarshalTo :: "Module \<Rightarrow> byte list \<Rightarrow> perr + (byte list \<times> int)" where
  "Module_MarshalTo m = marshal_to (Module_Size (Some m)) (Module_MarshalToSizedBuffer m)"

definition Module_XXX_Marshal ::
  "(byte list \<Rightarrow> perr + byte list) \<Rightarrow> Module \<Rightarrow> byte list \<Rightarrow> bool \<Rightarrow> perr + byte list" where
  "Module_XXX_Marshal info_Marshal m b deterministic =
     xxx_marshal info_Marshal (Module_MarshalToSizedBuffer m) b deterministic"

definition Module_fields :: "Module fields" where
  "Module_fields n =
     (if n = 1 then Some (''Authority'', \<lambda>m bs. Inr (m\<lparr>mod_Authority := string_of bs\<rparr>))
      else None)"

definition Module_Unmarshal :: "Module \<Rightarrow> byte list \<Rightarrow> perr + Module" where
  "Module_Unmarshal m dAtA = unmarshal PbModule ''Module'' Module_fields m dAtA"

end
