(* ===== verification/MessagesCorrect.thy ===== *)
theory MessagesCorrect
  imports Messages
begin

text \<open>
  The messages against the wire grammar: for every message its fields in the grammar, its
  encoding, the interpretation of \<open>message_codec\<close>, and the properties of the codec that
  rest on it: round trips, sizes, totality of decoding on arbitrary bytes, concatenation.
\<close>

section \<open>Grammar and encodings\<close>

definition no_fields :: "'m sfields" where
  "no_fields n = None"

definition string_field :: "('m \<Rightarrow> string \<Rightarrow> 'm) \<Rightarrow> 'm \<Rightarrow> byte list \<Rightarrow> 'm option" where
  "string_field upd m p = Some (upd m (string_of p))"

definition params_field ::
  "('m \<Rightarrow> Params) \<Rightarrow> ('m \<Rightarrow> Params \<Rightarrow> 'm) \<Rightarrow> 'm \<Rightarrow> byte list \<Rightarrow> 'm option" where
  "params_field sel upd m p = map_option (upd m) (decode no_fields (sel m) p)"

definition MsgUpdateParams_grammar :: "MsgUpdateParams sfields" where
  "MsgUpdateParams_grammar n =
     (if n = 1 then Some (string_field (\<lambda>m s. m\<lparr>mup_Authority := s\<rparr>))
      else if n = 2 then Some (params_field mup_Params (\<lambda>m p. m\<lparr>mup_Params := p\<rparr>))
      else None)"

definition QueryParamsResponse_grammar :: "QueryParamsResponse sfields" where
  "QueryParamsResponse_grammar n =
     (if n = 1 then Some (params_field qpr_Params (\<lambda>m p. m\<lparr>qpr_Params := p\<rparr>)) else None)"

definition GenesisState_grammar :: "GenesisState sfields" where
  "GenesisState_grammar n =
     (if n = 1 then Some (params_field gs_Params (\<lambda>m p. m\<lparr>gs_Params := p\<rparr>)) else None)"

definition Module_grammar :: "Module sfields" where
  "Module_grammar n =
     (if n = 1 then Some (string_field (\<lambda>m s. m\<lparr>mod_Authority := s\<rparr>)) else None)"

text \<open>proto3: a field with the default value is omitted, but embedded non-nullable messages are written.\<close>

definition enc_string :: "byte \<Rightarrow> string \<Rightarrow> byte list" where
  "enc_string tag s = (if s = [] then [] else enc_field tag (bytes_of s))"

definition enc_MsgUpdateParams :: "MsgUpdateParams \<Rightarrow> byte list" where
  "enc_MsgUpdateParams m = enc_string 0x0a (mup_Authority m) @ enc_field 0x12 []"

definition enc_Module :: "Module \<Rightarrow> byte list" where
  "enc_Module m = enc_string 0x0a (mod_Authority m)"

section \<open>Decoding: every message implements its grammar\<close>

interpretation params: message_fields Params_fields no_fields
  by unfold_locales (simp_all add: Params_fields_def no_fields_def)

interpretation msg_response: message_fields MsgUpdateParamsResponse_fields no_fields
  by unfold_locales (simp_all add: MsgUpdateParamsResponse_fields_def no_fields_def)

interpretation query_request: message_fields QueryParamsRequest_fields no_fields
  by unfold_locales (simp_all add: QueryParamsRequest_fields_def no_fields_def)

lemma params_field_refines:
  "fits p \<Longrightarrow> refines (=) (\<lambda>_. False)
     (bindE (Params_Unmarshal (sel m) p) (\<lambda>x. Inr (upd m x))) (params_field sel upd m p)"
  unfolding params_field_def Params_Unmarshal_def map_conv_bind_option
  by (rule refines_bind_strict [OF params.unmarshal_refines]) simp_all

interpretation msg: message_fields MsgUpdateParams_fields MsgUpdateParams_grammar
  by unfold_locales
     (auto simp: MsgUpdateParams_fields_def MsgUpdateParams_grammar_def string_field_def
       intro!: params_field_refines split: if_splits)

interpretation query_response: message_fields QueryParamsResponse_fields QueryParamsResponse_grammar
  by unfold_locales
     (auto simp: QueryParamsResponse_fields_def QueryParamsResponse_grammar_def
       intro!: params_field_refines split: if_splits)

interpretation genesis: message_fields GenesisState_fields GenesisState_grammar
  by unfold_locales
     (auto simp: GenesisState_fields_def GenesisState_grammar_def
       intro!: params_field_refines split: if_splits)

interpretation modul: message_fields Module_fields Module_grammar
  by unfold_locales
     (auto simp: Module_fields_def Module_grammar_def string_field_def split: if_splits)

section \<open>Encoding\<close>

lemma empty_struct_eq:
  "(p :: Params) = q" "(r :: MsgUpdateParamsResponse) = r'" "(u :: QueryParamsRequest) = u'"
  by (cases p; cases q; cases r; cases r'; cases u; cases u'; simp)+

lemma fits_field: "fits (enc_field tag p @ ys) \<Longrightarrow> fits p \<and> fits ys"
  by (auto simp: enc_field_def fits_def)

lemma goint_length: "fits xs \<Longrightarrow> goint (int (length xs)) = int (length xs)"
  by (simp add: fits_def)

lemma u64_of_length: "u64_of (int n) = word_of_nat n"
  by (simp add: u64_of_def)

lemma length_enc_string:
  "fits (enc_string tag s) \<Longrightarrow> int (length (enc_string tag s)) =
    (if int (length s) > 0 then 1 + int (length s) + int (sov (word_of_nat (length s))) else 0)"
  using length_enc_field [of "bytes_of s" tag] fits_field [of tag "bytes_of s" "[]"]
  by (auto simp: enc_string_def)

lemma empty_writes: "writes (\<lambda>dAtA. Inr (dAtA, 0)) []"
  by (simp add: writes_def)

lemma Params_writes: "writes (Params_MarshalToSizedBuffer p) []"
  by (simp add: writes_def Params_MarshalToSizedBuffer_def)

lemma put_opt_string_writes:
  assumes "length b = length (enc_string tag s)" "fits (xs @ b @ zs)"
  shows "(if length s > 0 then put_string tag s (xs @ b @ zs) (int (length xs + length b))
      else Inr (xs @ b @ zs, int (length xs + length b))) =
    Inr (xs @ enc_string tag s @ zs, int (length xs))"
  using put_string_writes [of b tag s xs zs] assms by (auto simp: enc_string_def)

lemma enc_params_field: "enc_field tag [] = [tag, 0]"
  by (simp add: enc_field_def varint_small)

lemma put_params_writes:
  assumes "length b = 2" "fits (xs @ b)"
  shows "put_message tag (Params_MarshalToSizedBuffer p) (xs @ b) (int (length xs + length b)) =
    Inr (xs @ enc_field tag [], int (length xs))"
  using put_message_writes [OF Params_writes, of b tag xs "[]"] assms by (simp add: enc_params_field)

lemma sov_0 [simp]: "sov 0 = 1"
  by (simp add: sov_length varint_small)

lemma decode_params_field [simp]:
  "params_field sel upd m [] = Some (upd m (sel m))"
  by (simp add: params_field_def)

interpretation params: message_codec Params_fields no_fields
  "\<lambda>m. Params_Size (Some m)" Params_MarshalToSizedBuffer "\<lambda>_. []" Params_zero
  by unfold_locales (auto simp: Params_writes intro: empty_struct_eq)

interpretation msg_response: message_codec MsgUpdateParamsResponse_fields no_fields
  "\<lambda>m. MsgUpdateParamsResponse_Size (Some m)" MsgUpdateParamsResponse_MarshalToSizedBuffer
  "\<lambda>_. []" MsgUpdateParamsResponse_struct
  by unfold_locales
     (auto simp: writes_def MsgUpdateParamsResponse_MarshalToSizedBuffer_def intro: empty_struct_eq)

interpretation query_request: message_codec QueryParamsRequest_fields no_fields
  "\<lambda>m. QueryParamsRequest_Size (Some m)" QueryParamsRequest_MarshalToSizedBuffer
  "\<lambda>_. []" QueryParamsRequest_struct
  by unfold_locales
     (auto simp: writes_def QueryParamsRequest_MarshalToSizedBuffer_def intro: empty_struct_eq)

interpretation msg: message_codec MsgUpdateParams_fields MsgUpdateParams_grammar
  "\<lambda>m. MsgUpdateParams_Size (Some m)" MsgUpdateParams_MarshalToSizedBuffer
  enc_MsgUpdateParams MsgUpdateParams_zero
proof unfold_locales
  fix m
  assume f: "fits (enc_MsgUpdateParams m)"
  let ?a = "enc_string 0x0a (mup_Authority m)"
  have fa: "fits ?a" using f fits_append by (auto simp: enc_MsgUpdateParams_def)
  have l: "length (enc_MsgUpdateParams m) = length ?a + 2"
    by (simp add: enc_MsgUpdateParams_def enc_params_field)
  show "MsgUpdateParams_Size (Some m) = int (length (enc_MsgUpdateParams m))"
    using f goint_length [OF fa] length_enc_string [OF fa]
    by (auto simp: l sov_defs u64_of_length fits_def Let_def u64_of_def split: if_splits)
  show "writes (MsgUpdateParams_MarshalToSizedBuffer m) (enc_MsgUpdateParams m)"
    unfolding writes_def
  proof (intro allI impI)
    fix xs ys :: "byte list"
    assume "length ys = length (enc_MsgUpdateParams m)" and fits: "fits (xs @ ys)"
    then have "length ys = length ?a + 2" by (simp add: l)
    then obtain b c where b: "ys = b @ c" "length b = length ?a" "length c = 2"
      by (rule split_length)
    have p: "put_message 0x12 (Params_MarshalToSizedBuffer (mup_Params m)) (xs @ ys) (int (length (xs @ ys))) =
        Inr (xs @ b @ enc_field 0x12 [], int (length xs + length b))"
      using put_params_writes [OF b(3), of "xs @ b"] fits b(1)
      by (simp add: add.assoc)
    have fb: "fits (xs @ b @ enc_field 0x12 [])"
      using fits b by (simp add: fits_def enc_params_field)
    show "MsgUpdateParams_MarshalToSizedBuffer m (xs @ ys) =
        Inr (xs @ enc_MsgUpdateParams m, int (length (enc_MsgUpdateParams m)))"
      unfolding MsgUpdateParams_MarshalToSizedBuffer_def Let_def p bindE_simps prod.case
        put_opt_string_writes [OF b(2) fb]
      using b l by (simp add: enc_MsgUpdateParams_def)
  qed
  show "decode MsgUpdateParams_grammar MsgUpdateParams_zero (enc_MsgUpdateParams m) = Some m"
  proof (cases "mup_Authority m = []")
    case True
    then show ?thesis
      using decode_field_2 [of MsgUpdateParams_grammar _ "[]" MsgUpdateParams_zero "[]"]
      by (cases m) (auto simp: enc_MsgUpdateParams_def enc_string_def MsgUpdateParams_grammar_def
          fits_def MsgUpdateParams_zero_def intro: empty_struct_eq)
  next
    case False
    then have "fits (bytes_of (mup_Authority m))"
      using fits_field [of "0x0a" _ "[]"] fa by (simp add: enc_string_def)
    with False show ?thesis
      using decode_field_1 [of MsgUpdateParams_grammar _ "bytes_of (mup_Authority m)"
          MsgUpdateParams_zero "enc_field 0x12 []"]
        decode_field_2 [of MsgUpdateParams_grammar _ "[]" _ "[]"]
      by (cases m) (auto simp: enc_MsgUpdateParams_def enc_string_def MsgUpdateParams_grammar_def
          fits_def MsgUpdateParams_zero_def string_field_def intro: empty_struct_eq)
  qed
qed

interpretation query_response: message_codec QueryParamsResponse_fields QueryParamsResponse_grammar
  "\<lambda>m. QueryParamsResponse_Size (Some m)" QueryParamsResponse_MarshalToSizedBuffer
  "\<lambda>_. enc_field 0x0a []" QueryParamsResponse_zero
proof unfold_locales
  fix m
  show "QueryParamsResponse_Size (Some m) = int (length (enc_field 0x0a []))"
    by (simp add: enc_params_field sov_defs u64_of_def)
  show "writes (QueryParamsResponse_MarshalToSizedBuffer m) (enc_field 0x0a [])"
    using put_params_writes
    by (simp add: writes_def QueryParamsResponse_MarshalToSizedBuffer_def enc_params_field Let_def)
  show "decode QueryParamsResponse_grammar QueryParamsResponse_zero (enc_field 0x0a []) = Some m"
    using decode_field_1 [of QueryParamsResponse_grammar _ "[]" _ "[]"]
    by (cases m) (auto simp: QueryParamsResponse_grammar_def fits_def QueryParamsResponse_zero_def
        intro: empty_struct_eq)
qed

interpretation genesis: message_codec GenesisState_fields GenesisState_grammar
  "\<lambda>m. GenesisState_Size (Some m)" GenesisState_MarshalToSizedBuffer
  "\<lambda>_. enc_field 0x0a []" GenesisState_zero
proof unfold_locales
  fix m
  show "GenesisState_Size (Some m) = int (length (enc_field 0x0a []))"
    by (simp add: enc_params_field sov_defs u64_of_def)
  show "writes (GenesisState_MarshalToSizedBuffer m) (enc_field 0x0a [])"
    using put_params_writes
    by (simp add: writes_def GenesisState_MarshalToSizedBuffer_def enc_params_field Let_def)
  show "decode GenesisState_grammar GenesisState_zero (enc_field 0x0a []) = Some m"
    using decode_field_1 [of GenesisState_grammar _ "[]" _ "[]"]
    by (cases m) (auto simp: GenesisState_grammar_def fits_def GenesisState_zero_def
        intro: empty_struct_eq)
qed

interpretation modul: message_codec Module_fields Module_grammar
  "\<lambda>m. Module_Size (Some m)" Module_MarshalToSizedBuffer enc_Module Module_zero
proof unfold_locales
  fix m
  assume f: "fits (enc_Module m)"
  show "Module_Size (Some m) = int (length (enc_Module m))"
    using f goint_length [OF f] length_enc_string [of "0x0a" "mod_Authority m"]
    by (auto simp: enc_Module_def sov_defs u64_of_length Let_def split: if_splits)
  show "writes (Module_MarshalToSizedBuffer m) (enc_Module m)"
    unfolding writes_def
  proof (intro allI impI)
    fix xs ys :: "byte list"
    assume l: "length ys = length (enc_Module m)" and fits: "fits (xs @ ys)"
    show "Module_MarshalToSizedBuffer m (xs @ ys) = Inr (xs @ enc_Module m, int (length (enc_Module m)))"
      using put_opt_string_writes [of ys "0x0a" "mod_Authority m" xs "[]"] l fits
      by (auto simp: Module_MarshalToSizedBuffer_def Let_def enc_Module_def)
  qed
  show "decode Module_grammar Module_zero (enc_Module m) = Some m"
    using decode_field_1 [of Module_grammar _ "bytes_of (mod_Authority m)" Module_zero "[]"]
      fits_field [of "0x0a" "bytes_of (mod_Authority m)" "[]"] f
    by (cases m) (auto simp: enc_Module_def enc_string_def Module_grammar_def Module_zero_def
        string_field_def)
qed

end
