(* ===== verification/CodecProperties.thy ===== *)
theory CodecProperties
  imports MessagesCorrect
begin

text \<open>
  What the message codec promises, stated over the functions of Messages: round trips and
  sizes, totality of decoding on arbitrary input, merging, unknown fields. Every property
  is an instance of the contracts of Marshal and WireCorrect.
\<close>

section \<open>Tags\<close>

lemma field_number_tag:
  assumes "n < 2 ^ 31" "t < 8"
  shows "field_number (word_of_nat (8 * n + t)) = int n"
proof -
  let ?w = "word_of_nat (8 * n + t) :: u64"
  have w: "unat ?w = 8 * n + t" using assms by (intro unat_u64) simp
  have "unat (drop_bit 3 ?w) = unat ?w div 8"
    by (simp only: unat_drop_bit_eq) (simp add: drop_bit_eq_div)
  then have d: "unat (drop_bit 3 ?w) = n" using assms w by simp
  have "(ucast (v :: u64) :: 32 word) = word_of_int (int (unat v))" for v
    by transfer simp
  from this [of "drop_bit 3 ?w"]
  have "field_number ?w = sint (word_of_int (int n) :: 32 word)"
    unfolding field_number_def d by (rule arg_cong)
  also have "\<dots> = int n"
    using assms(1) by (simp only: int_word_sint) simp
  finally show ?thesis .
qed

lemma wire_type_tag:
  assumes "n < 2 ^ 31" "t < 8"
  shows "wire_type (word_of_nat (8 * n + t)) = int t"
proof -
  let ?w = "word_of_nat (8 * n + t) :: u64"
  have w: "unat ?w = 8 * n + t" using assms by (intro unat_u64) simp
  have m: "?w AND 7 = take_bit 3 ?w"
    by (simp only: take_bit_eq_mask) (simp add: mask_eq_exp_minus_1)
  have "unat (take_bit 3 ?w) = unat ?w mod 8"
    by (simp only: unsigned_take_bit_eq) (simp add: take_bit_eq_mod)
  then have "unat (?w AND 7) = t" unfolding m w using assms(2) by simp
  then show ?thesis unfolding wire_type_def uint_nat by (rule arg_cong)
qed

text \<open>A field with number \<open>n\<close> and wire type 2, as other writers of the schema may send it.\<close>

definition bytes_field :: "nat \<Rightarrow> byte list \<Rightarrow> byte list" where
  "bytes_field n p = varint (8 * n + 2) @ varint (length p) @ p"

lemma decode_bytes_field:
  assumes "0 < n" "n < 2 ^ 29" "fits p"
  shows "decode_field flds m (bytes_field n p @ ys) =
    (case flds (int n) of
       Some upd \<Rightarrow> map_option (\<lambda>m'. (m', ys)) (upd m p)
     | None \<Rightarrow> Some (m, ys))"
proof -
  obtain w :: u64 where w: "w = word_of_nat (8 * n + 2)" by simp
  have p: "parse_varint (bytes_field n p @ ys) = Some (w, varint (length p) @ p @ ys)"
    using assms(2) parse_varint_nat [of "8 * n + 2" "varint (length p) @ p @ ys"]
    unfolding w by (simp only: bytes_field_def append_assoc) simp
  have t: "field_number w = int n" "wire_type w = 2"
    using assms(2) field_number_tag [of n 2] wire_type_tag [of n 2] unfolding w by simp_all
  have s: "skip_fields 0 (bytes_field n p @ ys) = Some ys"
    by (subst skip_fields.simps) (simp add: p t skip_one_def parse_block_varint [OF assms(3)])
  show ?thesis
    using assms(1) parse_block_varint [OF assms(3), of ys]
    by (simp add: decode_field_def p t s split: option.splits)
qed

lemma bytes_field_ne: "bytes_field n p \<noteq> []"
  by (simp add: bytes_field_def)

lemma decode_unknown:
  assumes "0 < n" "n < 2 ^ 29" "fits p" "flds (int n) = None"
  shows "decode flds m (bytes_field n p @ ys) = decode flds m ys"
  using decode_bytes_field [OF assms(1-3), of flds m ys] assms(4)
  by (subst decode_nonempty) (simp_all add: bytes_field_ne)

section \<open>Bounds on the encodings\<close>

lemma varint_length_bound: "n < 2 ^ 64 \<Longrightarrow> length (varint n) \<le> 10"
  using sov_range(2) [of "word_of_nat n"] by (simp only: sov_length unat_u64)

lemma enc_string_length: "length s < 2 ^ 62 \<Longrightarrow> length (enc_string tag s) \<le> length s + 11"
  using varint_length_bound [of "length s"] by (simp add: enc_string_def enc_field_def)

lemma fits_enc_MsgUpdateParams: "length (mup_Authority m) < 2 ^ 62 \<Longrightarrow> fits (enc_MsgUpdateParams m)"
  using enc_string_length [of "mup_Authority m" "0x0a"]
  by (simp add: enc_MsgUpdateParams_def enc_params_field fits_def)

lemma fits_enc_Module: "length (mod_Authority m) < 2 ^ 62 \<Longrightarrow> fits (enc_Module m)"
  using enc_string_length [of "mod_Authority m" "0x0a"] by (simp add: enc_Module_def fits_def)

lemma fits_params_field: "fits (enc_field tag [])"
  by (simp add: enc_params_field fits_def)

lemmas codec_defs =
  Params_Marshal_def Params_Unmarshal_def MsgUpdateParams_Marshal_def MsgUpdateParams_Unmarshal_def
  MsgUpdateParamsResponse_Marshal_def MsgUpdateParamsResponse_Unmarshal_def
  QueryParamsRequest_Marshal_def QueryParamsRequest_Unmarshal_def
  QueryParamsResponse_Marshal_def QueryParamsResponse_Unmarshal_def
  GenesisState_Marshal_def GenesisState_Unmarshal_def Module_Marshal_def Module_Unmarshal_def

lemma Params_Marshal_empty: "Params_Marshal p = Inr []"
  unfolding codec_defs by (rule params.marshal_enc) (simp add: fits_def)

lemma Params_roundtrip: "Params_Unmarshal Params_zero [] = Inr p"
  unfolding codec_defs by (rule params.roundtrip) (simp add: fits_def)

lemma QueryParamsResponse_roundtrip:
  "bindE (QueryParamsResponse_Marshal q) (QueryParamsResponse_Unmarshal QueryParamsResponse_zero) = Inr q"
proof -
  have u: "QueryParamsResponse_Unmarshal QueryParamsResponse_zero =
      unmarshal PbQuery ''QueryParamsResponse'' QueryParamsResponse_fields QueryParamsResponse_zero"
    by (simp add: codec_defs fun_eq_iff)
  show ?thesis
    unfolding u QueryParamsResponse_Marshal_def
    by (intro query_response.marshal_roundtrip fits_params_field)
qed

lemma msg_roundtrip:
  assumes "length (mup_Authority m) < 2 ^ 62"
  shows "\<exists>bs. MsgUpdateParams_Marshal m = Inr bs \<and> int (length bs) < 2 ^ 63
    \<and> int (length bs) = MsgUpdateParams_Size (Some m)
    \<and> MsgUpdateParams_Unmarshal MsgUpdateParams_zero bs = Inr m"
  using msg.marshal_enc msg.size_enc msg.roundtrip fits_enc_MsgUpdateParams [OF assms]
  unfolding codec_defs fits_def [symmetric] by metis

section \<open>Properties\<close>

text \<open>
  C4. Round trip of \<^verbatim>\<open>MsgUpdateParams\<close>: \<^verbatim>\<open>Marshal\<close> returns without error or panic exactly
  \<^verbatim>\<open>Size()\<close> bytes, and \<^verbatim>\<open>Unmarshal\<close> of these bytes into a zero message gives the message back.
\<close>

theorem MsgUpdateParams_roundtrip:
  "length (mup_Authority m) < 2 ^ 62 \<Longrightarrow>
   \<exists>bs. MsgUpdateParams_Marshal m = Inr bs
      \<and> int (length bs) = MsgUpdateParams_Size (Some m)
      \<and> MsgUpdateParams_Unmarshal MsgUpdateParams_zero bs = Inr m"
  using msg_roundtrip by blast

definition sample_msg :: MsgUpdateParams where
  "sample_msg = \<lparr>mup_Authority = ''tat1gov'', mup_Params = Params_struct\<rparr>"

theorem MsgUpdateParams_roundtrip_witness:
  "\<exists>bs. MsgUpdateParams_Marshal sample_msg = Inr bs
      \<and> int (length bs) = MsgUpdateParams_Size (Some sample_msg)
      \<and> MsgUpdateParams_Unmarshal MsgUpdateParams_zero bs = Inr sample_msg"
  by (rule MsgUpdateParams_roundtrip) (simp add: sample_msg_def)

text \<open>
  C5. Decoding is total on untrusted input: whatever bytes arrive, of any length Go can hold,
  \<^verbatim>\<open>Unmarshal\<close> of every message type returns a message or one of its error values; it never
  indexes or slices out of range and its loops end.
\<close>

theorem Unmarshal_total:
  assumes "int (length dAtA) < 2 ^ 63"
  shows "\<not> crashed (MsgUpdateParams_Unmarshal m1 dAtA)
    \<and> \<not> crashed (MsgUpdateParamsResponse_Unmarshal m2 dAtA)
    \<and> \<not> crashed (QueryParamsRequest_Unmarshal m3 dAtA)
    \<and> \<not> crashed (QueryParamsResponse_Unmarshal m4 dAtA)
    \<and> \<not> crashed (GenesisState_Unmarshal m5 dAtA)
    \<and> \<not> crashed (Module_Unmarshal m6 dAtA)
    \<and> \<not> crashed (Params_Unmarshal m7 dAtA)"
  using assms unfolding codec_defs fits_def [symmetric]
  by (simp add: msg.unmarshal_not_crashed msg_response.unmarshal_not_crashed
      query_request.unmarshal_not_crashed query_response.unmarshal_not_crashed
      genesis.unmarshal_not_crashed modul.unmarshal_not_crashed params.unmarshal_not_crashed)

theorem Unmarshal_total_witness:
  "\<not> crashed (MsgUpdateParams_Unmarshal sample_msg [0x0a, 0xff, 0xff, 0x07])
    \<and> \<not> crashed (GenesisState_Unmarshal GenesisState_zero [0x0a, 0xff, 0xff, 0x07])"
  using Unmarshal_total [of "[0x0a, 0xff, 0xff, 0x07]"] by simp

text \<open>
  C9. \<^verbatim>\<open>Unmarshal\<close> accepts exactly the byte strings of the wire grammar and computes the value
  the grammar gives them.
\<close>

theorem MsgUpdateParams_Unmarshal_grammar:
  "int (length dAtA) < 2 ^ 63 \<Longrightarrow>
   MsgUpdateParams_Unmarshal m dAtA = Inr m' \<longleftrightarrow> decode MsgUpdateParams_grammar m dAtA = Some m'"
  unfolding codec_defs fits_def [symmetric] by (rule msg.unmarshal_Inr_iff)

theorem MsgUpdateParams_Unmarshal_grammar_witness:
  "MsgUpdateParams_Unmarshal sample_msg [0x12, 0] = Inr sample_msg
     \<longleftrightarrow> decode MsgUpdateParams_grammar sample_msg [0x12, 0] = Some sample_msg"
  by (rule MsgUpdateParams_Unmarshal_grammar) simp

text \<open>
  Concatenation merges: once the bytes \<open>a\<close> are read, the bytes after them are read into
  the message that \<open>a\<close> gave, as if in a second \<^verbatim>\<open>Unmarshal\<close>.
\<close>

theorem MsgUpdateParams_Unmarshal_append:
  assumes "int (length (a @ b)) < 2 ^ 63" "MsgUpdateParams_Unmarshal m a = Inr m1"
  shows "MsgUpdateParams_Unmarshal m (a @ b) = Inr m2 \<longleftrightarrow> MsgUpdateParams_Unmarshal m1 b = Inr m2"
  using assms unfolding codec_defs fits_def [symmetric] by (rule msg.unmarshal_append)

lemma MsgUpdateParams_encoded:
  "length (mup_Authority m) < 2 ^ 62 \<Longrightarrow> MsgUpdateParams_Marshal m = Inr (enc_MsgUpdateParams m)"
  unfolding codec_defs by (rule msg.marshal_enc [OF fits_enc_MsgUpdateParams])

lemma sample_encoded: "enc_MsgUpdateParams sample_msg =
    [0x0a, 7, 0x74, 0x61, 0x74, 0x31, 0x67, 0x6f, 0x76, 0x12, 0]"
  by (simp add: sample_msg_def enc_MsgUpdateParams_def enc_string_def enc_field_def varint_small bytes_of_def)

lemma sample_decoded:
  "MsgUpdateParams_Unmarshal MsgUpdateParams_zero (enc_MsgUpdateParams sample_msg) = Inr sample_msg"
  unfolding codec_defs
  by (rule msg.roundtrip [OF fits_enc_MsgUpdateParams]) (simp add: sample_msg_def)

theorem MsgUpdateParams_Unmarshal_append_witness:
  "MsgUpdateParams_Unmarshal MsgUpdateParams_zero (enc_MsgUpdateParams sample_msg @ [0x12, 0]) = Inr sample_msg
    \<longleftrightarrow> MsgUpdateParams_Unmarshal sample_msg [0x12, 0] = Inr sample_msg"
  by (rule MsgUpdateParams_Unmarshal_append [OF _ sample_decoded]) (simp add: sample_encoded)

text \<open>
  Unknown fields are skipped: a length-delimited field with any number other than the
  declared 1 and 2 leaves the message and the reading of the remaining bytes unchanged.
\<close>

theorem MsgUpdateParams_unknown_field:
  assumes "0 < n" "n < 2 ^ 29" "n \<noteq> 1" "n \<noteq> 2" "int (length (bytes_field n p @ rest)) < 2 ^ 63"
  shows "MsgUpdateParams_Unmarshal m (bytes_field n p @ rest) = Inr m'
     \<longleftrightarrow> MsgUpdateParams_Unmarshal m rest = Inr m'"
proof -
  have "fits (bytes_field n p @ rest)" "fits rest" "fits p"
    using assms(5) by (auto simp: fits_def bytes_field_def)
  moreover have "MsgUpdateParams_grammar (int n) = None"
    using assms(3,4) by (simp add: MsgUpdateParams_grammar_def)
  ultimately show ?thesis
    using assms(1,2) unfolding codec_defs by (simp add: msg.unmarshal_Inr_iff decode_unknown)
qed

theorem MsgUpdateParams_unknown_field_witness:
  "MsgUpdateParams_Unmarshal MsgUpdateParams_zero
      (bytes_field 15 [1, 2, 3] @ enc_MsgUpdateParams sample_msg) = Inr sample_msg
    \<longleftrightarrow> MsgUpdateParams_Unmarshal MsgUpdateParams_zero (enc_MsgUpdateParams sample_msg) = Inr sample_msg"
  by (rule MsgUpdateParams_unknown_field)
     (simp_all add: sample_encoded bytes_field_def varint_small)

text \<open>
  \<^verbatim>\<open>Unmarshal\<close> does not reset its receiver: decoding an encoded message over an old one keeps
  the old authority when the new message has none (proto3 omits the empty string).
\<close>

theorem MsgUpdateParams_Unmarshal_keeps:
  assumes "length (mup_Authority m) < 2 ^ 62"
  shows "bindE (MsgUpdateParams_Marshal m) (MsgUpdateParams_Unmarshal old) =
    Inr (m\<lparr>mup_Authority := (if mup_Authority m = [] then mup_Authority old else mup_Authority m)\<rparr>)"
proof -
  let ?m = "m\<lparr>mup_Authority := (if mup_Authority m = [] then mup_Authority old else mup_Authority m)\<rparr>"
  have "decode MsgUpdateParams_grammar old (enc_MsgUpdateParams m) = Some ?m"
    using decode_field_1 [of MsgUpdateParams_grammar _ "bytes_of (mup_Authority m)" old "enc_field 0x12 []"]
      decode_field_2 [of MsgUpdateParams_grammar _ "[]" _ "[]"] assms
    by (cases m; cases old)
       (auto simp: enc_MsgUpdateParams_def enc_string_def MsgUpdateParams_grammar_def
         string_field_def fits_def intro: empty_struct_eq)
  then show ?thesis
    using fits_enc_MsgUpdateParams [OF assms]
    by (simp add: MsgUpdateParams_encoded [OF assms] MsgUpdateParams_Unmarshal_def msg.unmarshal_Inr_iff)
qed

theorem MsgUpdateParams_Unmarshal_keeps_witness:
  "bindE (MsgUpdateParams_Marshal MsgUpdateParams_zero) (MsgUpdateParams_Unmarshal sample_msg)
    = Inr sample_msg"
  using MsgUpdateParams_Unmarshal_keeps [of MsgUpdateParams_zero sample_msg]
  by (simp add: MsgUpdateParams_zero_def sample_msg_def Params_zero_def)

text \<open>
  The other messages with content: the module configuration, the genesis state and the
  query response also survive \<^verbatim>\<open>Marshal\<close> and \<^verbatim>\<open>Unmarshal\<close>.
\<close>

theorem other_messages_roundtrip:
  assumes "length (mod_Authority c) < 2 ^ 62"
  shows "bindE (Module_Marshal c) (Module_Unmarshal Module_zero) = Inr c
    \<and> bindE (GenesisState_Marshal g) (GenesisState_Unmarshal GenesisState_zero) = Inr g
    \<and> bindE (QueryParamsResponse_Marshal q) (QueryParamsResponse_Unmarshal QueryParamsResponse_zero) = Inr q"
proof -
  have u: "Module_Unmarshal Module_zero = unmarshal PbModule ''Module'' Module_fields Module_zero"
    "GenesisState_Unmarshal GenesisState_zero =
      unmarshal PbGenesis ''GenesisState'' GenesisState_fields GenesisState_zero"
    by (simp_all add: codec_defs fun_eq_iff)
  show ?thesis
    unfolding u Module_Marshal_def GenesisState_Marshal_def
    by (intro conjI modul.marshal_roundtrip genesis.marshal_roundtrip
        QueryParamsResponse_roundtrip fits_enc_Module assms fits_params_field)
qed

theorem other_messages_roundtrip_witness:
  "bindE (Module_Marshal \<lparr>mod_Authority = ''gov''\<rparr>) (Module_Unmarshal Module_zero)
      = Inr \<lparr>mod_Authority = ''gov''\<rparr>
    \<and> bindE (GenesisState_Marshal GenesisState_zero) (GenesisState_Unmarshal GenesisState_zero)
      = Inr GenesisState_zero
    \<and> bindE (QueryParamsResponse_Marshal QueryParamsResponse_zero)
        (QueryParamsResponse_Unmarshal QueryParamsResponse_zero) = Inr QueryParamsResponse_zero"
  by (rule other_messages_roundtrip) simp

text \<open>
  \<^verbatim>\<open>encodeVarintX\<close> and the varint loop are inverse inside any buffer: the \<^verbatim>\<open>sovX(v)\<close> bytes in front of
  the offset (at least one, at most ten) are overwritten, no other byte changes, the returned
  index is their start, and reading from there gives the value and the old offset back.
\<close>

theorem varint_roundtrip:
  assumes "length ys = sov v" "int (length (xs @ ys @ zs)) < 2 ^ 63"
  shows "\<exists>ys'. encodeVarint (xs @ ys @ zs) (int (length xs + length ys)) v
        = Inr (xs @ ys' @ zs, int (length xs))
      \<and> length ys' = length ys \<and> 1 \<le> length ys' \<and> length ys' \<le> 10
      \<and> read_varint f (xs @ ys' @ zs) 0 (int (length xs)) 0 = Inr (v, int (length xs + length ys))"
proof -
  let ?e = "varint (unat v)" let ?d = "xs @ ?e @ zs"
  have l: "length ys = length ?e" and f: "fits ?d"
    using assms by (simp_all add: sov_length fits_def)
  have "at ?d (int (length xs)) (?e @ zs)" by (auto simp: at_def)
  from read_varint_refines [OF f this, of f] obtain j where
    j: "read_varint f ?d 0 (int (length xs)) 0 = Inr (v, j)" "at ?d j zs"
    by auto
  have "j = int (length xs + length ys)"
    using at_range(4) [OF j(2) f] l by simp
  with j l sov_range [of v] encodeVarint_writes [OF assms(1)] assms(2)
  show ?thesis by (intro exI [of _ ?e]) (simp add: sov_length fits_def)
qed

theorem varint_roundtrip_witness:
  "\<exists>ys'. encodeVarint ([7] @ [0, 0] @ [9]) (int (length [7 :: byte] + length [0 :: byte, 0])) 300
        = Inr ([7] @ ys' @ [9], int (length [7 :: byte]))
      \<and> length ys' = length [0 :: byte, 0] \<and> 1 \<le> length ys' \<and> length ys' \<le> 10
      \<and> read_varint PbTx ([7] @ ys' @ [9]) 0 (int (length [7 :: byte])) 0
        = Inr (300, int (length [7 :: byte] + length [0 :: byte, 0]))"
  by (rule varint_roundtrip) (simp_all add: sov_length varint_large varint_small)

text \<open>
  The two ways of encoding into a buffer of the caller: \<^verbatim>\<open>MarshalTo\<close> writes the bytes of
  \<^verbatim>\<open>Marshal\<close> at the front of any buffer that has room for them and keeps the rest, and panics on
  a shorter one; \<^verbatim>\<open>XXX_Marshal\<close> over a slice whose capacity is exactly \<^verbatim>\<open>Size()\<close> returns them too.
\<close>

theorem MsgUpdateParams_MarshalTo_buffer:
  assumes "length (mup_Authority m) < 2 ^ 62" "int (length buf) < 2 ^ 63"
  shows "\<exists>bs. MsgUpdateParams_Marshal m = Inr bs
    \<and> MsgUpdateParams_MarshalTo m buf =
        (if length buf < length bs then Inl GoPanic
         else Inr (bs @ drop (length bs) buf, MsgUpdateParams_Size (Some m)))
    \<and> (length buf = length bs \<longrightarrow> MsgUpdateParams_XXX_Marshal info m buf False = Inr bs)"
proof -
  let ?e = "enc_MsgUpdateParams m"
  have f: "fits ?e" by (rule fits_enc_MsgUpdateParams [OF assms(1)])
  have b: "fits buf" using assms(2) by (simp add: fits_def)
  have "MsgUpdateParams_MarshalTo m buf = Inr (?e @ drop (length ?e) buf, MsgUpdateParams_Size (Some m))"
    if "length ?e \<le> length buf"
    using msg.marshal_to_enc [of "take (length ?e) buf" "drop (length ?e) buf" m] b that
    by (simp only: MsgUpdateParams_MarshalTo_def msg.size_enc [OF f] append_take_drop_id) simp
  moreover have "MsgUpdateParams_MarshalTo m buf = Inl GoPanic" if "length buf < length ?e"
    unfolding MsgUpdateParams_MarshalTo_def by (rule msg.marshal_to_short [OF f that])
  moreover have "MsgUpdateParams_XXX_Marshal info m buf False = Inr ?e" if "length buf = length ?e"
    unfolding MsgUpdateParams_XXX_Marshal_def by (rule msg.xxx_marshal_enc [OF b that])
  ultimately show ?thesis using MsgUpdateParams_encoded [OF assms(1)] by auto
qed

theorem MsgUpdateParams_MarshalTo_buffer_witness:
  "\<exists>bs. MsgUpdateParams_Marshal sample_msg = Inr bs
    \<and> MsgUpdateParams_MarshalTo sample_msg (replicate 20 7) =
        (if length (replicate 20 (7 :: byte)) < length bs then Inl GoPanic
         else Inr (bs @ drop (length bs) (replicate 20 7), MsgUpdateParams_Size (Some sample_msg)))"
proof -
  have "length (mup_Authority sample_msg) < 2 ^ 62" "int (length (replicate 20 (7 :: byte))) < 2 ^ 63"
    by (simp_all add: sample_msg_def)
  from MsgUpdateParams_MarshalTo_buffer [OF this, of Inr] show ?thesis by blast
qed

end
