(* ===== verification/Keeper.thy ===== *)
theory Keeper
  imports CodecProperties
begin

text \<open>
  The tatcore keeper (x/tatcore/keeper, with x/tatcore/types/{params,keys,genesis,errors}.go):
  construction, the message server, the query server, genesis.

  What the keeper calls in the SDK is the record \<open>sdk\<close> of operations on an opaque store
  state \<open>'s\<close> with opaque errors \<open>'x\<close>: the address codec, the collections item and the schema
  builder. What the keeper relies on is stated in \<open>address_codec_law\<close> and \<open>item_law\<close>; the
  locale \<open>value_codec\<close> is what the item relies on in the codec of its values, and the codec of
  Messages interprets it.
\<close>

section \<open>Constants and parameters (types)\<close>

definition ModuleName :: string where "ModuleName = ''tatcore''"
definition StoreKey :: string where "StoreKey = ModuleName"
definition GovModuleName :: string where "GovModuleName = ''gov''"
definition ParamsKey :: string where "ParamsKey = ''p_tatcore''"

definition NewParams :: Params where
  "NewParams = Params_struct"

definition DefaultParams :: Params where
  "DefaultParams = NewParams"

datatype grpc_code = InvalidArgument | Internal | Unimplemented

text \<open>\<open>Wrapped e msg\<close> is \<^verbatim>\<open>errorsmod.Wrap(e, msg)\<close>; \<open>ErrInvalidSigner\<close> is the sentinel with code 1100.\<close>

datatype 'x kerr =
    External 'x
  | ErrInvalidSigner
  | Wrapped "'x kerr" string
  | Status grpc_code string

definition Params_Validate :: "Params \<Rightarrow> 'x kerr option" where
  "Params_Validate p = None"

definition DefaultGenesis :: GenesisState where
  "DefaultGenesis = \<lparr>gs_Params = DefaultParams\<rparr>"

definition GenesisState_Validate :: "GenesisState \<Rightarrow> 'x kerr option" where
  "GenesisState_Validate gs = Params_Validate (gs_Params gs)"

section \<open>The operations of the SDK the keeper calls\<close>

text \<open>A \<^verbatim>\<open>collections.Item\<close>: where it is stored and how its values are encoded.\<close>

record 'v item =
  item_prefix :: string
  item_name :: string
  item_encode :: "'v \<Rightarrow> perr + byte list"
  item_decode :: "byte list \<Rightarrow> perr + 'v"

text \<open>\<^verbatim>\<open>Get\<close> returns Go's pair of a value and an error; \<^verbatim>\<open>Set\<close> returns the store and an error.\<close>

record ('s, 'x, 'v) sdk =
  StringToBytes :: "string \<Rightarrow> 'x + byte list"
  BytesToString :: "byte list \<Rightarrow> 'x + string"
  ItemGet :: "'v item \<Rightarrow> 's \<Rightarrow> 'v \<times> 'x option"
  ItemSet :: "'v item \<Rightarrow> 's \<Rightarrow> 'v \<Rightarrow> 's \<times> 'x option"
  SchemaBuild :: "'v item list \<Rightarrow> 'x option"
  IsErrNotFound :: "'x \<Rightarrow> bool"

text \<open>
  An address codec decodes what it encoded, if it was an address: of at least one and at most 255 bytes
  (\<^verbatim>\<open>address.MaxAddrLen\<close>). The Bech32 codec encodes no bytes as the empty string, which it then refuses.
\<close>

definition address_codec_law :: "('s, 'x, 'v) sdk \<Rightarrow> bool" where
  "address_codec_law E \<longleftrightarrow>
     (\<forall>bz str. bz \<noteq> [] \<longrightarrow> length bz \<le> 255 \<longrightarrow> BytesToString E bz = Inr str \<longrightarrow> StringToBytes E str = Inr bz)"

text \<open>
  An item stores the encoding of the value: after a \<^verbatim>\<open>Set\<close> without error, \<^verbatim>\<open>Get\<close> decodes the
  bytes that the item's codec produced.
\<close>

definition item_law :: "('s, 'x, 'v) sdk \<Rightarrow> bool" where
  "item_law E \<longleftrightarrow>
     (\<forall>it s v s' bz w. ItemSet E it s v = (s', None) \<longrightarrow> item_encode it v = Inr bz \<longrightarrow>
        item_decode it bz = Inr w \<longrightarrow> ItemGet E it s' = (w, None))"

section \<open>The keeper\<close>

record keeper =
  k_authority :: "byte list"
  k_Params :: "Params item"

datatype 'x kpanic =
    InvalidAuthority "byte list" 'x
  | SchemaError 'x
  | GenesisPanic string "'x kerr"

definition params_item :: "Params item" where
  "params_item = \<lparr>item_prefix = ParamsKey, item_name = ''params'',
     item_encode = Params_Marshal, item_decode = Params_Unmarshal Params_zero\<rparr>"

definition NewKeeper :: "('s, 'x, Params) sdk \<Rightarrow> byte list \<Rightarrow> 'x kpanic + keeper" where
  "NewKeeper E auth =
     (case BytesToString E auth of
        Inl err \<Rightarrow> Inl (InvalidAuthority auth err)
      | Inr _ \<Rightarrow>
         (let k = \<lparr>k_authority = auth, k_Params = params_item\<rparr> in
          case SchemaBuild E [k_Params k] of
            Some err \<Rightarrow> Inl (SchemaError err)
          | None \<Rightarrow> Inr k))"

definition GetAuthority :: "keeper \<Rightarrow> byte list" where
  "GetAuthority k = k_authority k"

section \<open>The message server\<close>

definition UpdateParams ::
  "('s, 'x, Params) sdk \<Rightarrow> keeper \<Rightarrow> 's \<Rightarrow> MsgUpdateParams
    \<Rightarrow> 's \<times> ('x kerr + MsgUpdateParamsResponse)" where
  "UpdateParams E k s req =
     (case StringToBytes E (mup_Authority req) of
        Inl err \<Rightarrow> (s, Inl (Wrapped (External err) ''invalid authority address''))
      | Inr auth \<Rightarrow>
          if GetAuthority k \<noteq> auth then
            (let expected = (case BytesToString E (GetAuthority k) of Inl _ \<Rightarrow> '''' | Inr str \<Rightarrow> str)
             in (s, Inl (Wrapped ErrInvalidSigner
                  (''invalid authority; expected '' @ expected @ '', got '' @ mup_Authority req))))
          else case Params_Validate (mup_Params req) of
            Some err \<Rightarrow> (s, Inl err)
          | None \<Rightarrow>
              (case ItemSet E (k_Params k) s (mup_Params req) of
                 (s', Some err) \<Rightarrow> (s', Inl (External err))
               | (s', None) \<Rightarrow> (s', Inr MsgUpdateParamsResponse_struct)))"

section \<open>The query server\<close>

definition Query_Params ::
  "('s, 'x, Params) sdk \<Rightarrow> keeper \<Rightarrow> 's \<Rightarrow> QueryParamsRequest option \<Rightarrow> 'x kerr + QueryParamsResponse" where
  "Query_Params E k s req =
     (if req = None then Inl (Status InvalidArgument ''invalid request'')
      else let (params, err) = ItemGet E (k_Params k) s in
        if (case err of Some e \<Rightarrow> \<not> IsErrNotFound E e | None \<Rightarrow> False) then Inl (Status Internal ''internal error'')
        else Inr \<lparr>qpr_Params = params\<rparr>)"

section \<open>Genesis\<close>

definition InitGenesis ::
  "('s, 'x, Params) sdk \<Rightarrow> keeper \<Rightarrow> 's \<Rightarrow> GenesisState \<Rightarrow> 's \<times> 'x option" where
  "InitGenesis E k s genState = ItemSet E (k_Params k) s (gs_Params genState)"

definition ExportGenesis ::
  "('s, 'x, Params) sdk \<Rightarrow> keeper \<Rightarrow> 's \<Rightarrow> 'x + GenesisState" where
  "ExportGenesis E k s =
     (let genesis = DefaultGenesis;
          (params, err) = ItemGet E (k_Params k) s;
          genesis = genesis\<lparr>gs_Params := params\<rparr>
      in case err of Some e \<Rightarrow> Inl e | None \<Rightarrow> Inr genesis)"

section \<open>What an item relies on in its codec\<close>

locale value_codec =
  fixes encode :: "'v \<Rightarrow> perr + byte list" and decode_value :: "byte list \<Rightarrow> perr + 'v"
  assumes encode_total: "\<exists>bz. encode v = Inr bz"
    and decode_encode: "encode v = Inr bz \<Longrightarrow> decode_value bz = Inr v"
begin

lemma get_after_set:
  assumes "item_law E" "item_encode it = encode" "item_decode it = decode_value"
    and "ItemSet E it s v = (s', None)"
  shows "ItemGet E it s' = (v, None)"
  using encode_total [of v] decode_encode [of v] assms unfolding item_law_def by metis

end

interpretation params_codec: value_codec Params_Marshal "Params_Unmarshal Params_zero"
  by unfold_locales (simp_all add: Params_Marshal_empty Params_roundtrip)

lemma params_item_simps [simp]:
  "item_encode params_item = Params_Marshal"
  "item_decode params_item = Params_Unmarshal Params_zero"
  by (simp_all add: params_item_def)

lemmas params_get_after_set =
  params_codec.get_after_set [of _ params_item, OF _ params_item_simps]

lemma NewKeeper_Inr:
  "NewKeeper E auth = Inr k \<longleftrightarrow>
    (\<exists>str. BytesToString E auth = Inr str) \<and> SchemaBuild E [params_item] = None
    \<and> k = \<lparr>k_authority = auth, k_Params = params_item\<rparr>"
  by (auto simp: NewKeeper_def Let_def split: sum.splits option.splits)

lemma UpdateParams_authorized:
  assumes "StringToBytes E (mup_Authority req) = Inr (k_authority k)"
  shows "UpdateParams E k s req =
    (case ItemSet E (k_Params k) s (mup_Params req) of
       (s', Some err) \<Rightarrow> (s', Inl (External err))
     | (s', None) \<Rightarrow> (s', Inr MsgUpdateParamsResponse_struct))"
  using assms by (simp add: UpdateParams_def GetAuthority_def Params_Validate_def)

lemma UpdateParams_Inr:
  assumes "UpdateParams E k s req = (s', Inr resp)"
  shows "StringToBytes E (mup_Authority req) = Inr (k_authority k)"
    and "ItemSet E (k_Params k) s (mup_Params req) = (s', None)"
  using assms
  by (auto simp: UpdateParams_def GetAuthority_def Params_Validate_def Let_def
      split: sum.splits if_splits prod.splits option.splits)

lemma genesis_stored:
  assumes "item_law E" "NewKeeper E auth = Inr k" "InitGenesis E k s gs = (s', None)"
  shows "ExportGenesis E k s' = Inr gs"
proof -
  have k: "k_Params k = params_item" using assms(2) by (simp add: NewKeeper_Inr)
  with assms(1,3) have "ItemGet E params_item s' = (gs_Params gs, None)"
    by (intro params_get_after_set) (simp_all add: InitGenesis_def)
  with k show ?thesis by (simp add: ExportGenesis_def DefaultGenesis_def)
qed

section \<open>A concrete SDK for the witnesses\<close>

text \<open>
  A store that maps prefixes to bytes and an address codec that takes the bytes of a non-empty
  string for its address: one environment in which the laws hold.
\<close>

datatype sample_err = SampleEmpty | SampleNotFound | SampleEncoding perr

definition sample_sdk :: "(string \<Rightarrow> byte list option, sample_err, Params) sdk" where
  "sample_sdk = \<lparr>
     StringToBytes = (\<lambda>str. if str = '''' then Inl SampleEmpty else Inr (bytes_of str)),
     BytesToString = (\<lambda>bz. if bz = [] then Inl SampleEmpty else Inr (string_of bz)),
     ItemGet = (\<lambda>it s. case s (item_prefix it) of
         None \<Rightarrow> (Params_zero, Some SampleNotFound)
       | Some bz \<Rightarrow> (case item_decode it bz of
           Inl e \<Rightarrow> (Params_zero, Some (SampleEncoding e)) | Inr v \<Rightarrow> (v, None))),
     ItemSet = (\<lambda>it s v. case item_encode it v of
         Inl e \<Rightarrow> (s, Some (SampleEncoding e)) | Inr bz \<Rightarrow> (s(item_prefix it \<mapsto> bz), None)),
     SchemaBuild = (\<lambda>its. None),
     IsErrNotFound = (\<lambda>e. e = SampleNotFound) \<rparr>"

lemma sample_laws: "address_codec_law sample_sdk" "item_law sample_sdk"
proof -
  show "address_codec_law sample_sdk"
    by (auto simp: address_codec_law_def sample_sdk_def split: if_splits)
  show "item_law sample_sdk"
    by (auto simp: item_law_def sample_sdk_def)
qed

definition sample_keeper :: keeper where
  "sample_keeper = \<lparr>k_authority = bytes_of ''tat1gov'', k_Params = params_item\<rparr>"

lemma sample_keeper_simps [simp]:
  "k_Params sample_keeper = params_item" "k_authority sample_keeper = bytes_of ''tat1gov''"
  by (simp_all add: sample_keeper_def)

lemma sample_NewKeeper: "NewKeeper sample_sdk (bytes_of ''tat1gov'') = Inr sample_keeper"
  by (simp add: NewKeeper_Inr sample_keeper_def) (simp add: sample_sdk_def bytes_of_def)

lemma sample_ItemSet [simp]: "ItemSet sample_sdk params_item s v = (s(ParamsKey \<mapsto> []), None)"
  by (simp add: sample_sdk_def Params_Marshal_empty) (simp add: params_item_def)

lemma sample_StringToBytes [simp]:
  "StringToBytes sample_sdk str = (if str = '''' then Inl SampleEmpty else Inr (bytes_of str))"
  by (simp add: sample_sdk_def)

section \<open>Properties\<close>

text \<open>
  C1. Only the authority changes parameters: unless the message's authority string decodes to
  the keeper's authority bytes, \<^verbatim>\<open>UpdateParams\<close> returns an error and leaves the store alone; a
  well-formed foreign address is refused as \<^verbatim>\<open>ErrInvalidSigner\<close>.
\<close>

theorem UpdateParams_requires_authority:
  assumes "StringToBytes E (mup_Authority req) \<noteq> Inr (k_authority k)"
  shows "fst (UpdateParams E k s req) = s
    \<and> (\<exists>msg. snd (UpdateParams E k s req) =
        Inl (Wrapped (case StringToBytes E (mup_Authority req) of
               Inl err \<Rightarrow> External err | Inr _ \<Rightarrow> ErrInvalidSigner) msg))"
  using assms by (auto simp: UpdateParams_def GetAuthority_def Let_def split: sum.splits)

theorem UpdateParams_requires_authority_witness:
  "fst (UpdateParams sample_sdk sample_keeper Map.empty (sample_msg\<lparr>mup_Authority := ''tat1eve''\<rparr>))
      = Map.empty
    \<and> (\<exists>msg. snd (UpdateParams sample_sdk sample_keeper Map.empty
            (sample_msg\<lparr>mup_Authority := ''tat1eve''\<rparr>)) = Inl (Wrapped ErrInvalidSigner msg))"
  using UpdateParams_requires_authority
      [of sample_sdk "sample_msg\<lparr>mup_Authority := ''tat1eve''\<rparr>" sample_keeper Map.empty]
  by (simp add: bytes_of_def)

text \<open>
  C7. A successful \<^verbatim>\<open>UpdateParams\<close> came from the authority, and what it set is what the query
  server and the genesis export return afterwards.
\<close>

theorem UpdateParams_visible:
  assumes "item_law E" "NewKeeper E auth = Inr k" "UpdateParams E k s req = (s', Inr resp)"
  shows "StringToBytes E (mup_Authority req) = Inr auth
    \<and> Query_Params E k s' (Some q) = Inr \<lparr>qpr_Params = mup_Params req\<rparr>
    \<and> ExportGenesis E k s' = Inr \<lparr>gs_Params = mup_Params req\<rparr>"
proof -
  have k: "k = \<lparr>k_authority = auth, k_Params = params_item\<rparr>"
    using assms(2) by (simp add: NewKeeper_Inr)
  have auth: "StringToBytes E (mup_Authority req) = Inr auth"
    and set: "ItemSet E params_item s (mup_Params req) = (s', None)"
    using UpdateParams_Inr [OF assms(3)] by (simp_all add: k)
  have "ItemGet E params_item s' = (mup_Params req, None)"
    by (rule params_get_after_set [OF assms(1) set])
  with auth show ?thesis by (simp add: Query_Params_def ExportGenesis_def k DefaultGenesis_def)
qed

lemma sample_update:
  "UpdateParams sample_sdk sample_keeper Map.empty sample_msg
    = ([ParamsKey \<mapsto> []], Inr MsgUpdateParamsResponse_struct)"
  by (simp add: UpdateParams_authorized sample_msg_def)

theorem UpdateParams_visible_witness:
  "StringToBytes sample_sdk (mup_Authority sample_msg) = Inr (bytes_of ''tat1gov'')
    \<and> Query_Params sample_sdk sample_keeper [ParamsKey \<mapsto> []] (Some QueryParamsRequest_struct)
      = Inr \<lparr>qpr_Params = mup_Params sample_msg\<rparr>
    \<and> ExportGenesis sample_sdk sample_keeper [ParamsKey \<mapsto> []] = Inr \<lparr>gs_Params = mup_Params sample_msg\<rparr>"
  by (rule UpdateParams_visible [OF sample_laws(2) sample_NewKeeper sample_update])

text \<open>
  Genesis round trip: what \<^verbatim>\<open>InitGenesis\<close> stored without error, \<^verbatim>\<open>ExportGenesis\<close> returns.
\<close>

theorem genesis_roundtrip:
  assumes "item_law E" "NewKeeper E auth = Inr k" "InitGenesis E k s gs = (s', None)"
  shows "ExportGenesis E k s' = Inr gs"
  by (rule genesis_stored [OF assms])

theorem genesis_roundtrip_witness:
  "ExportGenesis sample_sdk sample_keeper [ParamsKey \<mapsto> []] = Inr DefaultGenesis"
  by (rule genesis_roundtrip [OF sample_laws(2) sample_NewKeeper, of Map.empty])
     (simp add: InitGenesis_def)

text \<open>
  C32. The keeper is not locked out of updates: for an authority of 1 to 255 bytes, the check in \<^verbatim>\<open>NewKeeper\<close>
  leaves an authority string that \<^verbatim>\<open>UpdateParams\<close> accepts, so that its outcome is that of the store alone. (The check
  alone does not show this: the codec also turns empty bytes into a string, but does not read it back.)
\<close>

theorem authority_accepted:
  assumes "address_codec_law E" "NewKeeper E auth = Inr k" "auth \<noteq> []" "length auth \<le> 255"
  shows "\<exists>str. BytesToString E auth = Inr str \<and>
    (\<forall>s p. UpdateParams E k s \<lparr>mup_Authority = str, mup_Params = p\<rparr> =
      (case ItemSet E params_item s p of
         (s', Some err) \<Rightarrow> (s', Inl (External err))
       | (s', None) \<Rightarrow> (s', Inr MsgUpdateParamsResponse_struct)))"
proof -
  from assms(2) obtain str where str: "BytesToString E auth = Inr str"
    and k: "k = \<lparr>k_authority = auth, k_Params = params_item\<rparr>"
    by (auto simp: NewKeeper_Inr)
  with assms(1,3,4) have "StringToBytes E str = Inr auth" by (simp add: address_codec_law_def)
  then show ?thesis using str k by (intro exI [of _ str]) (simp add: UpdateParams_authorized)
qed

theorem authority_accepted_witness:
  "\<exists>str. BytesToString sample_sdk (bytes_of ''tat1gov'') = Inr str \<and>
    (\<forall>s p. UpdateParams sample_sdk sample_keeper s \<lparr>mup_Authority = str, mup_Params = p\<rparr> =
      (case ItemSet sample_sdk params_item s p of
         (s', Some err) \<Rightarrow> (s', Inl (External err))
       | (s', None) \<Rightarrow> (s', Inr MsgUpdateParamsResponse_struct)))"
  by (rule authority_accepted [OF sample_laws(1) sample_NewKeeper]) (simp_all add: bytes_of_def)

end
