(* ===== verification/AppModule.thy ===== *)
theory AppModule
  imports Keeper
begin

text \<open>
  The module around the keeper (x/tatcore/module) and its service plumbing (the gRPC handlers,
  clients and gateway requests of tx.pb.go, query.pb.go and query.pb.gw.go). The JSON codec,
  the resolution of module addresses and the gRPC runtime are parameters. \<open>chain_state\<close> are the
  store states the module's entry points can produce over the life of a chain.
\<close>

section \<open>The module's entry points (module.go)\<close>

record ('j, 'x) json_codec =
  MarshalJSON :: "GenesisState \<Rightarrow> 'x + 'j"
  UnmarshalJSON :: "'j \<Rightarrow> 'x + GenesisState"

definition AppModule_Name :: string where
  "AppModule_Name = ModuleName"

definition AppModule_DefaultGenesis :: "('j, 'x) json_codec \<Rightarrow> 'x kpanic + 'j" where
  "AppModule_DefaultGenesis J =
     (case MarshalJSON J DefaultGenesis of
        Inl err \<Rightarrow> Inl (GenesisPanic '''' (External err))
      | Inr bz \<Rightarrow> Inr bz)"

definition AppModule_ValidateGenesis :: "('j, 'x) json_codec \<Rightarrow> 'j \<Rightarrow> 'x kerr option" where
  "AppModule_ValidateGenesis J bz =
     (case UnmarshalJSON J bz of
        Inl err \<Rightarrow> Some (Wrapped (External err)
          (''failed to unmarshal '' @ ModuleName @ '' genesis state''))
      | Inr genState \<Rightarrow> GenesisState_Validate genState)"

definition AppModule_InitGenesis ::
  "('s, 'x, Params) sdk \<Rightarrow> ('j, 'x) json_codec \<Rightarrow> keeper \<Rightarrow> 's \<Rightarrow> 'j \<Rightarrow> 'x kpanic + 's" where
  "AppModule_InitGenesis E J k s gs =
     (case UnmarshalJSON J gs of
        Inl err \<Rightarrow> Inl (GenesisPanic
          (''failed to unmarshal '' @ ModuleName @ '' genesis state'') (External err))
      | Inr genState \<Rightarrow>
          (case InitGenesis E k s genState of
             (s', Some err) \<Rightarrow> Inl (GenesisPanic
               (''failed to initialize '' @ ModuleName @ '' genesis state'') (External err))
           | (s', None) \<Rightarrow> Inr s'))"

definition AppModule_ExportGenesis ::
  "('s, 'x, Params) sdk \<Rightarrow> ('j, 'x) json_codec \<Rightarrow> keeper \<Rightarrow> 's \<Rightarrow> 'x kpanic + 'j" where
  "AppModule_ExportGenesis E J k s =
     (case ExportGenesis E k s of
        Inl err \<Rightarrow> Inl (GenesisPanic
          (''failed to export '' @ ModuleName @ '' genesis state'') (External err))
      | Inr genState \<Rightarrow>
          (case MarshalJSON J genState of
             Inl err \<Rightarrow> Inl (GenesisPanic
               (''failed to marshal '' @ ModuleName @ '' genesis state'') (External err))
           | Inr bz \<Rightarrow> Inr bz))"

definition ConsensusVersion :: u64 where
  "ConsensusVersion = 1"

definition BeginBlock :: "'s \<Rightarrow> 's \<times> 'x kerr option" where
  "BeginBlock s = (s, None)"

definition EndBlock :: "'s \<Rightarrow> 's \<times> 'x kerr option" where
  "EndBlock s = (s, None)"

section \<open>Wiring (depinject.go) and simulation (simulation.go)\<close>

text \<open>\<^verbatim>\<open>authtypes.NewModuleAddress\<close> and \<^verbatim>\<open>NewModuleAddressOrBech32Address\<close>\<close>

record auth_types =
  NewModuleAddress :: "string \<Rightarrow> byte list"
  NewModuleAddressOrBech32Address :: "string \<Rightarrow> byte list"

definition module_authority :: "auth_types \<Rightarrow> Module \<Rightarrow> byte list" where
  "module_authority A config =
     (let auth = NewModuleAddress A GovModuleName in
      if mod_Authority config \<noteq> '''' then NewModuleAddressOrBech32Address A (mod_Authority config)
      else auth)"

definition ProvideModule ::
  "auth_types \<Rightarrow> ('s, 'x, Params) sdk \<Rightarrow> Module \<Rightarrow> 'x kpanic + keeper" where
  "ProvideModule A E config = NewKeeper E (module_authority A config)"

definition GenerateGenesisState ::
  "('j, 'x) json_codec \<Rightarrow> (string \<Rightarrow> 'j option) \<Rightarrow> 'x kpanic + (string \<Rightarrow> 'j option)" where
  "GenerateGenesisState J genState =
     (case MarshalJSON J \<lparr>gs_Params = DefaultParams\<rparr> of
        Inl err \<Rightarrow> Inl (GenesisPanic '''' (External err))
      | Inr bz \<Rightarrow> Inr (genState(ModuleName \<mapsto> bz)))"

section \<open>gRPC plumbing\<close>

text \<open>
  A handler decodes the request into a zero message with \<open>dec\<close> and calls the server, through
  the interceptor if there is one. \<open>'q\<close> is the request, \<open>'r\<close> the response, \<open>'e\<close> the errors.
\<close>

type_synonym ('s, 'q, 'r, 'e) server = "'s \<Rightarrow> 'q \<Rightarrow> 's \<times> ('e + 'r)"
type_synonym ('s, 'q, 'r, 'e) interceptor =
  "'q \<Rightarrow> string \<Rightarrow> ('s, 'q, 'r, 'e) server \<Rightarrow> 's \<Rightarrow> 's \<times> ('e + 'r)"

definition Msg_UpdateParams_Handler ::
  "('s, MsgUpdateParams, 'r, 'e) server \<Rightarrow> (MsgUpdateParams \<Rightarrow> 'e + MsgUpdateParams)
    \<Rightarrow> ('s, MsgUpdateParams, 'r, 'e) interceptor option \<Rightarrow> 's \<Rightarrow> 's \<times> ('e + 'r)" where
  "Msg_UpdateParams_Handler srv dec interceptor s =
     (case dec MsgUpdateParams_zero of
        Inl err \<Rightarrow> (s, Inl err)
      | Inr req \<Rightarrow>
          (case interceptor of
             None \<Rightarrow> srv s req
           | Some ic \<Rightarrow> ic req ''/tatcore.tatcore.v1.Msg/UpdateParams'' srv s))"

definition Query_Params_Handler ::
  "('s, QueryParamsRequest, 'r, 'e) server \<Rightarrow> (QueryParamsRequest \<Rightarrow> 'e + QueryParamsRequest)
    \<Rightarrow> ('s, QueryParamsRequest, 'r, 'e) interceptor option \<Rightarrow> 's \<Rightarrow> 's \<times> ('e + 'r)" where
  "Query_Params_Handler srv dec interceptor s =
     (case dec QueryParamsRequest_struct of
        Inl err \<Rightarrow> (s, Inl err)
      | Inr req \<Rightarrow>
          (case interceptor of
             None \<Rightarrow> srv s req
           | Some ic \<Rightarrow> ic req ''/tatcore.tatcore.v1.Query/Params'' srv s))"

text \<open>The clients send the request to a method path over the connection's \<^verbatim>\<open>Invoke\<close>.\<close>

definition msgClient_UpdateParams :: "(string \<Rightarrow> MsgUpdateParams \<Rightarrow> 'r) \<Rightarrow> MsgUpdateParams \<Rightarrow> 'r" where
  "msgClient_UpdateParams Invoke q = Invoke ''/tatcore.tatcore.v1.Msg/UpdateParams'' q"

definition queryClient_Params :: "(string \<Rightarrow> QueryParamsRequest \<Rightarrow> 'r) \<Rightarrow> QueryParamsRequest \<Rightarrow> 'r" where
  "queryClient_Params Invoke q = Invoke ''/tatcore.tatcore.v1.Query/Params'' q"

record service_desc =
  ServiceName :: string
  MethodNames :: "string list"

definition Msg_serviceDesc :: service_desc where
  "Msg_serviceDesc = \<lparr>ServiceName = ''tatcore.tatcore.v1.Msg'', MethodNames = [''UpdateParams'']\<rparr>"

definition Query_serviceDesc :: service_desc where
  "Query_serviceDesc = \<lparr>ServiceName = ''tatcore.tatcore.v1.Query'', MethodNames = [''Params'']\<rparr>"

text \<open>\<^verbatim>\<open>AutoCLIOptions\<close>: the query service and the transaction service with the commands made for their methods\<close>

record rpc_command =
  RpcMethod :: string
  RpcUse :: string
  RpcShort :: string
  Skip :: bool

record service_commands =
  Service :: string
  EnhanceCustomCommand :: bool
  RpcCommandOptions :: "rpc_command list"

record module_options =
  Query :: service_commands
  Tx :: service_commands

definition AutoCLIOptions :: module_options where
  "AutoCLIOptions = \<lparr>
     Query = \<lparr>Service = ServiceName Query_serviceDesc, EnhanceCustomCommand = False,
       RpcCommandOptions = [\<lparr>RpcMethod = ''Params'', RpcUse = ''params'',
         RpcShort = ''Shows the parameters of the module'', Skip = False\<rparr>]\<rparr>,
     Tx = \<lparr>Service = ServiceName Msg_serviceDesc, EnhanceCustomCommand = True,
       RpcCommandOptions = [\<lparr>RpcMethod = ''UpdateParams'', RpcUse = '''', RpcShort = '''', Skip = True\<rparr>]\<rparr>\<rparr>"

text \<open>
  The gateway's request functions pass on a zero request; \<open>client\<close> and \<open>server\<close> are the
  \<^verbatim>\<open>Params\<close> methods of the generated client and of the query server.
\<close>

definition request_Query_Params_0 ::
  "('c \<Rightarrow> QueryParamsRequest option \<Rightarrow> 'e + 'r) \<Rightarrow> 'c \<Rightarrow> 'e + 'r" where
  "request_Query_Params_0 client ctx = client ctx (Some QueryParamsRequest_struct)"

definition local_request_Query_Params_0 ::
  "('c \<Rightarrow> QueryParamsRequest option \<Rightarrow> 'e + 'r) \<Rightarrow> 'c \<Rightarrow> 'e + 'r" where
  "local_request_Query_Params_0 server ctx = server ctx (Some QueryParamsRequest_struct)"

text \<open>What the handler does with the HTTP request: one of the runtime's two ways to answer it.\<close>

datatype ('e, 'r) http_reply = HTTPError 'e | ForwardResponse 'r

definition RegisterQueryHandlerServer ::
  "('h \<Rightarrow> 'e + 'c) \<Rightarrow> ('c \<Rightarrow> QueryParamsRequest option \<Rightarrow> 'e + 'r) \<Rightarrow> 'h \<Rightarrow> ('e, 'r) http_reply" where
  "RegisterQueryHandlerServer AnnotateIncomingContext server req =
     (case AnnotateIncomingContext req of
        Inl err \<Rightarrow> HTTPError err
      | Inr rctx \<Rightarrow>
         (case local_request_Query_Params_0 server rctx of
            Inl err \<Rightarrow> HTTPError err
          | Inr resp \<Rightarrow> ForwardResponse resp))"

definition RegisterQueryHandlerClient ::
  "('h \<Rightarrow> 'e + 'c) \<Rightarrow> ('c \<Rightarrow> QueryParamsRequest option \<Rightarrow> 'e + 'r) \<Rightarrow> 'h \<Rightarrow> ('e, 'r) http_reply" where
  "RegisterQueryHandlerClient AnnotateContext client req =
     (case AnnotateContext req of
        Inl err \<Rightarrow> HTTPError err
      | Inr rctx \<Rightarrow>
         (case request_Query_Params_0 client rctx of
            Inl err \<Rightarrow> HTTPError err
          | Inr resp \<Rightarrow> ForwardResponse resp))"

text \<open>
  The route: pairs of an operation code and an operand. Operation 2 (\<^verbatim>\<open>OpLitPush\<close>) matches the
  literal of the pool with that index.
\<close>

definition pattern_Query_Params_0 :: "nat list \<times> string list" where
  "pattern_Query_Params_0 =
     ([2, 0, 2, 1, 2, 1, 2, 2, 2, 3], [''alltest0777'', ''tatcore'', ''v1'', ''params''])"

section \<open>The states of a chain\<close>

text \<open>
  The store after genesis, after the block hooks and after transactions. A transaction whose
  message fails is discarded by the SDK, so it leaves the store as it was.
\<close>

inductive chain_state ::
  "('s, 'x, Params) sdk \<Rightarrow> ('j, 'x) json_codec \<Rightarrow> keeper \<Rightarrow> 's \<Rightarrow> 's \<Rightarrow> bool"
  for E :: "('s, 'x, Params) sdk" and J :: "('j, 'x) json_codec" and k s0 where
  genesis: "AppModule_InitGenesis E J k s0 gs = Inr s \<Longrightarrow> chain_state E J k s0 s"
| begin_block: "chain_state E J k s0 s \<Longrightarrow> BeginBlock s = (s', None :: 'x kerr option) \<Longrightarrow> chain_state E J k s0 s'"
| end_block: "chain_state E J k s0 s \<Longrightarrow> EndBlock s = (s', None :: 'x kerr option) \<Longrightarrow> chain_state E J k s0 s'"
| update: "chain_state E J k s0 s \<Longrightarrow> UpdateParams E k s req = (s', Inr resp) \<Longrightarrow>
    chain_state E J k s0 s'"

definition params_stored :: "('s, 'x, Params) sdk \<Rightarrow> 's \<Rightarrow> bool" where
  "params_stored E s \<longleftrightarrow> (\<exists>p. ItemGet E params_item s = (p, None))"

lemma chain_state_params:
  assumes "item_law E" "NewKeeper E auth = Inr k" "chain_state E J k s0 s"
  shows "params_stored E s"
  using assms(3)
proof (induction rule: chain_state.induct)
  case (genesis gs s)
  then obtain g where "InitGenesis E k s0 g = (s, None)"
    by (auto simp: AppModule_InitGenesis_def split: sum.splits prod.splits option.splits)
  then have "ItemSet E params_item s0 (gs_Params g) = (s, None)"
    using assms(2) by (simp add: InitGenesis_def NewKeeper_Inr)
  then show ?case
    using params_get_after_set [OF assms(1)] unfolding params_stored_def by blast
next
  case (update s req s' resp)
  from UpdateParams_Inr(2) [OF update.hyps(2)]
  have "ItemSet E params_item s (mup_Params req) = (s', None)"
    using assms(2) by (simp add: NewKeeper_Inr)
  then show ?case
    using params_get_after_set [OF assms(1)] unfolding params_stored_def by blast
qed (simp_all add: BeginBlock_def EndBlock_def)

text \<open>The JSON codec decodes what it encoded.\<close>

definition json_law :: "('j, 'x) json_codec \<Rightarrow> bool" where
  "json_law J \<longleftrightarrow> (\<forall>gs bz. MarshalJSON J gs = Inr bz \<longrightarrow> UnmarshalJSON J bz = Inr gs)"

lemma params_stored_reads:
  assumes "params_stored E s" "k_Params k = params_item"
  shows "\<exists>p. Query_Params E k s (Some q) = Inr \<lparr>qpr_Params = p\<rparr> \<and> ExportGenesis E k s = Inr \<lparr>gs_Params = p\<rparr>"
  using assms by (auto simp: params_stored_def Query_Params_def ExportGenesis_def DefaultGenesis_def)

lemma AppModule_InitGenesis_Inr:
  "AppModule_InitGenesis E J k s bz = Inr s' \<longleftrightarrow>
    (\<exists>gs. UnmarshalJSON J bz = Inr gs \<and> InitGenesis E k s gs = (s', None))"
  by (auto simp: AppModule_InitGenesis_def split: sum.splits prod.splits option.splits)

lemma AppModule_ExportGenesis_Inr:
  "AppModule_ExportGenesis E J k s = Inr bz \<longleftrightarrow>
    (\<exists>gs. ExportGenesis E k s = Inr gs \<and> MarshalJSON J gs = Inr bz)"
  by (auto simp: AppModule_ExportGenesis_def split: sum.splits)

section \<open>A concrete codec for the witnesses\<close>

definition sample_json :: "(string, sample_err) json_codec" where
  "sample_json = \<lparr>MarshalJSON = (\<lambda>gs. Inr ''{}''),
     UnmarshalJSON = (\<lambda>bz. if bz = ''{}'' then Inr DefaultGenesis else Inl SampleEmpty)\<rparr>"

lemma GenesisState_single: "gs = (\<lparr>gs_Params = Params_struct\<rparr> :: GenesisState)"
  by (cases gs; cases "gs_Params gs") simp

lemma sample_json_law: "json_law sample_json"
  unfolding json_law_def sample_json_def
  by (auto simp: DefaultGenesis_def DefaultParams_def NewParams_def intro: GenesisState_single [symmetric])

lemma sample_genesis:
  "AppModule_InitGenesis sample_sdk sample_json sample_keeper Map.empty ''{}'' = Inr [ParamsKey \<mapsto> []]"
  by (simp add: AppModule_InitGenesis_Inr InitGenesis_def) (simp add: sample_json_def)

lemma sample_update_again:
  "UpdateParams sample_sdk sample_keeper [ParamsKey \<mapsto> []] sample_msg
    = ([ParamsKey \<mapsto> []], Inr MsgUpdateParamsResponse_struct)"
  by (simp add: UpdateParams_authorized sample_msg_def)

lemma sample_chain_state: "chain_state sample_sdk sample_json sample_keeper Map.empty [ParamsKey \<mapsto> []]"
  by (rule chain_state.end_block [OF chain_state.update
        [OF chain_state.begin_block [OF chain_state.genesis [OF sample_genesis]] sample_update_again]])
     (simp_all add: BeginBlock_def EndBlock_def)

section \<open>Properties\<close>

text \<open>
  C10. In every state a chain reaches from a genesis it accepted, whatever transactions it
  processed, the parameters can be read: the query server answers without error, and the
  module's genesis export hands the same parameters to the JSON codec instead of panicking.
\<close>

theorem chain_state_reads:
  assumes "item_law E" "NewKeeper E auth = Inr k" "chain_state E J k s0 s"
  shows "\<exists>p. Query_Params E k s (Some q) = Inr \<lparr>qpr_Params = p\<rparr>
    \<and> AppModule_ExportGenesis E J k s =
        (case MarshalJSON J \<lparr>gs_Params = p\<rparr> of
           Inl err \<Rightarrow> Inl (GenesisPanic ''failed to marshal tatcore genesis state'' (External err))
         | Inr bz \<Rightarrow> Inr bz)"
proof -
  have "k_Params k = params_item" using assms(2) by (simp add: NewKeeper_Inr)
  from params_stored_reads [OF chain_state_params [OF assms] this, of q] obtain p where
    "Query_Params E k s (Some q) = Inr \<lparr>qpr_Params = p\<rparr>" "ExportGenesis E k s = Inr \<lparr>gs_Params = p\<rparr>"
    by blast
  then show ?thesis
    by (intro exI [of _ p]) (simp add: AppModule_ExportGenesis_def ModuleName_def split: sum.split)
qed

theorem chain_state_reads_witness:
  "\<exists>p. Query_Params sample_sdk sample_keeper [ParamsKey \<mapsto> []] (Some QueryParamsRequest_struct)
      = Inr \<lparr>qpr_Params = p\<rparr>
    \<and> AppModule_ExportGenesis sample_sdk sample_json sample_keeper [ParamsKey \<mapsto> []] =
        (case MarshalJSON sample_json \<lparr>gs_Params = p\<rparr> of
           Inl err \<Rightarrow> Inl (GenesisPanic ''failed to marshal tatcore genesis state'' (External err))
         | Inr bz \<Rightarrow> Inr bz)"
  by (rule chain_state_reads [OF sample_laws(2) sample_NewKeeper sample_chain_state])

text \<open>
  C12. A chain can be restarted from its own export: the exported JSON passes the module's
  validation, the import into a fresh store fails only if the store does, and the new chain
  exports the same JSON.
\<close>

theorem export_import:
  assumes "item_law E" "json_law J" "NewKeeper E auth = Inr k"
    and "AppModule_ExportGenesis E J k s = Inr bz"
  shows "AppModule_ValidateGenesis J bz = None
    \<and> (\<forall>s1. case AppModule_InitGenesis E J k s1 bz of
          Inr s2 \<Rightarrow> AppModule_ExportGenesis E J k s2 = Inr bz
        | Inl _ \<Rightarrow> \<exists>gs s2 err. UnmarshalJSON J bz = Inr gs
            \<and> ItemSet E (k_Params k) s1 (gs_Params gs) = (s2, Some err))"
proof -
  obtain gs where json: "MarshalJSON J gs = Inr bz"
    using assms(4) by (auto simp: AppModule_ExportGenesis_Inr)
  then have parse: "UnmarshalJSON J bz = Inr gs" using assms(2) by (simp add: json_law_def)
  have "AppModule_ExportGenesis E J k s2 = Inr bz" if "AppModule_InitGenesis E J k s1 bz = Inr s2" for s1 s2
    using that parse json genesis_stored [OF assms(1,3)]
    by (auto simp: AppModule_InitGenesis_Inr AppModule_ExportGenesis_Inr)
  moreover have "\<exists>s2 err. ItemSet E (k_Params k) s1 (gs_Params gs) = (s2, Some err)"
    if "AppModule_InitGenesis E J k s1 bz = Inl e" for s1 e
    using that parse
    by (auto simp: AppModule_InitGenesis_def InitGenesis_def split: prod.splits option.splits)
  moreover have "AppModule_ValidateGenesis J bz = None"
    using parse by (simp add: AppModule_ValidateGenesis_def GenesisState_Validate_def Params_Validate_def)
  ultimately show ?thesis using parse by (fastforce split: sum.splits)
qed

lemma sample_export:
  "AppModule_ExportGenesis sample_sdk sample_json sample_keeper [ParamsKey \<mapsto> []] = Inr ''{}''"
  using chain_state_params [OF sample_laws(2) sample_NewKeeper sample_chain_state]
  by (auto simp: AppModule_ExportGenesis_Inr sample_json_def dest!: params_stored_reads)

theorem export_import_witness:
  "AppModule_ValidateGenesis sample_json ''{}'' = None
    \<and> (\<forall>s1. case AppModule_InitGenesis sample_sdk sample_json sample_keeper s1 ''{}'' of
          Inr s2 \<Rightarrow> AppModule_ExportGenesis sample_sdk sample_json sample_keeper s2 = Inr ''{}''
        | Inl _ \<Rightarrow> \<exists>gs s2 err. UnmarshalJSON sample_json ''{}'' = Inr gs
            \<and> ItemSet sample_sdk (k_Params sample_keeper) s1 (gs_Params gs) = (s2, Some err))"
  by (rule export_import [OF sample_laws(2) sample_json_law sample_NewKeeper sample_export])

text \<open>
  Without a configured authority the module answers to governance: the keeper that
  \<^verbatim>\<open>ProvideModule\<close> builds holds the address of the gov module, and only messages whose authority
  decodes to that address succeed. A configured authority replaces it.
\<close>

theorem ProvideModule_authority:
  assumes "ProvideModule A E config = Inr k"
  shows "GetAuthority k = (if mod_Authority config = '''' then NewModuleAddress A ''gov''
                           else NewModuleAddressOrBech32Address A (mod_Authority config))
    \<and> (\<forall>s req s' resp. UpdateParams E k s req = (s', Inr resp) \<longrightarrow>
         StringToBytes E (mup_Authority req) = Inr (GetAuthority k))"
  using assms UpdateParams_Inr(1) [of E k]
  by (auto simp: ProvideModule_def NewKeeper_Inr module_authority_def GetAuthority_def GovModuleName_def)

definition sample_auth :: auth_types where
  "sample_auth = \<lparr>NewModuleAddress = (\<lambda>name. bytes_of (''module/'' @ name)),
     NewModuleAddressOrBech32Address = bytes_of\<rparr>"

lemma sample_ProvideModule:
  "ProvideModule sample_auth sample_sdk \<lparr>mod_Authority = ''tat1gov''\<rparr> = Inr sample_keeper"
  by (simp add: ProvideModule_def module_authority_def sample_NewKeeper) (simp add: sample_auth_def sample_NewKeeper)

theorem ProvideModule_authority_witness:
  "GetAuthority sample_keeper = bytes_of ''tat1gov''
    \<and> StringToBytes sample_sdk (mup_Authority sample_msg) = Inr (GetAuthority sample_keeper)"
proof
  note p = ProvideModule_authority [OF sample_ProvideModule]
  show "GetAuthority sample_keeper = bytes_of ''tat1gov''"
    using p [THEN conjunct1] by (simp add: sample_auth_def)
  show "StringToBytes sample_sdk (mup_Authority sample_msg) = Inr (GetAuthority sample_keeper)"
    using p [THEN conjunct2] sample_update_again by blast
qed

text \<open>
  The generated names agree: the clients call \<^verbatim>\<open>/service/method\<close> for the method their
  service describes, an interceptor on the server is told the same path, and the command-line
  options cover exactly the methods of the two services, with \<^verbatim>\<open>UpdateParams\<close> the only one skipped.
\<close>

definition full_method :: "service_desc \<Rightarrow> string \<Rightarrow> string" where
  "full_method d m = ''/'' @ ServiceName d @ ''/'' @ m"

theorem method_names_agree:
  "[msgClient_UpdateParams (\<lambda>path _. path) q1] = map (full_method Msg_serviceDesc) (MethodNames Msg_serviceDesc)
    \<and> [queryClient_Params (\<lambda>path _. path) q2] = map (full_method Query_serviceDesc) (MethodNames Query_serviceDesc)
    \<and> Msg_UpdateParams_Handler srv1 (\<lambda>m. Inr m) (Some (\<lambda>req path h s. (s, Inr (path, req)))) s1
        = (s1, Inr (full_method Msg_serviceDesc ''UpdateParams'', MsgUpdateParams_zero))
    \<and> Query_Params_Handler srv2 (\<lambda>m. Inr m) (Some (\<lambda>req path h s. (s, Inr (path, req)))) s2
        = (s2, Inr (full_method Query_serviceDesc ''Params'', QueryParamsRequest_struct))
    \<and> map (\<lambda>c. (Service c, map RpcMethod (RpcCommandOptions c))) [Query AutoCLIOptions, Tx AutoCLIOptions]
        = map (\<lambda>d. (ServiceName d, MethodNames d)) [Query_serviceDesc, Msg_serviceDesc]
    \<and> map RpcMethod (filter Skip (RpcCommandOptions (Query AutoCLIOptions) @ RpcCommandOptions (Tx AutoCLIOptions)))
        = [''UpdateParams'']"
  by (simp add: msgClient_UpdateParams_def queryClient_Params_def full_method_def Msg_serviceDesc_def
      Query_serviceDesc_def Msg_UpdateParams_Handler_def Query_Params_Handler_def AutoCLIOptions_def)

text \<open>
  The REST route serves the parameters of every reachable chain state: whatever HTTP
  request the runtime can annotate, the handler over the module's query server forwards the
  stored parameters; the only error it can answer is the annotation's.
\<close>

theorem rest_query:
  assumes "item_law E" "NewKeeper E auth = Inr k" "chain_state E J k s0 s"
  shows "\<exists>p. ExportGenesis E k s = Inr \<lparr>gs_Params = p\<rparr> \<and>
    (\<forall>req. RegisterQueryHandlerServer annotate (\<lambda>ctx. Query_Params E k s) req =
      (case annotate req of Inl err \<Rightarrow> HTTPError err | Inr _ \<Rightarrow> ForwardResponse \<lparr>qpr_Params = p\<rparr>))"
proof -
  have "k_Params k = params_item" using assms(2) by (simp add: NewKeeper_Inr)
  from params_stored_reads [OF chain_state_params [OF assms] this, of QueryParamsRequest_struct]
  show ?thesis
    by (auto simp: RegisterQueryHandlerServer_def local_request_Query_Params_0_def split: sum.splits)
qed

theorem rest_query_witness:
  "\<exists>p. ExportGenesis sample_sdk sample_keeper [ParamsKey \<mapsto> []] = Inr \<lparr>gs_Params = p\<rparr> \<and>
    (\<forall>req :: nat. RegisterQueryHandlerServer (\<lambda>req. if req = 0 then Inl ErrInvalidSigner else Inr req)
        (\<lambda>ctx. Query_Params sample_sdk sample_keeper [ParamsKey \<mapsto> []]) req =
      (case (if req = 0 then Inl ErrInvalidSigner else Inr req) of
         Inl err \<Rightarrow> HTTPError err | Inr _ \<Rightarrow> ForwardResponse \<lparr>qpr_Params = p\<rparr>))"
  by (rule rest_query [OF sample_laws(2) sample_NewKeeper sample_chain_state])

end
