(* ===== verification/Services.thy ===== *)
theory Services
  imports AppModule Effects
begin

text \<open>
  The module behind the node's routers: the servers of x/tatcore/keeper (msg_server.go,
  query.go), the module value and its inputs (module.go, depinject.go), the registration of
  services, interfaces and REST routes (module.go, codec.go, tx.pb.go, query.pb.go,
  query.pb.gw.go). What a router does with the registrations is a parameter with its documented
  law. The properties follow a request from the path and the bytes to the store and back.
\<close>

section \<open>The servers (msg_server.go, query.go)\<close>

record msgServer =
  ms_Keeper :: keeper

definition NewMsgServerImpl :: "keeper \<Rightarrow> msgServer" where
  "NewMsgServerImpl keeper = \<lparr>ms_Keeper = keeper\<rparr>"

record queryServer =
  qs_k :: keeper

definition NewQueryServerImpl :: "keeper \<Rightarrow> queryServer" where
  "NewQueryServerImpl k = \<lparr>qs_k = k\<rparr>"

text \<open>Their methods, as the handlers call them: a request that was decoded is never nil.\<close>

definition msgServer_UpdateParams ::
  "('s, 'x, Params) sdk \<Rightarrow> msgServer \<Rightarrow> ('s, MsgUpdateParams, MsgUpdateParamsResponse, 'x kerr) server" where
  "msgServer_UpdateParams E srv = UpdateParams E (ms_Keeper srv)"

definition queryServer_Params ::
  "('s, 'x, Params) sdk \<Rightarrow> queryServer \<Rightarrow> ('s, QueryParamsRequest, QueryParamsResponse, 'x kerr) server" where
  "queryServer_Params E srv = (\<lambda>s q. (s, Query_Params E (qs_k srv) s (Some q)))"

section \<open>The module value (module.go, depinject.go)\<close>

text \<open>What the module expects of the auth and bank modules, and of a parameter subspace (expected_keepers.go)\<close>

record ('c, 'a) AuthKeeper =
  AddressCodec :: 'c
  GetAccount :: "byte list \<Rightarrow> 'a"     \<comment> \<open>only used for simulation\<close>

record 'b BankKeeper =
  SpendableCoins :: "byte list \<Rightarrow> 'b"

record ('s, 'b) ParamSubspace =
  SubspaceGet :: "'s \<Rightarrow> byte list \<Rightarrow> 'b"
  SubspaceSet :: "'s \<Rightarrow> byte list \<Rightarrow> 'b \<Rightarrow> 's"

record ('c, 'a, 'b) app_module =
  am_cdc :: 'c
  am_keeper :: keeper
  am_authKeeper :: "('c, 'a) AuthKeeper"
  am_bankKeeper :: "'b BankKeeper"

definition NewAppModule :: "'c \<Rightarrow> keeper \<Rightarrow> ('c, 'a) AuthKeeper \<Rightarrow> 'b BankKeeper \<Rightarrow> ('c, 'a, 'b) app_module" where
  "NewAppModule cdc keeper authKeeper bankKeeper =
     \<lparr>am_cdc = cdc, am_keeper = keeper, am_authKeeper = authKeeper, am_bankKeeper = bankKeeper\<rparr>"

text \<open>The store service and the address codec among the inputs are part of the record \<open>sdk\<close>.\<close>

record ('c, 'a, 'b) ModuleInputs =
  in_Config :: Module
  in_Cdc :: 'c
  in_AuthKeeper :: "('c, 'a) AuthKeeper"
  in_BankKeeper :: "'b BankKeeper"

record ('c, 'a, 'b) ModuleOutputs =
  out_TatcoreKeeper :: keeper
  out_Module :: "('c, 'a, 'b) app_module"

definition ProvideModule_outputs ::
  "auth_types \<Rightarrow> ('s, 'x, Params) sdk \<Rightarrow> ('c, 'a, 'b) ModuleInputs \<Rightarrow> 'x kpanic + ('c, 'a, 'b) ModuleOutputs" where
  "ProvideModule_outputs A E i =
     bindE (ProvideModule A E (in_Config i)) (\<lambda>k.
       let m = NewAppModule (in_Cdc i) k (in_AuthKeeper i) (in_BankKeeper i)
       in Inr \<lparr>out_TatcoreKeeper = k, out_Module = m\<rparr>)"

text \<open>The simulation hooks of the module have nothing to do (simulation.go).\<close>

definition RegisterStoreDecoder :: "'r \<Rightarrow> 'r" where
  "RegisterStoreDecoder registry = registry"

definition WeightedOperations :: "'st \<Rightarrow> 'op list" where
  "WeightedOperations simState = (let operations = [] in operations)"

definition ProposalMsgs :: "'st \<Rightarrow> 'op list" where
  "ProposalMsgs simState = []"

section \<open>Registration of the gRPC services\<close>

text \<open>
  A method takes the bytes of a request and answers with bytes; \<open>conv\<close> makes an error of the
  server from one of the codec, and \<open>ic\<close> is the router's interceptor.
\<close>

type_synonym ('s, 'e) wire_method = "'s \<Rightarrow> byte list \<Rightarrow> 's \<times> ('e + byte list)"
type_synonym ('s, 'e) registrar = "(service_desc \<times> (string \<times> ('s, 'e) wire_method) list) list"

definition encode_reply :: "(perr \<Rightarrow> 'e) \<Rightarrow> ('r \<Rightarrow> perr + byte list) \<Rightarrow> 's \<times> ('e + 'r) \<Rightarrow> 's \<times> ('e + byte list)" where
  "encode_reply conv marshal = (\<lambda>(s, r). (s, bindE r (\<lambda>resp. map_sum conv id (marshal resp))))"

definition Msg_Methods ::
  "(perr \<Rightarrow> 'e) \<Rightarrow> ('s, MsgUpdateParams, MsgUpdateParamsResponse, 'e) interceptor option
    \<Rightarrow> ('s, MsgUpdateParams, MsgUpdateParamsResponse, 'e) server \<Rightarrow> (string \<times> ('s, 'e) wire_method) list" where
  "Msg_Methods conv ic srv =
     [(''UpdateParams'', \<lambda>s bs. encode_reply conv MsgUpdateParamsResponse_Marshal
        (Msg_UpdateParams_Handler srv (\<lambda>m. map_sum conv id (MsgUpdateParams_Unmarshal m bs)) ic s))]"

definition Query_Methods ::
  "(perr \<Rightarrow> 'e) \<Rightarrow> ('s, QueryParamsRequest, QueryParamsResponse, 'e) interceptor option
    \<Rightarrow> ('s, QueryParamsRequest, QueryParamsResponse, 'e) server \<Rightarrow> (string \<times> ('s, 'e) wire_method) list" where
  "Query_Methods conv ic srv =
     [(''Params'', \<lambda>s bs. encode_reply conv QueryParamsResponse_Marshal
        (Query_Params_Handler srv (\<lambda>m. map_sum conv id (QueryParamsRequest_Unmarshal m bs)) ic s))]"

definition RegisterMsgServer where
  "RegisterMsgServer conv ic srv reg = reg @ [(Msg_serviceDesc, Msg_Methods conv ic srv)]"

definition RegisterQueryServer where
  "RegisterQueryServer conv ic srv reg = reg @ [(Query_serviceDesc, Query_Methods conv ic srv)]"

definition AppModule_RegisterServices ::
  "('s, 'x, Params) sdk \<Rightarrow> (perr \<Rightarrow> 'x kerr)
    \<Rightarrow> ('s, MsgUpdateParams, MsgUpdateParamsResponse, 'x kerr) interceptor option
    \<Rightarrow> ('s, QueryParamsRequest, QueryParamsResponse, 'x kerr) interceptor option
    \<Rightarrow> ('c, 'a, 'b) app_module \<Rightarrow> ('s, 'x kerr) registrar \<Rightarrow> ('s, 'x kerr) registrar" where
  "AppModule_RegisterServices E conv ic1 ic2 am registrar =
     (let registrar = RegisterMsgServer conv ic1 (msgServer_UpdateParams E (NewMsgServerImpl (am_keeper am))) registrar
      in RegisterQueryServer conv ic2 (queryServer_Params E (NewQueryServerImpl (am_keeper am))) registrar)"

text \<open>\<^verbatim>\<open>RegisterInterfaces\<close>: the implementations of an interface, and a service whose messages are registered\<close>

datatype interface_registration =
    RegisterImplementations string "string list"
  | RegisterMsgServiceDesc service_desc

definition RegisterInterfaces :: "interface_registration list" where
  "RegisterInterfaces =
     [RegisterImplementations ''sdk.Msg'' [''MsgUpdateParams''], RegisterMsgServiceDesc Msg_serviceDesc]"

definition AppModule_RegisterInterfaces :: "interface_registration list" where
  "AppModule_RegisterInterfaces = RegisterInterfaces"

text \<open>
  \<^verbatim>\<open>init\<close> of depinject.go registers, for the configuration type of the module, the function that the container
  calls. (The name of a type is that of its message.)
\<close>

definition depinject_init ::
  "auth_types \<Rightarrow> ('s, 'x, Params) sdk
    \<Rightarrow> (string \<times> (('c, 'a, 'b) ModuleInputs \<Rightarrow> 'x kpanic + ('c, 'a, 'b) ModuleOutputs) list) list" where
  "depinject_init A E = [(''types.Module'', [ProvideModule_outputs A E])]"

section \<open>What a router does with them\<close>

definition routes :: "('s, 'e) registrar \<Rightarrow> (string \<times> ('s, 'e) wire_method) list" where
  "routes reg = concat (map (\<lambda>(d, ms). map (\<lambda>(m, h). (full_method d m, h)) ms) reg)"

text \<open>A router finds the method of a path; an interceptor calls the handler.\<close>

definition router_law :: "(('s, 'e) registrar \<Rightarrow> string \<Rightarrow> ('s, 'e) wire_method option) \<Rightarrow> bool" where
  "router_law route \<longleftrightarrow>
     (\<forall>reg path. distinct (map fst (routes reg)) \<longrightarrow> route reg path = map_of (routes reg) path)"

definition passes :: "('s, 'q, 'r, 'e) interceptor option \<Rightarrow> bool" where
  "passes ic \<longleftrightarrow> (\<forall>i. ic = Some i \<longrightarrow> (\<forall>q path srv s. i q path srv s = srv s q))"

definition serve ::
  "(('s, 'e) registrar \<Rightarrow> string \<Rightarrow> ('s, 'e) wire_method option) \<Rightarrow> 'e \<Rightarrow> ('s, 'e) registrar
    \<Rightarrow> 's \<Rightarrow> string \<times> byte list \<Rightarrow> 's \<times> ('e + byte list)" where
  "serve route unknown reg s = (\<lambda>(path, bs). case route reg path of
       None \<Rightarrow> (s, Inl unknown)
     | Some h \<Rightarrow> h s bs)"

text \<open>A request in a transaction: the SDK discards what it wrote when it fails.\<close>

definition deliver where
  "deliver route unknown reg s request =
     (case serve route unknown reg s request of (s', Inr reply) \<Rightarrow> s' | (s', Inl err) \<Rightarrow> s)"

section \<open>The REST routes (query.pb.gw.go)\<close>

type_synonym ('h, 'e, 'r) mux = "(string \<times> (nat list \<times> string list) \<times> ('h \<Rightarrow> ('e, 'r) http_reply)) list"

definition NewQueryClient :: "('c \<Rightarrow> string \<Rightarrow> QueryParamsRequest \<Rightarrow> 'e + 'r) \<Rightarrow> 'c \<Rightarrow> QueryParamsRequest option \<Rightarrow> 'e + 'r" where
  "NewQueryClient Invoke ctx q =
     queryClient_Params (Invoke ctx) (case q of None \<Rightarrow> QueryParamsRequest_struct | Some q \<Rightarrow> q)"

text \<open>(The gateway's requests are never nil.) The registrations add one route and return no error.\<close>

definition HandleQueryClient ::
  "('h \<Rightarrow> 'e + 'c) \<Rightarrow> ('c \<Rightarrow> QueryParamsRequest option \<Rightarrow> 'e + 'r) \<Rightarrow> ('h, 'e, 'r) mux \<Rightarrow> ('h, 'e, 'r) mux \<times> 'x option" where
  "HandleQueryClient annotate client mux =
     (mux @ [(''GET'', pattern_Query_Params_0, RegisterQueryHandlerClient annotate client)], None)"

definition HandleQueryServer ::
  "('h \<Rightarrow> 'e + 'c) \<Rightarrow> ('c \<Rightarrow> QueryParamsRequest option \<Rightarrow> 'e + 'r) \<Rightarrow> ('h, 'e, 'r) mux \<Rightarrow> ('h, 'e, 'r) mux \<times> 'x option" where
  "HandleQueryServer annotate server mux =
     (mux @ [(''GET'', pattern_Query_Params_0, RegisterQueryHandlerServer annotate server)], None)"

definition RegisterQueryHandler where
  "RegisterQueryHandler annotate Invoke mux = HandleQueryClient annotate (NewQueryClient Invoke) mux"

definition RegisterGRPCGatewayRoutes ::
  "('h \<Rightarrow> 'e + 'c) \<Rightarrow> ('c \<Rightarrow> string \<Rightarrow> QueryParamsRequest \<Rightarrow> 'e + 'r) \<Rightarrow> ('h, 'e, 'r) mux \<Rightarrow> 'x + ('h, 'e, 'r) mux" where
  "RegisterGRPCGatewayRoutes annotate Invoke mux =
     (case HandleQueryClient annotate (NewQueryClient Invoke) mux of
        (mux, Some err) \<Rightarrow> Inl err
      | (mux, None) \<Rightarrow> Inr mux)"

text \<open>
  \<^verbatim>\<open>RegisterQueryHandlerFromEndpoint\<close>: the deferred function looks at the error the function is
  about to return; it closes the connection, or starts a goroutine that waits for the context and
  closes it then. \<open>register\<close> is the call of \<^verbatim>\<open>RegisterQueryHandler\<close>.
\<close>

datatype endpoint_call = Dial string | RegisterHandler | CloseConn | GoCloseWhenDone

definition RegisterQueryHandlerFromEndpoint ::
  "(endpoint_call list \<Rightarrow> endpoint_call \<Rightarrow> 'x option) \<Rightarrow> string \<Rightarrow> (endpoint_call, 'e, 'x option) prog" where
  "RegisterQueryHandlerFromEndpoint err endpoint =
     seqp (perform err (Dial endpoint)) (\<lambda>e. case e of
       Some e \<Rightarrow> ret (Some e)
     | None \<Rightarrow>
         seqp (perform err RegisterHandler) (\<lambda>e.
         seqp (case e of Some _ \<Rightarrow> perform err CloseConn | None \<Rightarrow> perform err GoCloseWhenDone) (\<lambda>_.
           ret e)))"

text \<open>The path of a pattern of literals, and what the HTTP multiplexer does with one route\<close>

fun pattern_literals :: "nat list \<Rightarrow> string list \<Rightarrow> string" where
  "pattern_literals (op # i # ops) pool = ''/'' @ pool ! i @ pattern_literals ops pool"
| "pattern_literals ops pool = ''''"

fun only_literals :: "nat list \<Rightarrow> bool" where
  "only_literals (op # i # ops) \<longleftrightarrow> op = 2 \<and> only_literals ops"
| "only_literals ops \<longleftrightarrow> ops = []"

definition literal_route :: "string \<times> (nat list \<times> string list) \<times> ('h \<Rightarrow> ('e, 'r) http_reply) \<Rightarrow> bool" where
  "literal_route = (\<lambda>(verb, (ops, pool), h). ops \<noteq> [] \<and> only_literals ops
     \<and> list_all (\<lambda>w. CHR ''/'' \<notin> set w \<and> CHR '':'' \<notin> set w) pool)"

text \<open>
  \<open>respond\<close> gives the reply of the handler that the multiplexer calls, or \<open>None\<close> when it refuses the request itself.
  A request with the verb and the path of a route is answered. What is answered, was answered by the handler of a route:
  one for the verb of the request, or any if a form is posted (the multiplexer then falls back to other verbs, and
  reads the header that overrides the verb), and for the path of the request, or this without an empty custom verb,
  a colon at the end.
\<close>

definition mux_law :: "(('h, 'e, 'r) mux \<Rightarrow> string \<Rightarrow> string \<Rightarrow> 'h \<Rightarrow> ('e, 'r) http_reply option) \<Rightarrow> bool" where
  "mux_law respond \<longleftrightarrow>
     (\<forall>mux verb path req. list_all literal_route mux \<longrightarrow>
       (\<forall>r. respond mux verb path req = Some r \<longrightarrow>
         (\<exists>v ops pool h. (v, (ops, pool), h) \<in> set mux \<and> r = h req \<and> (verb = v \<or> verb = ''POST'')
           \<and> (path = pattern_literals ops pool \<or> path = pattern_literals ops pool @ '':'')))
     \<and> (\<forall>v ops pool h. (v, (ops, pool), h) \<in> set mux \<longrightarrow> verb = v \<longrightarrow> verb \<noteq> ''POST''
         \<longrightarrow> path = pattern_literals ops pool \<longrightarrow> respond mux verb path req \<noteq> None))"

text \<open>A connection to the node itself, over the registered services\<close>

definition Invoke_local where
  "Invoke_local conv route unknown reg s (path :: string) q =
     bindE (map_sum conv id (QueryParamsRequest_Marshal q)) (\<lambda>bs.
     bindE (snd (serve route unknown reg s (path, bs))) (\<lambda>out.
       map_sum conv id (QueryParamsResponse_Unmarshal QueryParamsResponse_zero out)))"

section \<open>The reference: what the node promises\<close>

text \<open>
  One request, without handlers, loops or keepers: only an update whose bytes are in the grammar and
  whose authority decodes to the module's sets the parameters, if the store takes them.
\<close>

definition spec_deliver :: "('s, 'x, Params) sdk \<Rightarrow> byte list \<Rightarrow> 's \<Rightarrow> string \<times> byte list \<Rightarrow> 's" where
  "spec_deliver E auth s = (\<lambda>(path, bs).
     if path = ''/tatcore.tatcore.v1.Msg/UpdateParams'' then
       (case decode MsgUpdateParams_grammar MsgUpdateParams_zero bs of
          None \<Rightarrow> s
        | Some m \<Rightarrow>
            if StringToBytes E (mup_Authority m) = Inr auth then
              (case ItemSet E params_item s (mup_Params m) of (s', None) \<Rightarrow> s' | (s', Some err) \<Rightarrow> s)
            else s)
     else s)"

section \<open>Lemmas\<close>

lemma Msg_handler_passes:
  "passes ic \<Longrightarrow> Msg_UpdateParams_Handler srv dec ic s =
    (case dec MsgUpdateParams_zero of Inl err \<Rightarrow> (s, Inl err) | Inr req \<Rightarrow> srv s req)"
  by (auto simp: Msg_UpdateParams_Handler_def passes_def split: sum.split option.split)

lemma Query_handler_passes:
  "passes ic \<Longrightarrow> Query_Params_Handler srv dec ic s =
    (case dec QueryParamsRequest_struct of Inl err \<Rightarrow> (s, Inl err) | Inr req \<Rightarrow> srv s req)"
  by (auto simp: Query_Params_Handler_def passes_def split: sum.split option.split)

lemma Response_Marshal: "MsgUpdateParamsResponse_Marshal m = Inr []"
  unfolding MsgUpdateParamsResponse_Marshal_def
  by (rule msg_response.marshal_enc) (simp add: fits_def)

lemma Request_Marshal: "QueryParamsRequest_Marshal q = Inr []"
  unfolding QueryParamsRequest_Marshal_def
  by (rule query_request.marshal_enc) (simp add: fits_def)

lemma Request_Unmarshal: "QueryParamsRequest_Unmarshal m [] = Inr QueryParamsRequest_struct"
  unfolding QueryParamsRequest_Unmarshal_def
  by (cases m) (simp add: query_request.roundtrip [where m = QueryParamsRequest_struct, simplified] fits_def)

lemma unmarshal_grammar:
  "fits bs \<Longrightarrow> MsgUpdateParams_Unmarshal m bs = Inr m' \<longleftrightarrow> decode MsgUpdateParams_grammar m bs = Some m'"
  unfolding codec_defs by (rule msg.unmarshal_Inr_iff)

lemmas path_defs = routes_def full_method_def Msg_serviceDesc_def Query_serviceDesc_def Msg_Methods_def
  Query_Methods_def AppModule_RegisterServices_def RegisterMsgServer_def RegisterQueryServer_def Let_def

lemma serve_registered:
  assumes "router_law route"
  shows "route (AppModule_RegisterServices E conv ic1 ic2 am []) path =
    (if path = ''/tatcore.tatcore.v1.Msg/UpdateParams''
     then Some (snd (hd (Msg_Methods conv ic1 (msgServer_UpdateParams E (NewMsgServerImpl (am_keeper am))))))
     else if path = ''/tatcore.tatcore.v1.Query/Params''
     then Some (snd (hd (Query_Methods conv ic2 (queryServer_Params E (NewQueryServerImpl (am_keeper am))))))
     else None)"
proof -
  let ?reg = "AppModule_RegisterServices E conv ic1 ic2 am []"
  have "distinct (map fst (routes ?reg))" by (simp add: path_defs)
  then have "route ?reg path = map_of (routes ?reg) path" using assms by (simp add: router_law_def)
  also have "\<dots> = (if path = ''/tatcore.tatcore.v1.Msg/UpdateParams''
     then Some (snd (hd (Msg_Methods conv ic1 (msgServer_UpdateParams E (NewMsgServerImpl (am_keeper am))))))
     else if path = ''/tatcore.tatcore.v1.Query/Params''
     then Some (snd (hd (Query_Methods conv ic2 (queryServer_Params E (NewQueryServerImpl (am_keeper am))))))
     else None)"
    by (simp add: path_defs)
  finally show ?thesis .
qed

lemma ProvideModule_outputs_Inr:
  assumes "ProvideModule_outputs A E i = Inr out"
  shows "NewKeeper E (module_authority A (in_Config i)) = Inr (am_keeper (out_Module out))"
    and "out_TatcoreKeeper out = am_keeper (out_Module out)"
  using assms
  by (auto simp: ProvideModule_outputs_def ProvideModule_def NewAppModule_def Let_def bindE_Inr_iff)

text \<open>The message method, as a function of the bytes\<close>

lemma Msg_method:
  assumes "passes ic" "fits bs"
  shows "snd (hd (Msg_Methods conv ic (msgServer_UpdateParams E (NewMsgServerImpl k)))) s bs =
    (case MsgUpdateParams_Unmarshal MsgUpdateParams_zero bs of
       Inl e \<Rightarrow> (s, Inl (conv e))
     | Inr m \<Rightarrow> (case UpdateParams E k s m of (s', r) \<Rightarrow> (s', map_sum id (\<lambda>_. []) r)))"
  using assms(1)
  by (auto simp: Msg_Methods_def encode_reply_def Msg_handler_passes msgServer_UpdateParams_def
      NewMsgServerImpl_def Response_Marshal bindE_def split: sum.split prod.split)

lemma Query_method:
  assumes "passes ic"
  shows "snd (hd (Query_Methods conv ic (queryServer_Params E (NewQueryServerImpl k)))) s [] =
    (s, bindE (Query_Params E k s (Some QueryParamsRequest_struct)) (\<lambda>a. map_sum conv id (QueryParamsResponse_Marshal a)))"
  using assms
  by (simp add: Query_Methods_def encode_reply_def Query_handler_passes queryServer_Params_def
      NewQueryServerImpl_def Request_Unmarshal)

lemma Query_method_store:
  "passes ic \<Longrightarrow> fst (snd (hd (Query_Methods conv ic (queryServer_Params E (NewQueryServerImpl k)))) s bs) = s"
  by (auto simp: Query_Methods_def encode_reply_def Query_handler_passes queryServer_Params_def split: sum.split)

text \<open>A connection that was dialled is closed by someone exactly once, in every outcome.\<close>

lemma endpoint_closed_once:
  "\<exists>t. snd (RegisterQueryHandlerFromEndpoint err endpoint h) = h @ Dial endpoint # t
    \<and> length (filter (\<lambda>c. c = CloseConn \<or> c = GoCloseWhenDone) t) = (if err h (Dial endpoint) = None then 1 else 0)"
  by (cases "err h (Dial endpoint)"; cases "err (h @ [Dial endpoint]) RegisterHandler")
     (simp_all add: RegisterQueryHandlerFromEndpoint_def seqp_def perform_def ret_def)

text \<open>A query over a connection to the node itself\<close>

lemma client_reply:
  assumes "router_law route" "passes ic2"
    and "Query_Params E (am_keeper am) s (Some QueryParamsRequest_struct) = Inr a"
  shows "NewQueryClient (\<lambda>_. Invoke_local conv route unknown (AppModule_RegisterServices E conv ic1 ic2 am []) s) ctx
    (Some QueryParamsRequest_struct) = Inr a"
proof -
  have "bindE (map_sum conv id (QueryParamsResponse_Marshal a))
      (\<lambda>out. map_sum conv id (QueryParamsResponse_Unmarshal QueryParamsResponse_zero out)) = Inr a"
    using QueryParamsResponse_roundtrip [of a] by (auto simp: bindE_Inr_iff)
  then show ?thesis
    by (simp add: NewQueryClient_def queryClient_Params_def Invoke_local_def Request_Marshal serve_def
        serve_registered [OF assms(1)] Query_method [OF assms(2)] assms(3))
qed

text \<open>A multiplexer with one route\<close>

lemma mux_answered:
  assumes "mux_law respond" "literal_route (v, (ops, pool), h)" "respond [(v, (ops, pool), h)] verb path req = Some r"
  shows "r = h req \<and> (verb = v \<or> verb = ''POST'') \<and> (path = pattern_literals ops pool \<or> path = pattern_literals ops pool @ '':'')"
proof -
  let ?mux = "[(v, (ops, pool), h)]"
  have "list_all literal_route ?mux" using assms(2) by simp
  from assms(1) [unfolded mux_law_def, THEN spec [of _ ?mux], THEN spec [of _ verb], THEN spec [of _ path],
      THEN spec [of _ req], THEN mp, OF this, THEN conjunct1, THEN spec [of _ r], THEN mp, OF assms(3)]
  show ?thesis by (simp only: list.set insert_iff empty_iff prod.inject simp_thms ex_simps) blast
qed

lemma mux_found:
  assumes "mux_law respond" "literal_route (v, (ops, pool), h)" "v \<noteq> ''POST''"
  shows "respond [(v, (ops, pool), h)] v (pattern_literals ops pool) req = Some (h req)"
proof -
  let ?mux = "[(v, (ops, pool), h)]" and ?path = "pattern_literals ops pool"
  have "list_all literal_route ?mux" and m: "(v, (ops, pool), h) \<in> set ?mux" using assms(2) by simp_all
  from assms(1) [unfolded mux_law_def, THEN spec [of _ ?mux], THEN spec [of _ v], THEN spec [of _ ?path],
      THEN spec [of _ req], THEN mp, OF this(1), THEN conjunct2, rule_format, OF m refl assms(3) refl]
  show ?thesis using mux_answered [OF assms(1,2)] by auto
qed

lemma params_route: "literal_route (''GET'', pattern_Query_Params_0, h)"
  "pattern_literals (fst pattern_Query_Params_0) (snd pattern_Query_Params_0) = ''/alltest0777/tatcore/tatcore/v1/params''"
  by (simp_all add: literal_route_def pattern_Query_Params_0_def)

lemmas params_answered =
  mux_answered [where v = "''GET''" and ops = "fst pattern_Query_Params_0" and pool = "snd pattern_Query_Params_0",
    unfolded params_route(2) prod.collapse, OF _ params_route(1)]
lemmas params_found =
  mux_found [where v = "''GET''" and ops = "fst pattern_Query_Params_0" and pool = "snd pattern_Query_Params_0",
    unfolded params_route(2) prod.collapse, OF _ params_route(1)]

lemma deliver_refines:
  assumes "NewKeeper E auth = Inr (am_keeper am)" "router_law route" "passes ic1" "passes ic2" "fits (snd request)"
  shows "deliver route unknown (AppModule_RegisterServices E conv ic1 ic2 am []) s request = spec_deliver E auth s request"
proof -
  obtain path bs where r: "request = (path, bs)" by (cases request)
  have k: "k_authority (am_keeper am) = auth" "k_Params (am_keeper am) = params_item"
    using assms(1) by (simp_all add: NewKeeper_Inr)
  show ?thesis
  proof (cases "path = ''/tatcore.tatcore.v1.Msg/UpdateParams''")
    case True
    have fits: "fits bs" using assms(5) by (simp add: r)
    show ?thesis
    proof (cases "MsgUpdateParams_Unmarshal MsgUpdateParams_zero bs")
      case (Inl e)
      then have "decode MsgUpdateParams_grammar MsgUpdateParams_zero bs = None"
        using unmarshal_grammar [OF fits, symmetric]
        by (cases "decode MsgUpdateParams_grammar MsgUpdateParams_zero bs") auto
      then show ?thesis
        using True Inl
        by (simp add: r deliver_def spec_deliver_def serve_def serve_registered [OF assms(2)] Msg_method [OF assms(3) fits])
    next
      case (Inr m)
      then have "decode MsgUpdateParams_grammar MsgUpdateParams_zero bs = Some m"
        using unmarshal_grammar [OF fits] by simp
      moreover have "(case UpdateParams E (am_keeper am) s m of (s', Inr r) \<Rightarrow> s' | (s', Inl e) \<Rightarrow> s) =
          (if StringToBytes E (mup_Authority m) = Inr auth
           then (case ItemSet E params_item s (mup_Params m) of (s', None) \<Rightarrow> s' | (s', Some err) \<Rightarrow> s) else s)"
        by (auto simp: UpdateParams_def GetAuthority_def Params_Validate_def Let_def k split: sum.split prod.split option.split)
      ultimately show ?thesis
        using True Inr
        by (simp add: r deliver_def spec_deliver_def serve_def serve_registered [OF assms(2)] Msg_method [OF assms(3) fits]
            split: prod.split) (auto split: sum.splits)
    qed
  next
    case False
    then have "fst (serve route unknown (AppModule_RegisterServices E conv ic1 ic2 am []) s request) = s"
      using Query_method_store [OF assms(4)] by (simp add: r serve_def serve_registered [OF assms(2)])
    then show ?thesis
      using False by (auto simp: r deliver_def spec_deliver_def split: prod.split sum.split)
  qed
qed

section \<open>An environment for the witnesses\<close>

definition sample_route :: "('s, 'e) registrar \<Rightarrow> string \<Rightarrow> ('s, 'e) wire_method option" where
  "sample_route reg = map_of (routes reg)"

definition sample_respond :: "('h, 'e, 'r) mux \<Rightarrow> string \<Rightarrow> string \<Rightarrow> 'h \<Rightarrow> ('e, 'r) http_reply option" where
  "sample_respond mux verb path req =
     (case filter (\<lambda>(v, (ops, pool), h). (verb = v \<or> verb = ''POST'')
         \<and> (path = pattern_literals ops pool \<or> path = pattern_literals ops pool @ '':'')) mux of
        [] \<Rightarrow> None
      | (v, p, h) # _ \<Rightarrow> Some (h req))"

lemma sample_router: "router_law sample_route"
  by (simp add: router_law_def sample_route_def)

lemma sample_answered:
  assumes "sample_respond mux verb path req = Some r"
  shows "\<exists>v ops pool h. (v, (ops, pool), h) \<in> set mux \<and> r = h req \<and> (verb = v \<or> verb = ''POST'')
      \<and> (path = pattern_literals ops pool \<or> path = pattern_literals ops pool @ '':'')"
  using assms
proof (induction mux)
  case (Cons route mux)
  obtain v ops pool h where route: "route = (v, (ops, pool), h)" by (metis prod_cases3 surj_pair)
  show ?case
  proof (cases "(verb = v \<or> verb = ''POST'') \<and> (path = pattern_literals ops pool \<or> path = pattern_literals ops pool @ '':'')")
    case True
    then have "r = h req" using Cons.prems by (simp add: sample_respond_def route)
    then show ?thesis using True unfolding route by (intro exI [of _ v] exI [of _ ops] exI [of _ pool] exI [of _ h]) simp
  next
    case False
    have "sample_respond (route # mux) verb path req = sample_respond mux verb path req"
      unfolding sample_respond_def route filter.simps prod.case if_not_P [OF False] by (rule refl)
    with Cons.prems have "sample_respond mux verb path req = Some r" by simp
    from Cons.IH [OF this] show ?thesis by (simp only: list.set insert_iff) blast
  qed
qed (simp add: sample_respond_def)

lemma sample_found:
  "(v, (ops, pool), h) \<in> set mux \<Longrightarrow> sample_respond mux v (pattern_literals ops pool) req \<noteq> None"
  by (induction mux) (auto simp: sample_respond_def)

lemma sample_mux: "mux_law sample_respond"
  unfolding mux_law_def
  by (intro allI impI conjI, erule sample_answered, hypsubst, rule sample_found)

definition sample_inputs :: "(unit, unit, unit) ModuleInputs" where
  "sample_inputs = \<lparr>in_Config = \<lparr>mod_Authority = ''tat1gov''\<rparr>, in_Cdc = (),
     in_AuthKeeper = \<lparr>AddressCodec = (), GetAccount = (\<lambda>_. ())\<rparr>, in_BankKeeper = \<lparr>SpendableCoins = (\<lambda>_. ())\<rparr>\<rparr>"

definition sample_outputs :: "(unit, unit, unit) ModuleOutputs" where
  "sample_outputs = \<lparr>out_TatcoreKeeper = sample_keeper,
     out_Module = NewAppModule () sample_keeper (in_AuthKeeper sample_inputs) (in_BankKeeper sample_inputs)\<rparr>"

lemma sample_provided: "ProvideModule_outputs sample_auth sample_sdk sample_inputs = Inr sample_outputs"
  by (simp add: ProvideModule_outputs_def sample_inputs_def sample_outputs_def sample_ProvideModule Let_def)

lemma sample_passes: "passes None" "passes (Some (\<lambda>q path srv s. srv s q))"
  by (simp_all add: passes_def)

section \<open>Properties\<close>

text \<open>
  C3. The registered services do what the node promises: for the module that \<^verbatim>\<open>ProvideModule\<close> builds, a router
  that finds methods by their paths and interceptors that call the handler, any sequence of requests, to
  any paths with any bytes, takes the store where the reference takes it. So only accepted
  updates from the configured authority have an effect.
\<close>

theorem services_refine:
  assumes "ProvideModule_outputs A E i = Inr out" "router_law route" "passes ic1" "passes ic2"
    and "\<And>request. request \<in> set requests \<Longrightarrow> int (length (snd request)) < 2 ^ 63"
  shows "foldl (deliver route unknown (AppModule_RegisterServices E conv ic1 ic2 (out_Module out) [])) s requests
    = foldl (spec_deliver E (module_authority A (in_Config i))) s requests"
proof (rule foldl_cong [OF refl refl])
  fix s request
  assume "request \<in> set requests"
  with assms(5) have "fits (snd request)" by (simp add: fits_def)
  with assms(2-4) ProvideModule_outputs_Inr(1) [OF assms(1)]
  show "deliver route unknown (AppModule_RegisterServices E conv ic1 ic2 (out_Module out) []) s request
      = spec_deliver E (module_authority A (in_Config i)) s request"
    by (intro deliver_refines) auto
qed

theorem services_refine_witness:
  "foldl (deliver sample_route ErrInvalidSigner (AppModule_RegisterServices sample_sdk (\<lambda>_. ErrInvalidSigner)
      (Some (\<lambda>q path srv s. srv s q)) None (out_Module sample_outputs) []))
      Map.empty [(''/tatcore.tatcore.v1.Msg/UpdateParams'', 0x0a # 7 # bytes_of ''tat1gov'' @ [0x12, 0]),
        (''/tatcore.tatcore.v1.Query/Params'', []), (''/other'', [0xff])]
    = foldl (spec_deliver sample_sdk (module_authority sample_auth (in_Config sample_inputs)))
      Map.empty [(''/tatcore.tatcore.v1.Msg/UpdateParams'', 0x0a # 7 # bytes_of ''tat1gov'' @ [0x12, 0]),
        (''/tatcore.tatcore.v1.Query/Params'', []), (''/other'', [0xff])]"
  by (rule services_refine [OF sample_provided sample_router sample_passes(2,1)]) (auto simp: bytes_of_def)

text \<open>
  C11. The REST interface serves the parameters of every reachable chain state, from the path of the
  request to the reply: for the routes that the module registers, over a connection to the node itself, a
  GET of \<^verbatim>\<open>/alltest0777/tatcore/tatcore/v1/params\<close> (the path that the API description names) is forwarded the
  parameters that the chain would export, after the client encoded the request, the router found the method, the handler
  decoded it, and the answer was encoded and decoded; the only error is one of the runtime's annotation. What else the
  module's routes answer, they answer in the same way: it is a GET, or a POST that the multiplexer lets fall back to it, of this
  path, or of this path with a colon at the end.
\<close>

theorem rest_route:
  assumes "item_law E" "NewKeeper E auth = Inr (am_keeper am)" "chain_state E J (am_keeper am) s0 s"
    and "router_law route" "passes ic2" "mux_law respond"
  shows "\<exists>p mux. ExportGenesis E (am_keeper am) s = Inr \<lparr>gs_Params = p\<rparr>
    \<and> RegisterGRPCGatewayRoutes annotate
        (\<lambda>_. Invoke_local conv route unknown (AppModule_RegisterServices E conv ic1 ic2 am []) s) [] = Inr mux
    \<and> (\<forall>req. respond mux ''GET'' ''/alltest0777/tatcore/tatcore/v1/params'' req =
        Some (case annotate req of Inl err \<Rightarrow> HTTPError err | Inr _ \<Rightarrow> ForwardResponse \<lparr>qpr_Params = p\<rparr>))
    \<and> (\<forall>verb path req reply. respond mux verb path req = Some reply \<longrightarrow>
        reply = (case annotate req of Inl err \<Rightarrow> HTTPError err | Inr _ \<Rightarrow> ForwardResponse \<lparr>qpr_Params = p\<rparr>)
        \<and> (verb = ''GET'' \<or> verb = ''POST'')
        \<and> (path = ''/alltest0777/tatcore/tatcore/v1/params'' \<or> path = ''/alltest0777/tatcore/tatcore/v1/params:''))"
proof -
  let ?k = "am_keeper am" and ?reg = "AppModule_RegisterServices E conv ic1 ic2 am []"
  have k: "k_Params ?k = params_item" using assms(2) by (simp add: NewKeeper_Inr)
  from params_stored_reads [OF chain_state_params [OF assms(1-3)] k, of QueryParamsRequest_struct]
  obtain p where p: "Query_Params E ?k s (Some QueryParamsRequest_struct) = Inr \<lparr>qpr_Params = p\<rparr>"
      "ExportGenesis E ?k s = Inr \<lparr>gs_Params = p\<rparr>" by blast
  let ?client = "NewQueryClient (\<lambda>_. Invoke_local conv route unknown ?reg s)"
  have reply: "RegisterQueryHandlerClient annotate ?client req =
      (case annotate req of Inl err \<Rightarrow> HTTPError err | Inr _ \<Rightarrow> ForwardResponse \<lparr>qpr_Params = p\<rparr>)" for req
    by (simp add: RegisterQueryHandlerClient_def request_Query_Params_0_def client_reply [OF assms(4,5) p(1)]
        split: sum.split)
  let ?mux = "[(''GET'', pattern_Query_Params_0, RegisterQueryHandlerClient annotate ?client)]"
  have "\<forall>req. respond ?mux ''GET'' ''/alltest0777/tatcore/tatcore/v1/params'' req =
      Some (case annotate req of Inl err \<Rightarrow> HTTPError err | Inr _ \<Rightarrow> ForwardResponse \<lparr>qpr_Params = p\<rparr>)"
    by (simp add: params_found [OF assms(6)] reply)
  moreover have "\<forall>verb path req r. respond ?mux verb path req = Some r \<longrightarrow>
      r = (case annotate req of Inl err \<Rightarrow> HTTPError err | Inr _ \<Rightarrow> ForwardResponse \<lparr>qpr_Params = p\<rparr>)
      \<and> (verb = ''GET'' \<or> verb = ''POST'')
      \<and> (path = ''/alltest0777/tatcore/tatcore/v1/params'' \<or> path = ''/alltest0777/tatcore/tatcore/v1/params:'')"
    by (intro allI impI, drule params_answered [OF assms(6)]) (simp only: reply, simp)
  ultimately show ?thesis
    using p(2) by (intro exI [of _ p] exI [of _ ?mux] conjI) (simp_all add: RegisterGRPCGatewayRoutes_def HandleQueryClient_def)
qed

theorem rest_route_witness:
  "\<exists>p mux. ExportGenesis sample_sdk sample_keeper [ParamsKey \<mapsto> []] = Inr \<lparr>gs_Params = p\<rparr>
    \<and> (RegisterGRPCGatewayRoutes (\<lambda>req :: nat. if req = 0 then Inl ErrInvalidSigner else Inr req)
        (\<lambda>_. Invoke_local (\<lambda>_. ErrInvalidSigner) sample_route ErrInvalidSigner
          (AppModule_RegisterServices sample_sdk (\<lambda>_. ErrInvalidSigner) None None (out_Module sample_outputs) [])
          [ParamsKey \<mapsto> []]) [] :: sample_err + _) = Inr mux
    \<and> sample_respond mux ''GET'' ''/alltest0777/tatcore/tatcore/v1/params'' 5 = Some (ForwardResponse \<lparr>qpr_Params = p\<rparr>)
    \<and> sample_respond mux ''PUT'' ''/alltest0777/tatcore/tatcore/v1/params'' 5 = None"
proof -
  have k: "am_keeper (out_Module sample_outputs) = sample_keeper" by (simp add: sample_outputs_def NewAppModule_def)
  have new: "NewKeeper sample_sdk (bytes_of ''tat1gov'') = Inr (am_keeper (out_Module sample_outputs))"
    and chain: "chain_state sample_sdk sample_json (am_keeper (out_Module sample_outputs)) Map.empty [ParamsKey \<mapsto> []]"
    unfolding k by (rule sample_NewKeeper, rule sample_chain_state)
  from rest_route [OF sample_laws(2) new chain sample_router sample_passes(1) sample_mux,
      of "\<lambda>req :: nat. if req = 0 then Inl ErrInvalidSigner else Inr req" "\<lambda>_. ErrInvalidSigner" ErrInvalidSigner None]
  obtain p mux where p: "ExportGenesis sample_sdk sample_keeper [ParamsKey \<mapsto> []] = Inr \<lparr>gs_Params = p\<rparr>"
    and mux: "(RegisterGRPCGatewayRoutes (\<lambda>req :: nat. if req = 0 then Inl ErrInvalidSigner else Inr req)
        (\<lambda>_. Invoke_local (\<lambda>_. ErrInvalidSigner) sample_route ErrInvalidSigner
          (AppModule_RegisterServices sample_sdk (\<lambda>_. ErrInvalidSigner) None None (out_Module sample_outputs) [])
          [ParamsKey \<mapsto> []]) [] :: sample_err + _) = Inr mux"
    and get: "\<forall>req. sample_respond mux ''GET'' ''/alltest0777/tatcore/tatcore/v1/params'' req =
        Some (case if req = 0 then Inl ErrInvalidSigner else Inr req of
          Inl err \<Rightarrow> HTTPError err | Inr _ \<Rightarrow> ForwardResponse \<lparr>qpr_Params = p\<rparr>)"
    and other: "\<forall>verb path req reply. sample_respond mux verb path req = Some reply \<longrightarrow>
        reply = (case if req = 0 then Inl ErrInvalidSigner else Inr req of
          Inl err \<Rightarrow> HTTPError err | Inr _ \<Rightarrow> ForwardResponse \<lparr>qpr_Params = p\<rparr>)
        \<and> (verb = ''GET'' \<or> verb = ''POST'')
        \<and> (path = ''/alltest0777/tatcore/tatcore/v1/params'' \<or> path = ''/alltest0777/tatcore/tatcore/v1/params:'')"
    unfolding k by (elim exE conjE) (rule that)
  have "sample_respond mux ''PUT'' ''/alltest0777/tatcore/tatcore/v1/params'' 5 = None"
    using other [THEN spec [of _ "''PUT''"]]
    by (cases "sample_respond mux ''PUT'' ''/alltest0777/tatcore/tatcore/v1/params'' 5") auto
  then show ?thesis using p mux get by (intro exI [of _ p] exI [of _ mux]) simp
qed

end
