(* ===== verification/Export.thy ===== *)
theory Export
  imports Effects
begin

text \<open>
  Exporting a running chain as a genesis file (app/export.go). \<open>prepForZeroHeightGenesis\<close> is a
  program over the calls it makes on the staking, distribution and slashing keepers; what the
  keepers answer is the record \<open>chain\<close>, whose operations see all earlier calls. A call carries
  the block height of the context it is made with, because the code switches the context to
  height 0 for some of the calls and back.

  An \<^verbatim>\<open>Iterate...\<close> method is represented by the elements it visits and the error it returns:
  the callbacks of this file never ask it to stop.
\<close>

section \<open>What the keepers hold\<close>

text \<open>Of the SDK's structures the fields that the code reads or writes, and the rest as \<open>'o\<close>.\<close>

type_synonym addr = "byte list"

record 'o validator =
  Operator :: string
  UnbondingHeight :: int
  Jailed :: bool
  val_rest :: 'o

record delegation =
  DelegatorAddress :: string
  ValidatorAddress :: string

record 'o unbonding_entry =
  CreationHeight :: int
  entry_rest :: 'o

text \<open>\<^verbatim>\<open>Redelegation\<close> and \<^verbatim>\<open>UnbondingDelegation\<close>\<close>

record 'o unbonding =
  Entries :: "'o unbonding_entry list"
  unbonding_rest :: 'o

record 'o signing_info =
  StartHeight :: int
  info_rest :: 'o

record ('c, 'o) fee_pool =
  CommunityPool :: 'c
  pool_rest :: 'o

datatype ('c, 'o) call =
    WithdrawValidatorCommission addr
  | WithdrawDelegationRewards addr addr
  | DeleteAllValidatorSlashEvents
  | DeleteAllValidatorHistoricalRewards
  | FeePool_Set "('c, 'o) fee_pool"
  | AfterValidatorCreated addr
  | BeforeDelegationCreated addr addr
  | AfterDelegationModified addr addr
  | SetRedelegation "'o unbonding"
  | SetUnbondingDelegation "'o unbonding"
  | SetValidator "'o validator"
  | ApplyAndReturnValidatorSetUpdates
  | SetValidatorSigningInfo addr "'o signing_info"

text \<open>A call with the height of its context\<close>

type_synonym ('c, 'o) hcall = "int \<times> ('c, 'o) call"

record ('c, 'o, 'x) chain =
  ValAddr :: "string \<Rightarrow> 'x + addr"         \<comment> \<open>the interface registry's validator codec\<close>
  AccAddr :: "string \<Rightarrow> 'x + addr"         \<comment> \<open>its account codec\<close>
  StakingValAddr :: "string \<Rightarrow> 'x + addr"  \<comment> \<open>the staking keeper's validator codec\<close>
  StakingValString :: "addr \<Rightarrow> 'x + string"
  CallError :: "('c, 'o) hcall list \<Rightarrow> ('c, 'o) hcall \<Rightarrow> 'x option"
  IterateValidators :: "('c, 'o) hcall list \<Rightarrow> 'o validator list \<times> 'x option"
  GetAllDelegations :: "('c, 'o) hcall list \<Rightarrow> 'x + delegation list"
  OutstandingRewards :: "addr \<Rightarrow> ('c, 'o) hcall list \<Rightarrow> 'x + 'c"
  FeePool_Get :: "('c, 'o) hcall list \<Rightarrow> 'x + ('c, 'o) fee_pool"
  Add :: "'c \<Rightarrow> 'c \<Rightarrow> 'c"
  IterateRedelegations :: "('c, 'o) hcall list \<Rightarrow> 'o unbonding list \<times> 'x option"
  IterateUnbondingDelegations :: "('c, 'o) hcall list \<Rightarrow> 'o unbonding list \<times> 'x option"
  StakingStore :: "('c, 'o) hcall list \<Rightarrow> 'x option"  \<comment> \<open>\<^verbatim>\<open>ctx.KVStore(app.GetKey(...))\<close> panics without such a key\<close>
  ValidatorKeys :: "('c, 'o) hcall list \<Rightarrow> addr list"
  GetValidator :: "addr \<Rightarrow> ('c, 'o) hcall list \<Rightarrow> 'x + 'o validator"
  IterClose :: "('c, 'o) hcall list \<Rightarrow> 'x option"
  IterateValidatorSigningInfos :: "('c, 'o) hcall list \<Rightarrow> (addr \<times> 'o signing_info) list \<times> 'x option"

datatype 'x panic =
    PanicErr 'x
  | PanicMsg string
  | PanicWrapped string 'x

type_synonym ('c, 'o, 'x, 'a) export = "(('c, 'o) hcall, 'x panic, 'a) prog"

text \<open>A call whose error stops the export with a panic, and one whose error is dropped\<close>

definition must :: "('c, 'o, 'x) chain \<Rightarrow> ('x \<Rightarrow> 'x panic) \<Rightarrow> int \<Rightarrow> ('c, 'o) call \<Rightarrow> ('c, 'o, 'x, unit) export" where
  "must C f ht c = seqp (perform (CallError C) (ht, c)) (check f)"

definition attempt :: "('c, 'o, 'x) chain \<Rightarrow> int \<Rightarrow> ('c, 'o) call \<Rightarrow> ('c, 'o, 'x, unit) export" where
  "attempt C ht c = seqp (perform (CallError C) (ht, c)) (\<lambda>_. ret ())"

text \<open>\<^verbatim>\<open>err := k.Iterate...(ctx, callback); if err != nil { panic(err) }\<close>\<close>

definition iterate :: "(('c, 'o) hcall list \<Rightarrow> 'a list \<times> 'x option)
    \<Rightarrow> ('a \<Rightarrow> ('c, 'o, 'x, unit) export) \<Rightarrow> ('c, 'o, 'x, unit) export" where
  "iterate visit body =
     seqp (ask visit) (\<lambda>(xs, err). seqp (each body xs) (\<lambda>_. check PanicErr err))"

section \<open>The allowed addresses\<close>

fun allowed_map :: "('c, 'o, 'x) chain \<Rightarrow> string list \<Rightarrow> (string \<Rightarrow> bool) \<Rightarrow> 'x + (string \<Rightarrow> bool)" where
  "allowed_map C [] m = Inr m"
| "allowed_map C (addr # addrs) m =
     bindE (ValAddr C addr) (\<lambda>_. allowed_map C addrs (m(addr := True)))"

section \<open>Fee distribution state\<close>

definition withdraw_commission :: "('c, 'o, 'x) chain \<Rightarrow> int \<Rightarrow> 'o validator \<Rightarrow> ('c, 'o, 'x, unit) export" where
  "withdraw_commission C ht val =
     seqp (unwrap PanicErr (StakingValAddr C (Operator val))) (\<lambda>valBz.
       attempt C ht (WithdrawValidatorCommission valBz))"

definition withdraw_rewards :: "('c, 'o, 'x) chain \<Rightarrow> int \<Rightarrow> delegation \<Rightarrow> ('c, 'o, 'x, unit) export" where
  "withdraw_rewards C ht del =
     seqp (unwrap PanicErr (ValAddr C (ValidatorAddress del))) (\<lambda>valAddr.
     seqp (unwrap PanicErr (AccAddr C (DelegatorAddress del))) (\<lambda>delAddr.
       attempt C ht (WithdrawDelegationRewards delAddr valAddr)))"

definition reinit_validator :: "('c, 'o, 'x) chain \<Rightarrow> int \<Rightarrow> 'o validator \<Rightarrow> ('c, 'o, 'x, unit) export" where
  "reinit_validator C ht val =
     seqp (unwrap PanicErr (StakingValAddr C (Operator val))) (\<lambda>valBz.
     seqp (ask (OutstandingRewards C valBz)) (\<lambda>r. seqp (unwrap PanicErr r) (\<lambda>rewards.
     seqp (ask (FeePool_Get C)) (\<lambda>p. seqp (unwrap PanicErr p) (\<lambda>feePool.
     seqp (must C PanicErr ht
             (FeePool_Set (feePool\<lparr>CommunityPool := Add C (CommunityPool feePool) rewards\<rparr>))) (\<lambda>_.
       must C PanicErr ht (AfterValidatorCreated valBz)))))))"

definition reinit_delegation :: "('c, 'o, 'x) chain \<Rightarrow> int \<Rightarrow> delegation \<Rightarrow> ('c, 'o, 'x, unit) export" where
  "reinit_delegation C ht del =
     seqp (unwrap PanicErr (ValAddr C (ValidatorAddress del))) (\<lambda>valAddr.
     seqp (unwrap PanicErr (AccAddr C (DelegatorAddress del))) (\<lambda>delAddr.
     seqp (must C (PanicWrapped ''error while incrementing period'') ht
             (BeforeDelegationCreated delAddr valAddr)) (\<lambda>_.
       must C (PanicWrapped ''error while creating a new delegation period record'') ht
         (AfterDelegationModified delAddr valAddr))))"

section \<open>Staking and slashing state\<close>

definition reset_entries :: "'o unbonding \<Rightarrow> 'o unbonding" where
  "reset_entries u = u\<lparr>Entries := map (\<lambda>e. e\<lparr>CreationHeight := 0\<rparr>) (Entries u)\<rparr>"

definition reset_redelegation :: "('c, 'o, 'x) chain \<Rightarrow> int \<Rightarrow> 'o unbonding \<Rightarrow> ('c, 'o, 'x, unit) export" where
  "reset_redelegation C ht red = must C PanicErr ht (SetRedelegation (reset_entries red))"

definition reset_unbonding :: "('c, 'o, 'x) chain \<Rightarrow> int \<Rightarrow> 'o unbonding \<Rightarrow> ('c, 'o, 'x, unit) export" where
  "reset_unbonding C ht ubd = must C PanicErr ht (SetUnbondingDelegation (reset_entries ubd))"

definition reset_validator ::
  "('c, 'o, 'x) chain \<Rightarrow> bool \<Rightarrow> (string \<Rightarrow> bool) \<Rightarrow> int \<Rightarrow> addr \<Rightarrow> ('c, 'o, 'x, unit) export" where
  "reset_validator C applyAllowedAddrs allowed ht addr =
     seqp (ask (GetValidator C addr)) (\<lambda>r.
     seqp (unwrap (\<lambda>_. PanicMsg ''expected validator, not found'') r) (\<lambda>validator.
     seqp (unwrap PanicErr (StakingValString C addr)) (\<lambda>valAddr.
       let validator = validator\<lparr>UnbondingHeight := 0\<rparr>;
           validator = (if applyAllowedAddrs \<and> \<not> allowed valAddr
                        then validator\<lparr>Jailed := True\<rparr> else validator)
       in must C PanicErr ht (SetValidator validator))))"

definition reset_signing_info ::
  "('c, 'o, 'x) chain \<Rightarrow> int \<Rightarrow> addr \<times> 'o signing_info \<Rightarrow> ('c, 'o, 'x, unit) export" where
  "reset_signing_info C ht = (\<lambda>(addr, info).
     attempt C ht (SetValidatorSigningInfo addr (info\<lparr>StartHeight := 0\<rparr>)))"

definition finish_staking :: "('c, 'o, 'x) chain \<Rightarrow> int \<Rightarrow> ('c, 'o, 'x, unit) export" where
  "finish_staking C ht =
     seqp (ask (IterClose C)) (\<lambda>closeErr.
       case closeErr of
         Some err \<Rightarrow> ret ()
       | None \<Rightarrow>
           seqp (must C PanicErr ht ApplyAndReturnValidatorSetUpdates) (\<lambda>_.
             iterate (IterateValidatorSigningInfos C) (reset_signing_info C ht)))"

section \<open>The whole preparation\<close>

definition distribution_state :: "('c, 'o, 'x) chain \<Rightarrow> int \<Rightarrow> ('c, 'o, 'x, unit) export" where
  "distribution_state C height =
     seqp (iterate (IterateValidators C) (withdraw_commission C height)) (\<lambda>_.
     seqp (ask (GetAllDelegations C)) (\<lambda>r. seqp (unwrap PanicErr r) (\<lambda>dels.
     seqp (each (withdraw_rewards C height) dels) (\<lambda>_.
     seqp (attempt C height DeleteAllValidatorSlashEvents) (\<lambda>_.
     seqp (attempt C height DeleteAllValidatorHistoricalRewards) (\<lambda>_.
     seqp (iterate (IterateValidators C) (reinit_validator C 0)) (\<lambda>_.
       each (reinit_delegation C 0) dels)))))))"

definition staking_state ::
  "('c, 'o, 'x) chain \<Rightarrow> bool \<Rightarrow> (string \<Rightarrow> bool) \<Rightarrow> int \<Rightarrow> ('c, 'o, 'x, unit) export" where
  "staking_state C applyAllowedAddrs allowed height =
     seqp (iterate (IterateRedelegations C) (reset_redelegation C height)) (\<lambda>_.
     seqp (iterate (IterateUnbondingDelegations C) (reset_unbonding C height)) (\<lambda>_.
     seqp (ask (StakingStore C)) (\<lambda>p. seqp (check PanicErr p) (\<lambda>_.
     seqp (ask (ValidatorKeys C)) (\<lambda>keys.
     seqp (each (reset_validator C applyAllowedAddrs allowed height) keys) (\<lambda>_.
       finish_staking C height))))))"

definition prepForZeroHeightGenesis ::
  "('c, 'o, 'x) chain \<Rightarrow> int \<Rightarrow> string list \<Rightarrow> ('c, 'o, 'x, unit) export" where
  "prepForZeroHeightGenesis C height jailAllowedAddrs =
     (let applyAllowedAddrs = length jailAllowedAddrs > 0 in
      seqp (unwrap PanicErr (allowed_map C jailAllowedAddrs (\<lambda>_. False))) (\<lambda>allowed.
      seqp (distribution_state C height) (\<lambda>_.
        staking_state C applyAllowedAddrs allowed height)))"

section \<open>The export\<close>

text \<open>
  What the export reads besides: the module manager, the JSON encoder, the staking module's
  validator list and the consensus parameters. A zero \<^verbatim>\<open>ExportedApp{}\<close> has no state.
\<close>

record ('c, 'o, 'x, 'g, 'j, 'w, 'p) exporter =
  LastBlockHeight :: int   \<comment> \<open>an \<^verbatim>\<open>int64\<close>\<close>
  ExportGenesisForModules :: "string list \<Rightarrow> ('c, 'o) hcall list \<Rightarrow> 'x + 'g"
  MarshalIndent :: "'g \<Rightarrow> 'x + 'j"
  WriteValidators :: "('c, 'o) hcall list \<Rightarrow> 'w list \<times> 'x option"
  GetConsensusParams :: "('c, 'o) hcall list \<Rightarrow> 'p"

record ('j, 'w, 'p) exported =
  AppState :: "'j option"
  Validators :: "'w list"
  Height :: int
  ConsensusParams :: "'p option"

definition ExportedApp_zero :: "('j, 'w, 'p) exported" where
  "ExportedApp_zero = \<lparr>AppState = None, Validators = [], Height = 0, ConsensusParams = None\<rparr>"

definition ExportAppStateAndValidators ::
  "('c, 'o, 'x) chain \<Rightarrow> ('c, 'o, 'x, 'g, 'j, 'w, 'p) exporter \<Rightarrow> bool \<Rightarrow> string list \<Rightarrow> string list
    \<Rightarrow> ('c, 'o, 'x, ('j, 'w, 'p) exported \<times> 'x option) export" where
  "ExportAppStateAndValidators C X forZeroHeight jailAllowedAddrs modulesToExport =
     (let height = goint (LastBlockHeight X + 1);
          height' = (if forZeroHeight then 0 else height) in
      seqp (if forZeroHeight then prepForZeroHeightGenesis C (LastBlockHeight X) jailAllowedAddrs
            else ret ()) (\<lambda>_.
      seqp (ask (ExportGenesisForModules X modulesToExport)) (\<lambda>r. case r of
        Inl err \<Rightarrow> ret (ExportedApp_zero, Some err)
      | Inr genState \<Rightarrow>
          (case MarshalIndent X genState of
             Inl err \<Rightarrow> ret (ExportedApp_zero, Some err)
           | Inr appState \<Rightarrow>
               seqp (ask (WriteValidators X)) (\<lambda>(validators, err).
               seqp (ask (GetConsensusParams X)) (\<lambda>params.
                 ret (\<lparr>AppState = Some appState, Validators = validators, Height = height',
                       ConsensusParams = Some params\<rparr>, err)))))))"

end
