(* ===== verification/ExportProperties.thy ===== *)
theory ExportProperties
  imports Export "HOL-Library.Sublist"
begin

text \<open>
  What the preparation for a zero-height genesis guarantees, whatever the keepers answer: the
  order and the context height of its calls, what it writes for validators, redelegations,
  unbonding delegations and signing infos, where the outstanding rewards go, and how it fails.
\<close>

section \<open>The calls of the parts\<close>

text \<open>The phases of the preparation, in the order of the code\<close>

fun phase :: "('c, 'o) call \<Rightarrow> nat" where
  "phase (WithdrawValidatorCommission _) = 0"
| "phase (WithdrawDelegationRewards _ _) = 1"
| "phase DeleteAllValidatorSlashEvents = 2"
| "phase DeleteAllValidatorHistoricalRewards = 3"
| "phase (FeePool_Set _) = 4"
| "phase (AfterValidatorCreated _) = 4"
| "phase (BeforeDelegationCreated _ _) = 5"
| "phase (AfterDelegationModified _ _) = 5"
| "phase (SetRedelegation _) = 6"
| "phase (SetUnbondingDelegation _) = 7"
| "phase (SetValidator _) = 8"
| "phase ApplyAndReturnValidatorSetUpdates = 9"
| "phase (SetValidatorSigningInfo _ _) = 10"

text \<open>The heights that a genesis at height 0 must not keep are 0 in everything that is written.\<close>

fun heights_reset :: "('c, 'o) call \<Rightarrow> bool" where
  "heights_reset (SetRedelegation u) = list_all (\<lambda>e. CreationHeight e = 0) (Entries u)"
| "heights_reset (SetUnbondingDelegation u) = list_all (\<lambda>e. CreationHeight e = 0) (Entries u)"
| "heights_reset (SetValidator v) = (UnbondingHeight v = 0)"
| "heights_reset (SetValidatorSigningInfo _ i) = (StartHeight i = 0)"
| "heights_reset _ = True"

text \<open>A call as the preparation makes it: its context height and the heights it writes.\<close>

definition proper :: "int \<Rightarrow> ('c, 'o) hcall \<Rightarrow> bool" where
  "proper height = (\<lambda>(ht, c). ht = (if phase c = 4 \<or> phase c = 5 then 0 else height) \<and> heights_reset c)"

definition proper_at :: "int \<Rightarrow> nat \<Rightarrow> ('c, 'o) hcall \<Rightarrow> bool" where
  "proper_at height n k \<longleftrightarrow> phase (snd k) = n \<and> proper height k"

lemma calls_must [calls_rules]: "Q (ht, c) \<Longrightarrow> calls Q (must C f ht c)"
  unfolding must_def by (intro calls_rules)

lemma calls_attempt [calls_rules]: "Q (ht, c) \<Longrightarrow> calls Q (attempt C ht c)"
  unfolding attempt_def by (intro calls_rules)

lemma calls_iterate [calls_rules]: "(\<And>x. calls Q (body x)) \<Longrightarrow> calls Q (iterate visit body)"
  unfolding iterate_def by (intro calls_rules)

lemma reset_entries_zero: "list_all (\<lambda>e. CreationHeight e = 0) (Entries (reset_entries u))"
  by (simp add: reset_entries_def list_all_iff)

lemmas part_defs =
  withdraw_commission_def withdraw_rewards_def reinit_validator_def reinit_delegation_def
  reset_redelegation_def reset_unbonding_def reset_validator_def reset_signing_info_def

lemma part_calls:
  "calls (proper_at height 0) (withdraw_commission C height v)"
  "calls (proper_at height 1) (withdraw_rewards C height d)"
  "calls (proper_at height 2) (attempt C height DeleteAllValidatorSlashEvents)"
  "calls (proper_at height 3) (attempt C height DeleteAllValidatorHistoricalRewards)"
  "calls (proper_at height 4) (reinit_validator C 0 v)"
  "calls (proper_at height 5) (reinit_delegation C 0 d)"
  "calls (proper_at height 6) (reset_redelegation C height r)"
  "calls (proper_at height 7) (reset_unbonding C height r)"
  "calls (proper_at height 8) (reset_validator C b allowed height a)"
  "calls (proper_at height 9) (must C PanicErr height ApplyAndReturnValidatorSetUpdates)"
  "calls (proper_at height 10) (reset_signing_info C height i)"
  unfolding part_defs Let_def
  by (intro calls_rules; simp add: proper_at_def proper_def reset_entries_zero)+

section \<open>Order, context heights and written heights\<close>

lemma in_phases_ret: "in_phases p a (ret x) a"
  by (rule in_phases_single) (rule calls_ret)

text \<open>Parts of one phase\<close>

definition runs :: "int \<Rightarrow> nat \<Rightarrow> ('c, 'o, 'x, 'a) export \<Rightarrow> nat \<Rightarrow> bool" where
  "runs height a m b \<longleftrightarrow> calls (proper height) m \<and> in_phases (\<lambda>k. phase (snd k)) a m b"

lemma runs_part: "calls (proper_at height n) m \<Longrightarrow> runs height n m n"
  unfolding runs_def
proof
  assume m: "calls (proper_at height n) m"
  then show "calls (proper height) m" by (rule calls_mono) (simp add: proper_at_def)
  from m have "calls (\<lambda>k. phase (snd k) = n) m" by (rule calls_mono) (simp add: proper_at_def)
  then show "in_phases (\<lambda>k. phase (snd k)) n m n" by (rule in_phases_single)
qed

lemma runs_seqp:
  "runs height a m b \<Longrightarrow> (\<And>x. runs height b' (k x) c) \<Longrightarrow> a \<le> b \<Longrightarrow> b \<le> b' \<Longrightarrow> b' \<le> c
    \<Longrightarrow> runs height a (seqp m k) c"
  unfolding runs_def
  by (blast intro: calls_seqp in_phases_seqp in_phases_mono le_trans)

lemma runs_read: "(\<And>x. runs height a (k x) c) \<Longrightarrow> a \<le> c \<Longrightarrow> calls (\<lambda>_. False) m \<Longrightarrow> runs height a (seqp m k) c"
  by (rule runs_seqp [of _ _ _ a]) (auto intro!: runs_part elim: calls_mono)

lemma runs_each: "(\<And>x. calls (proper_at height n) (f x)) \<Longrightarrow> runs height n (each f xs) n"
  by (intro runs_part calls_rules)

lemma runs_iterate: "(\<And>x. calls (proper_at height n) (f x)) \<Longrightarrow> runs height n (iterate visit f) n"
  by (intro runs_part calls_rules)

lemma finish_runs: "runs height 9 (finish_staking C height) 10"
proof -
  have "runs height 9 (seqp (must C PanicErr height ApplyAndReturnValidatorSetUpdates)
      (\<lambda>_. iterate (IterateValidatorSigningInfos C) (reset_signing_info C height))) 10"
    by (rule runs_seqp [OF runs_part [OF part_calls(10)] runs_iterate [OF part_calls(11)]]) simp_all
  moreover have "runs height 9 (ret ()) 10"
    unfolding runs_def by (intro conjI calls_ret in_phases_mono [OF in_phases_ret [of _ 9]]) simp_all
  ultimately show ?thesis
    unfolding finish_staking_def
    by (intro runs_read calls_ask) (auto split: option.split)
qed

lemma distribution_runs: "runs height 0 (distribution_state C height) 5"
  unfolding distribution_state_def
  by (rule runs_seqp [OF runs_iterate [OF part_calls(1)]],
      rule runs_read, rule runs_read,
      rule runs_seqp [OF runs_each [OF part_calls(2)]],
      rule runs_seqp [OF runs_part [OF part_calls(3)]],
      rule runs_seqp [OF runs_part [OF part_calls(4)]],
      rule runs_seqp [OF runs_iterate [OF part_calls(5)] runs_each [OF part_calls(6)]])
     (auto intro: calls_rules)

lemma staking_runs: "runs height 6 (staking_state C b allowed height) 10"
  unfolding staking_state_def
  by (rule runs_seqp [OF runs_iterate [OF part_calls(7)]],
      rule runs_seqp [OF runs_iterate [OF part_calls(8)]],
      rule runs_read, rule runs_read, rule runs_read,
      rule runs_seqp [OF runs_each [OF part_calls(9)] finish_runs])
     (auto intro: calls_rules)

lemma prep_runs: "runs height 0 (prepForZeroHeightGenesis C height J) 10"
  unfolding prepForZeroHeightGenesis_def Let_def
  by (rule runs_read, rule runs_seqp [OF distribution_runs staking_runs]) (auto intro: calls_rules)

section \<open>The parts when they return normally\<close>

lemma must_Inr [simp]:
  "must C f ht c h = (Inr u, h') \<longleftrightarrow> CallError C h (ht, c) = None \<and> h' = h @ [(ht, c)]"
  by (auto simp: must_def seqp_Inr)

lemma attempt_Inr [simp]: "attempt C ht c h = (Inr u, h') \<longleftrightarrow> h' = h @ [(ht, c)]"
  by (auto simp: attempt_def seqp_Inr)

lemma iterate_Inr:
  "iterate visit body h = (Inr u, h') \<longleftrightarrow> (\<exists>xs. visit h = (xs, None) \<and> each body xs h = (Inr (), h'))"
  by (cases "visit h") (auto simp: iterate_def seqp_Inr)

lemma iterate_exact:
  assumes "iterate visit body h = (Inr u, h')"
    and "\<And>x h u h'. body x h = (Inr u, h') \<Longrightarrow> h' = h @ [g x]"
  shows "h' = h @ map g (fst (visit h))"
proof -
  from assms(1) obtain xs where v: "visit h = (xs, None)" and e: "each body xs h = (Inr (), h')"
    by (auto simp: iterate_Inr)
  from each_exact [of body g, OF assms(2) e] v show ?thesis by simp
qed

text \<open>The validator as it is written back\<close>

definition reset_of :: "string list \<Rightarrow> string \<Rightarrow> 'o validator \<Rightarrow> 'o validator" where
  "reset_of J s v =
     v\<lparr>UnbondingHeight := 0, Jailed := Jailed v \<or> (J \<noteq> [] \<and> s \<notin> set J)\<rparr>"

lemma reset_of_simps:
  "J \<noteq> [] \<Longrightarrow> s \<notin> set J \<Longrightarrow> reset_of J s v = v\<lparr>UnbondingHeight := 0, Jailed := True\<rparr>"
  "s \<in> set J \<Longrightarrow> reset_of J s v = v\<lparr>UnbondingHeight := 0\<rparr>"
  "reset_of [] s v = v\<lparr>UnbondingHeight := 0\<rparr>"
  by (cases v; simp add: reset_of_def)+

lemma allowed_map_Inr:
  "allowed_map C J m = Inr m' \<longleftrightarrow> (\<forall>a \<in> set J. \<exists>z. ValAddr C a = Inr z) \<and> m' = (\<lambda>a. m a \<or> a \<in> set J)"
  by (induction J arbitrary: m) (auto simp: bindE_Inr_iff fun_eq_iff)

lemma allowed_map_Inl:
  "(\<exists>x. allowed_map C J m = Inl x) \<longleftrightarrow> (\<exists>a \<in> set J. \<exists>x. ValAddr C a = Inl x)"
  by (induction J arbitrary: m) (auto simp: bindE_Inl_iff, metis sum.exhaust)

lemma reset_validator_Inr:
  assumes "reset_validator C (length J > 0) (\<lambda>a. a \<in> set J) height a h = (Inr u, h')"
  shows "\<exists>v s. GetValidator C a h = Inr v \<and> StakingValString C a = Inr s
    \<and> h' = h @ [(height, SetValidator (reset_of J s v))]"
proof -
  from assms obtain v s where v: "GetValidator C a h = Inr v" and s: "StakingValString C a = Inr s"
    and h': "h' = h @ [(height, SetValidator (if length J > 0 \<and> s \<notin> set J
        then v\<lparr>UnbondingHeight := 0, Jailed := True\<rparr> else v\<lparr>UnbondingHeight := 0\<rparr>))]"
    by (auto simp only: reset_validator_def seqp_Inr ask_eq unwrap_Inr must_Inr Let_def mem_Collect_eq
        cong: if_cong)
  then show ?thesis by (cases "J = []"; cases "s \<in> set J") (simp_all add: reset_of_simps)
qed

lemma prep_Inr:
  assumes "prepForZeroHeightGenesis C height J h = (Inr u, h')"
  obtains h1 where "distribution_state C height h = (Inr (), h1)"
    and "staking_state C (length J > 0) (\<lambda>a. a \<in> set J) height h1 = (Inr (), h')"
    and "\<forall>a \<in> set J. \<exists>z. ValAddr C a = Inr z"
  using assms by (auto simp: prepForZeroHeightGenesis_def seqp_Inr allowed_map_Inr)

lemma staking_Inr:
  assumes "staking_state C b allowed height h = (Inr u, h')"
  obtains h1 h2 h3 where "iterate (IterateRedelegations C) (reset_redelegation C height) h = (Inr (), h1)"
    "iterate (IterateUnbondingDelegations C) (reset_unbonding C height) h1 = (Inr (), h2)"
    "each (reset_validator C b allowed height) (ValidatorKeys C h2) h2 = (Inr (), h3)"
    "finish_staking C height h3 = (Inr (), h')"
  using assms by (auto simp: staking_state_def seqp_Inr)

lemma distribution_Inr:
  assumes "distribution_state C height h = (Inr u, h')"
  obtains h1 dels h2 h3 where "iterate (IterateValidators C) (withdraw_commission C height) h = (Inr (), h1)"
    "GetAllDelegations C h1 = Inr dels" "each (withdraw_rewards C height) dels h1 = (Inr (), h2)"
    "iterate (IterateValidators C) (reinit_validator C 0)
        (h2 @ [(height, DeleteAllValidatorSlashEvents), (height, DeleteAllValidatorHistoricalRewards)]) = (Inr (), h3)"
    "each (reinit_delegation C 0) dels h3 = (Inr (), h')"
  using assms by (auto simp: distribution_state_def seqp_Inr)

lemma redelegations_exact:
  "iterate (IterateRedelegations C) (reset_redelegation C height) h = (Inr u, h') \<Longrightarrow>
   h' = h @ map (\<lambda>r. (height, SetRedelegation (reset_entries r))) (fst (IterateRedelegations C h))"
  by (erule iterate_exact) (simp add: reset_redelegation_def)

lemma unbondings_exact:
  "iterate (IterateUnbondingDelegations C) (reset_unbonding C height) h = (Inr u, h') \<Longrightarrow>
   h' = h @ map (\<lambda>r. (height, SetUnbondingDelegation (reset_entries r))) (fst (IterateUnbondingDelegations C h))"
  by (erule iterate_exact) (simp add: reset_unbonding_def)

lemma signing_infos_exact:
  "iterate (IterateValidatorSigningInfos C) (reset_signing_info C height) h = (Inr u, h') \<Longrightarrow>
   h' = h @ map (\<lambda>(a, i). (height, SetValidatorSigningInfo a (i\<lparr>StartHeight := 0\<rparr>)))
          (fst (IterateValidatorSigningInfos C h))"
  by (erule iterate_exact) (auto simp: reset_signing_info_def split: prod.splits)

lemma validators_exact:
  assumes "each (reset_validator C (length J > 0) (\<lambda>a. a \<in> set J) height) keys h = (Inr u, h')"
  shows "\<exists>t. h' = h @ t \<and> length t = length keys \<and> (\<forall>i < length keys. \<exists>v s.
    GetValidator C (keys ! i) (h @ take i t) = Inr v \<and> StakingValString C (keys ! i) = Inr s
    \<and> t ! i = (height, SetValidator (reset_of J s v)))"
  by (rule each_calls [OF _ assms]) (use reset_validator_Inr in blast)

section \<open>The community pool\<close>

text \<open>
  What the code relies on in the distribution keeper: the fee pool is what was last set, and
  creating the records of a validator does not change it.
\<close>

definition fee_pool_law :: "('c, 'o, 'x) chain \<Rightarrow> bool" where
  "fee_pool_law C \<longleftrightarrow>
     (\<forall>h ht p. CallError C h (ht, FeePool_Set p) = None \<longrightarrow>
        FeePool_Get C (h @ [(ht, FeePool_Set p)]) = Inr p)
   \<and> (\<forall>h ht a. FeePool_Get C (h @ [(ht, AfterValidatorCreated a)]) = FeePool_Get C h)"

lemma reinit_validator_Inr:
  assumes "reinit_validator C 0 v h = (Inr u, h')"
  shows "\<exists>a r p. StakingValAddr C (Operator v) = Inr a \<and> OutstandingRewards C a h = Inr r
    \<and> FeePool_Get C h = Inr p
    \<and> CallError C h (0, FeePool_Set (p\<lparr>CommunityPool := Add C (CommunityPool p) r\<rparr>)) = None
    \<and> h' = h @ [(0, FeePool_Set (p\<lparr>CommunityPool := Add C (CommunityPool p) r\<rparr>)), (0, AfterValidatorCreated a)]"
  using assms by (auto simp: reinit_validator_def seqp_Inr)

lemma reinit_validator_pool:
  assumes "fee_pool_law C" "reinit_validator C 0 v h = (Inr u, h')" "FeePool_Get C h = Inr p"
  shows "\<exists>a r. StakingValAddr C (Operator v) = Inr a \<and> OutstandingRewards C a h = Inr r
    \<and> FeePool_Get C h' = Inr (p\<lparr>CommunityPool := Add C (CommunityPool p) r\<rparr>)"
proof -
  from reinit_validator_Inr [OF assms(2)] assms(3) obtain a r where
    a: "StakingValAddr C (Operator v) = Inr a" "OutstandingRewards C a h = Inr r"
    and e: "CallError C h (0, FeePool_Set (p\<lparr>CommunityPool := Add C (CommunityPool p) r\<rparr>)) = None"
    and h': "h' = (h @ [(0, FeePool_Set (p\<lparr>CommunityPool := Add C (CommunityPool p) r\<rparr>))])
        @ [(0, AfterValidatorCreated a)]"
    by auto
  have "FeePool_Get C h' = Inr (p\<lparr>CommunityPool := Add C (CommunityPool p) r\<rparr>)"
    unfolding h' using assms(1) e by (simp only: fee_pool_law_def)
  with a show ?thesis by blast
qed

lemma each_pool:
  assumes "fee_pool_law C" "each (reinit_validator C 0) vs h = (Inr u, h')" "FeePool_Get C h = Inr p"
  shows "\<exists>t rs. h' = h @ t \<and> length rs = length vs
    \<and> (\<forall>i < length vs. \<exists>a. StakingValAddr C (Operator (vs ! i)) = Inr a
          \<and> OutstandingRewards C a (h @ take (2 * i) t) = Inr (rs ! i))
    \<and> FeePool_Get C h' = Inr (p\<lparr>CommunityPool := foldl (Add C) (CommunityPool p) rs\<rparr>)"
  using assms(2,3)
proof (induction vs arbitrary: h p)
  case Nil
  then show ?case by (cases p) simp
next
  case (Cons v vs)
  then obtain u1 h1 where f: "reinit_validator C 0 v h = (Inr u1, h1)"
    and e: "each (reinit_validator C 0) vs h1 = (Inr u, h')"
    by (auto simp: seqp_Inr)
  from reinit_validator_Inr [OF f] obtain c1 c2 where c: "h1 = h @ [c1, c2]" by blast
  from reinit_validator_pool [OF assms(1) f Cons.prems(2)] obtain a r where
    a: "StakingValAddr C (Operator v) = Inr a" "OutstandingRewards C a h = Inr r"
    and p1: "FeePool_Get C h1 = Inr (p\<lparr>CommunityPool := Add C (CommunityPool p) r\<rparr>)"
    by blast
  from Cons.IH [OF e p1] obtain t rs where t: "h' = h1 @ t" "length rs = length vs"
    "\<forall>i < length vs. \<exists>a. StakingValAddr C (Operator (vs ! i)) = Inr a
        \<and> OutstandingRewards C a (h1 @ take (2 * i) t) = Inr (rs ! i)"
    "FeePool_Get C h' = Inr (p\<lparr>CommunityPool := foldl (Add C) (Add C (CommunityPool p) r) rs\<rparr>)"
    by auto
  have "\<exists>a. StakingValAddr C (Operator ((v # vs) ! i)) = Inr a
      \<and> OutstandingRewards C a (h @ take (2 * i) (c1 # c2 # t)) = Inr ((r # rs) ! i)"
    if "i < length (v # vs)" for i
    using that a c t(3) by (cases i) simp_all
  with c t show ?case by (intro exI [of _ "c1 # c2 # t"] exI [of _ "r # rs"]) simp
qed

section \<open>A concrete chain for the witnesses\<close>

text \<open>
  One validator whose operator address has two spellings, one delegation, one redelegation, one
  unbonding delegation, one signing info; rewards are numbers.
\<close>

definition sample_fee_pool :: "(nat, unit) hcall list \<Rightarrow> (nat, unit) fee_pool" where
  "sample_fee_pool h =
     foldl (\<lambda>p k. case snd k of FeePool_Set q \<Rightarrow> q | _ \<Rightarrow> p) \<lparr>CommunityPool = 10, pool_rest = ()\<rparr> h"

definition sample_validator :: "unit validator" where
  "sample_validator = \<lparr>Operator = ''tatvaloper1a'', UnbondingHeight = 7, Jailed = False, val_rest = ()\<rparr>"

definition sample_val_addr :: "string \<Rightarrow> string + addr" where
  "sample_val_addr s = (if s = ''tatvaloper1a'' \<or> s = ''TATVALOPER1A'' then Inr [1] else Inl ''bad address'')"

definition sample_chain :: "string option \<Rightarrow> (nat, unit, string) chain" where
  "sample_chain close = \<lparr>
     ValAddr = sample_val_addr,
     AccAddr = (\<lambda>s. Inr [2]),
     StakingValAddr = sample_val_addr,
     StakingValString = (\<lambda>a. Inr ''tatvaloper1a''),
     CallError = (\<lambda>h c. None),
     IterateValidators = (\<lambda>h. ([sample_validator], None)),
     GetAllDelegations = (\<lambda>h. Inr [\<lparr>DelegatorAddress = ''tat1d'', ValidatorAddress = ''tatvaloper1a''\<rparr>]),
     OutstandingRewards = (\<lambda>a h. Inr 3),
     FeePool_Get = (\<lambda>h. Inr (sample_fee_pool h)),
     Add = (+),
     IterateRedelegations = (\<lambda>h. ([\<lparr>Entries = [\<lparr>CreationHeight = 5, entry_rest = ()\<rparr>], unbonding_rest = ()\<rparr>], None)),
     IterateUnbondingDelegations = (\<lambda>h. ([\<lparr>Entries = [\<lparr>CreationHeight = 6, entry_rest = ()\<rparr>], unbonding_rest = ()\<rparr>], None)),
     StakingStore = (\<lambda>h. None), ValidatorKeys = (\<lambda>h. [[1]]),
     GetValidator = (\<lambda>a h. Inr sample_validator),
     IterClose = (\<lambda>h. close),
     IterateValidatorSigningInfos = (\<lambda>h. ([([3], \<lparr>StartHeight = 9, info_rest = ()\<rparr>)], None)) \<rparr>"

lemma sample_fee_pool_law: "fee_pool_law (sample_chain close)"
  by (simp add: fee_pool_law_def sample_chain_def sample_fee_pool_def)

definition sample_reset_calls :: "bool \<Rightarrow> (nat, unit) hcall list" where
  "sample_reset_calls jailed =
    [(42, WithdrawValidatorCommission [1]), (42, WithdrawDelegationRewards [2] [1]),
     (42, DeleteAllValidatorSlashEvents), (42, DeleteAllValidatorHistoricalRewards),
     (0, FeePool_Set \<lparr>CommunityPool = 13, pool_rest = ()\<rparr>), (0, AfterValidatorCreated [1]),
     (0, BeforeDelegationCreated [2] [1]), (0, AfterDelegationModified [2] [1]),
     (42, SetRedelegation \<lparr>Entries = [\<lparr>CreationHeight = 0, entry_rest = ()\<rparr>], unbonding_rest = ()\<rparr>),
     (42, SetUnbondingDelegation \<lparr>Entries = [\<lparr>CreationHeight = 0, entry_rest = ()\<rparr>], unbonding_rest = ()\<rparr>),
     (42, SetValidator \<lparr>Operator = ''tatvaloper1a'', UnbondingHeight = 0, Jailed = jailed, val_rest = ()\<rparr>)]"

definition sample_final_calls :: "(nat, unit) hcall list" where
  "sample_final_calls =
    [(42, ApplyAndReturnValidatorSetUpdates), (42, SetValidatorSigningInfo [3] \<lparr>StartHeight = 0, info_rest = ()\<rparr>)]"

lemmas run_defs =
  prepForZeroHeightGenesis_def distribution_state_def staking_state_def finish_staking_def
  iterate_def must_def attempt_def part_defs reset_entries_def Let_def

lemma sample_run:
  "prepForZeroHeightGenesis (sample_chain None) 42 [] [] =
    (Inr (), sample_reset_calls False @ sample_final_calls)"
  by (simp add: run_defs prog_defs sample_chain_def sample_val_addr_def sample_validator_def
      sample_fee_pool_def sample_reset_calls_def sample_final_calls_def)

lemma sample_run_uppercase:
  "prepForZeroHeightGenesis (sample_chain None) 42 [''TATVALOPER1A''] [] =
    (Inr (), sample_reset_calls True @ sample_final_calls)"
  by (simp add: run_defs prog_defs sample_chain_def sample_val_addr_def sample_validator_def
      sample_fee_pool_def sample_reset_calls_def sample_final_calls_def)

lemma sample_run_close:
  "prepForZeroHeightGenesis (sample_chain (Some ''close'')) 42 [] [] =
    (Inr (), sample_reset_calls False)"
  by (simp add: run_defs prog_defs sample_chain_def sample_val_addr_def sample_validator_def
      sample_fee_pool_def sample_reset_calls_def)

section \<open>The shape of a normal run\<close>

lemma finish_exact:
  assumes "finish_staking C height h = (Inr u, h')"
  shows "h' = h @ (if IterClose C h = None then (height, ApplyAndReturnValidatorSetUpdates)
      # map (\<lambda>(a, i). (height, SetValidatorSigningInfo a (i\<lparr>StartHeight := 0\<rparr>)))
          (fst (IterateValidatorSigningInfos C (h @ [(height, ApplyAndReturnValidatorSetUpdates)])))
    else [])"
proof (cases "IterClose C h")
  case None
  with assms have "iterate (IterateValidatorSigningInfos C) (reset_signing_info C height)
      (h @ [(height, ApplyAndReturnValidatorSetUpdates)]) = (Inr u, h')"
    by (auto simp: finish_staking_def seqp_Inr)
  from signing_infos_exact [OF this] None show ?thesis by simp
next
  case (Some x)
  with assms show ?thesis by (auto simp: finish_staking_def seqp_Inr)
qed

lemma finish_phases:
  assumes "finish_staking C height h = (Inr u, h')"
  shows "\<exists>t. h' = h @ t \<and> list_all (\<lambda>k. 9 \<le> phase (snd k)) t"
  using finish_runs [of height C] assms
  unfolding runs_def in_phases_def list_all_iff by (metis snd_conv)

lemma distribution_phases:
  assumes "distribution_state C height h = (Inr u, h')"
  shows "\<exists>t. h' = h @ t \<and> list_all (\<lambda>k. phase (snd k) \<le> 5) t"
  using distribution_runs [of height C] assms
  unfolding runs_def in_phases_def list_all_iff by (metis snd_conv)

text \<open>The calls of a normal run: distribution, redelegations, unbondings, validators, the end\<close>

definition segments where
  "segments C height J h t1 t2 t3 t4 t5 \<longleftrightarrow>
     list_all (\<lambda>k. phase (snd k) \<le> 5) t1
   \<and> t2 = map (\<lambda>r. (height, SetRedelegation (reset_entries r))) (fst (IterateRedelegations C (h @ t1)))
   \<and> t3 = map (\<lambda>r. (height, SetUnbondingDelegation (reset_entries r)))
       (fst (IterateUnbondingDelegations C (h @ t1 @ t2)))
   \<and> length t4 = length (ValidatorKeys C (h @ t1 @ t2 @ t3))
   \<and> (\<forall>i < length t4. \<exists>v s.
        GetValidator C (ValidatorKeys C (h @ t1 @ t2 @ t3) ! i) (h @ t1 @ t2 @ t3 @ take i t4) = Inr v
      \<and> StakingValString C (ValidatorKeys C (h @ t1 @ t2 @ t3) ! i) = Inr s
      \<and> t4 ! i = (height, SetValidator (reset_of J s v)))
   \<and> list_all (\<lambda>k. 9 \<le> phase (snd k)) t5"

lemma prep_segments:
  fixes C :: "('c, 'o, 'x) chain"
  assumes "prepForZeroHeightGenesis C height J h = (Inr u, h')"
  obtains t1 t2 t3 t4 t5 where "segments C height J h t1 t2 t3 t4 t5"
    "h' = h @ t1 @ t2 @ t3 @ t4 @ t5" "finish_staking C height (h @ t1 @ t2 @ t3 @ t4) = (Inr (), h')"
proof -
  from assms obtain h1 where d: "distribution_state C height h = (Inr (), h1)"
    and s: "staking_state C (length J > 0) (\<lambda>a. a \<in> set J) height h1 = (Inr (), h')"
    by (rule prep_Inr)
  from distribution_phases [OF d] obtain t1 where t1: "h1 = h @ t1" "list_all (\<lambda>k. phase (snd k) \<le> 5) t1"
    by blast
  from s obtain h2 h3 h4 where
    r: "iterate (IterateRedelegations C) (reset_redelegation C height) h1 = (Inr (), h2)"
    and n: "iterate (IterateUnbondingDelegations C) (reset_unbonding C height) h2 = (Inr (), h3)"
    and v: "each (reset_validator C (length J > 0) (\<lambda>a. a \<in> set J) height) (ValidatorKeys C h3) h3 = (Inr (), h4)"
    and f: "finish_staking C height h4 = (Inr (), h')"
    by (rule staking_Inr)
  define t2 where "t2 = map (\<lambda>r. (height, SetRedelegation (reset_entries r) :: ('c, 'o) call))
      (fst (IterateRedelegations C (h @ t1)))"
  have h2: "h2 = h @ t1 @ t2"
    using redelegations_exact [OF r] unfolding t1(1) t2_def append_assoc .
  define t3 where "t3 = map (\<lambda>r. (height, SetUnbondingDelegation (reset_entries r) :: ('c, 'o) call))
      (fst (IterateUnbondingDelegations C (h @ t1 @ t2)))"
  have h3: "h3 = h @ t1 @ t2 @ t3"
    using unbondings_exact [OF n] unfolding h2 t3_def append_assoc .
  obtain t4 where t4: "h4 = h3 @ t4" "length t4 = length (ValidatorKeys C h3)"
    "\<forall>i < length t4. \<exists>v s. GetValidator C (ValidatorKeys C h3 ! i) (h3 @ take i t4) = Inr v
      \<and> StakingValString C (ValidatorKeys C h3 ! i) = Inr s
      \<and> t4 ! i = (height, SetValidator (reset_of J s v))"
    using validators_exact [OF v] by metis
  have h4: "h4 = h @ t1 @ t2 @ t3 @ t4" by (simp only: t4(1) h3 append_assoc)
  obtain t5 where t5: "h' = h4 @ t5" "list_all (\<lambda>k. 9 \<le> phase (snd k)) t5"
    using finish_phases [OF f] by blast
  have "segments C height J h t1 t2 t3 t4 t5"
    unfolding segments_def
    by (intro conjI t1(2) t2_def t3_def t4(2,3) [unfolded h3 append_assoc] t5(2))
  moreover have "h' = h @ t1 @ t2 @ t3 @ t4 @ t5" by (simp only: t5(1) h4 append_assoc)
  ultimately show thesis using f unfolding h4 by (rule that)
qed

text \<open>The calls of a phase in a normal run\<close>

lemma segments_phase:
  assumes "segments C height J h t1 t2 t3 t4 t5"
  shows "filter (\<lambda>k. phase (snd k) = 8) (t1 @ t2 @ t3 @ t5) = []"
    and "filter (\<lambda>k. phase (snd k) = 6 \<or> phase (snd k) = 7) (t1 @ t2 @ t3 @ t4 @ t5) = t2 @ t3"
    and segments_upto: "list_all (\<lambda>k. phase (snd k) \<le> 8) (t1 @ t2 @ t3 @ t4)"
proof -
  have t1: "\<forall>k \<in> set t1. phase (snd k) \<le> 5" and t5: "\<forall>k \<in> set t5. 9 \<le> phase (snd k)"
    and t2: "\<forall>k \<in> set t2. phase (snd k) = 6" and t3: "\<forall>k \<in> set t3. phase (snd k) = 7"
    using assms by (auto simp: segments_def list_all_iff)
  have t4: "\<forall>k \<in> set t4. phase (snd k) = 8"
    using assms unfolding segments_def in_set_conv_nth Ball_def by (metis phase.simps(11) snd_conv)
  show "list_all (\<lambda>k. phase (snd k) \<le> 8) (t1 @ t2 @ t3 @ t4)"
    using t1 t2 t3 t4 by (fastforce simp: list_all_iff)
  show "filter (\<lambda>k. phase (snd k) = 8) (t1 @ t2 @ t3 @ t5) = []"
    using t1 t2 t3 t5 by (auto simp: filter_empty_conv)
  have "filter (\<lambda>k. phase (snd k) = 6 \<or> phase (snd k) = 7) t1 = []"
    "filter (\<lambda>k. phase (snd k) = 6 \<or> phase (snd k) = 7) t4 = []"
    "filter (\<lambda>k. phase (snd k) = 6 \<or> phase (snd k) = 7) t5 = []"
    using t1 t4 t5 by (auto simp: filter_empty_conv)
  moreover have "filter (\<lambda>k. phase (snd k) = 6 \<or> phase (snd k) = 7) t2 = t2"
    "filter (\<lambda>k. phase (snd k) = 6 \<or> phase (snd k) = 7) t3 = t3"
    using t2 t3 by (auto simp: filter_id_conv)
  ultimately show "filter (\<lambda>k. phase (snd k) = 6 \<or> phase (snd k) = 7) (t1 @ t2 @ t3 @ t4 @ t5) = t2 @ t3"
    by simp
qed

section \<open>How the preparation can panic\<close>

text \<open>The calls whose errors the code drops, and the panic that the error of another call is turned into\<close>

fun dropped :: "('c, 'o) call \<Rightarrow> bool" where
  "dropped (WithdrawValidatorCommission v) = True"
| "dropped (WithdrawDelegationRewards d v) = True"
| "dropped DeleteAllValidatorSlashEvents = True"
| "dropped DeleteAllValidatorHistoricalRewards = True"
| "dropped (SetValidatorSigningInfo a i) = True"
| "dropped c = False"

fun call_panic :: "('c, 'o) call \<Rightarrow> 'x \<Rightarrow> 'x panic" where
  "call_panic (BeforeDelegationCreated d v) = PanicWrapped ''error while incrementing period''"
| "call_panic (AfterDelegationModified d v) = PanicWrapped ''error while creating a new delegation period record''"
| "call_panic c = PanicErr"

text \<open>
  The reasons for a panic, each with its value and the calls made up to it: what was asked or called last
  has failed, or something that was read after the calls \<open>g\<close>, earlier in the same run, cannot be used. The
  run began with the calls \<open>h0\<close>.
\<close>

inductive panic_cause ::
  "('c, 'o, 'x) chain \<Rightarrow> string list \<Rightarrow> ('c, 'o) hcall list \<Rightarrow> 'x panic \<Rightarrow> ('c, 'o) hcall list \<Rightarrow> bool"
  for C J h0 where
  AllowedAddress: "a \<in> set J \<Longrightarrow> ValAddr C a = Inl x \<Longrightarrow> panic_cause C J h0 (PanicErr x) h0"
| FailedCall: "\<not> dropped c \<Longrightarrow> CallError C g (ht, c) = Some x \<Longrightarrow> panic_cause C J h0 (call_panic c x) (g @ [(ht, c)])"
| ValidatorsIteration: "prefix h0 g \<Longrightarrow> prefix g h \<Longrightarrow> snd (IterateValidators C g) = Some x \<Longrightarrow> panic_cause C J h0 (PanicErr x) h"
| ValidatorAddress: "prefix h0 g \<Longrightarrow> prefix g h \<Longrightarrow> v \<in> set (fst (IterateValidators C g)) \<Longrightarrow>
    StakingValAddr C (Operator v) = Inl x \<Longrightarrow> panic_cause C J h0 (PanicErr x) h"
| Rewards: "prefix h0 g \<Longrightarrow> prefix g h \<Longrightarrow> v \<in> set (fst (IterateValidators C g)) \<Longrightarrow>
    StakingValAddr C (Operator v) = Inr a \<Longrightarrow> OutstandingRewards C a h = Inl x \<Longrightarrow> panic_cause C J h0 (PanicErr x) h"
| FeePool: "FeePool_Get C h = Inl x \<Longrightarrow> panic_cause C J h0 (PanicErr x) h"
| Delegations: "GetAllDelegations C h = Inl x \<Longrightarrow> panic_cause C J h0 (PanicErr x) h"
| DelegationAddress: "prefix h0 g \<Longrightarrow> prefix g h \<Longrightarrow> GetAllDelegations C g = Inr dels \<Longrightarrow> d \<in> set dels \<Longrightarrow>
    ValAddr C (ValidatorAddress d) = Inl x \<or> AccAddr C (DelegatorAddress d) = Inl x \<Longrightarrow> panic_cause C J h0 (PanicErr x) h"
| Redelegations: "prefix h0 g \<Longrightarrow> prefix g h \<Longrightarrow> snd (IterateRedelegations C g) = Some x \<Longrightarrow> panic_cause C J h0 (PanicErr x) h"
| Unbondings: "prefix h0 g \<Longrightarrow> prefix g h \<Longrightarrow> snd (IterateUnbondingDelegations C g) = Some x \<Longrightarrow> panic_cause C J h0 (PanicErr x) h"
| Store: "StakingStore C h = Some x \<Longrightarrow> panic_cause C J h0 (PanicErr x) h"
| ValidatorMissing: "prefix h0 g \<Longrightarrow> prefix g h \<Longrightarrow> a \<in> set (ValidatorKeys C g) \<Longrightarrow> GetValidator C a h = Inl x \<Longrightarrow>
    panic_cause C J h0 (PanicMsg ''expected validator, not found'') h"
| ValidatorKey: "prefix h0 g \<Longrightarrow> prefix g h \<Longrightarrow> a \<in> set (ValidatorKeys C g) \<Longrightarrow> StakingValString C a = Inl x \<Longrightarrow>
    panic_cause C J h0 (PanicErr x) h"
| SigningInfos: "prefix h0 g \<Longrightarrow> prefix g h \<Longrightarrow> snd (IterateValidatorSigningInfos C g) = Some x \<Longrightarrow> panic_cause C J h0 (PanicErr x) h"

text \<open>\<open>halts g P m\<close>: when \<open>m\<close> is run after \<open>g\<close> and possibly more calls, and stops, then \<open>P\<close> holds where it stops.\<close>

named_theorems halts_rules "rules for how a program after some calls can stop"

definition halts :: "'k list \<Rightarrow> ('e \<Rightarrow> 'k list \<Rightarrow> bool) \<Rightarrow> ('k, 'e, 'a) prog \<Rightarrow> bool" where
  "halts g P m \<longleftrightarrow> (\<forall>h e h'. prefix g h \<longrightarrow> m h = (Inl e, h') \<longrightarrow> P e h')"

lemma halts_mono: "halts g P m \<Longrightarrow> prefix g g' \<Longrightarrow> halts g' P m"
  unfolding halts_def by (meson prefix_order.trans)

lemma halts_ret [halts_rules]: "halts g P (ret x)"
  by (simp add: halts_def)

lemma calls_prefix: "calls Q m \<Longrightarrow> m h = (r, h') \<Longrightarrow> prefix h h'"
  by (erule (1) callsD) simp

lemma halts_seqp:
  assumes "halts g P m" "calls Q m" "\<And>x. halts g P (k x)"
  shows "halts g P (seqp m k)"
  unfolding halts_def
proof (intro allI impI)
  fix h e h'
  assume h: "prefix g h" and s: "seqp m k h = (Inl e, h')"
  obtain r h1 where m: "m h = (r, h1)" by (cases "m h")
  show "P e h'"
  proof (cases r)
    case (Inl e')
    with m s h assms(1) show ?thesis by (auto simp: seqp_def halts_def)
  next
    case (Inr x)
    have "prefix g h1" using h calls_prefix [OF assms(2) m] by (rule prefix_order.trans)
    moreover have "k x h1 = (Inl e, h')" using m s Inr by (simp add: seqp_def)
    ultimately show ?thesis using assms(3) [of x] by (auto simp: halts_def)
  qed
qed

lemma halts_each [halts_rules]:
  "(\<And>x. x \<in> set xs \<Longrightarrow> halts g P (f x)) \<Longrightarrow> (\<And>x. calls (\<lambda>_. True) (f x)) \<Longrightarrow> halts g P (each f xs)"
  by (induction xs) (auto intro: halts_ret halts_seqp)

text \<open>Something that is read, and a value that is looked up and must be there\<close>

lemma halts_ask [halts_rules]:
  "(\<And>g'. prefix g g' \<Longrightarrow> halts g' P (k (f g'))) \<Longrightarrow> halts g P (seqp (ask f) k)"
  by (auto simp: halts_def seqp_def ask_def)

lemma halts_unwrap [halts_rules]:
  "(\<And>x h. r = Inl x \<Longrightarrow> prefix g h \<Longrightarrow> P (w x) h) \<Longrightarrow> (\<And>y. r = Inr y \<Longrightarrow> halts g P (k y))
    \<Longrightarrow> halts g P (seqp (unwrap w r) k)"
  by (cases r) (auto simp: halts_def)

lemma halts_lookup [halts_rules]:
  "(\<And>x h. prefix g h \<Longrightarrow> q h = Inl x \<Longrightarrow> P (w x) h) \<Longrightarrow> (\<And>g' y. prefix g g' \<Longrightarrow> q g' = Inr y \<Longrightarrow> halts g' P (k y))
    \<Longrightarrow> halts g P (seqp (ask q) (\<lambda>r. seqp (unwrap w r) k))"
  unfolding halts_def
proof (intro allI impI)
  fix h e h'
  assume a: "\<And>x h. prefix g h \<Longrightarrow> q h = Inl x \<Longrightarrow> P (w x) h"
    and k: "\<And>g' y. prefix g g' \<Longrightarrow> q g' = Inr y \<Longrightarrow> \<forall>h e h'. prefix g' h \<longrightarrow> k y h = (Inl e, h') \<longrightarrow> P e h'"
    and h: "prefix g h" and s: "seqp (ask q) (\<lambda>r. seqp (unwrap w r) k) h = (Inl e, h')"
  show "P e h'"
  proof (cases "q h")
    case (Inl x)
    with s a [OF h] show ?thesis by (simp add: seqp_def ask_def)
  next
    case (Inr y)
    from s Inr have "k y h = (Inl e, h')" by (simp add: seqp_def ask_def)
    then show ?thesis using k [OF h Inr] prefix_order.refl by blast
  qed
qed

lemma halts_guard:
  "(\<And>x h. prefix g h \<Longrightarrow> q h = Some x \<Longrightarrow> P (w x) h) \<Longrightarrow> halts g P (k ())
    \<Longrightarrow> halts g P (seqp (ask q) (\<lambda>r. seqp (check w r) k))"
  by (auto simp: halts_def seqp_def ask_def check_def stop_def ret_def split: option.splits)

text \<open>A call whose error stops the run, one whose error is dropped, and an iteration\<close>

lemma halts_must [halts_rules]:
  "\<not> dropped c \<Longrightarrow> f = call_panic c \<Longrightarrow> halts g (panic_cause C J h0) (must C f ht c)"
  by (auto simp: halts_def must_def seqp_def perform_def check_def stop_def split: option.splits
      intro: panic_cause.FailedCall)

lemma halts_attempt [halts_rules]: "halts g P (attempt C ht c)"
  by (simp add: halts_def attempt_def seqp_def perform_def)

lemma halts_iterate [halts_rules]:
  assumes "\<And>g' x h. prefix g g' \<Longrightarrow> prefix g' h \<Longrightarrow> snd (visit g') = Some x \<Longrightarrow> P (PanicErr x) h"
    and "\<And>g' x. prefix g g' \<Longrightarrow> x \<in> set (fst (visit g')) \<Longrightarrow> halts g' P (body x)"
    and "\<And>x. calls (\<lambda>_. True) (body x)"
  shows "halts g P (iterate visit body)"
  unfolding iterate_def
proof (rule halts_ask)
  fix g'
  assume g': "prefix g g'"
  obtain xs err where v: "visit g' = (xs, err)" by (cases "visit g'")
  have "halts g' P (check PanicErr err)" using assms(1) [OF g'] v by (cases err) (auto simp: halts_def)
  then have "halts g' P (seqp (each body xs) (\<lambda>_. check PanicErr err))"
    using assms(2) [OF g'] assms(3) v by (intro halts_seqp [where Q = "\<lambda>_. True"] halts_each calls_each) auto
  then show "halts g' P (case visit g' of (xs, err) \<Rightarrow> seqp (each body xs) (\<lambda>_. check PanicErr err))"
    by (simp add: v)
qed

lemma halts_validator:
  assumes "prefix h0 g" "v \<in> set (fst (IterateValidators C g))"
  shows "halts g (panic_cause C J h0) (withdraw_commission C height v)"
    and "halts g (panic_cause C J h0) (reinit_validator C 0 v)"
  unfolding withdraw_commission_def reinit_validator_def
  by (intro halts_unwrap halts_attempt halts_lookup halts_seqp [where Q = "\<lambda>_. True"] halts_must calls_must;
      auto simp: fun_eq_iff intro: panic_cause.intros assms prefix_order.trans)+

lemma halts_delegation:
  assumes "prefix h0 g0" "prefix g0 g" "GetAllDelegations C g0 = Inr dels" "d \<in> set dels"
  shows "halts g (panic_cause C J h0) (withdraw_rewards C height d)"
    and "halts g (panic_cause C J h0) (reinit_delegation C 0 d)"
  unfolding withdraw_rewards_def reinit_delegation_def
  by (intro halts_unwrap halts_attempt halts_seqp [where Q = "\<lambda>_. True"] halts_must calls_must;
      auto simp: fun_eq_iff intro: panic_cause.DelegationAddress [OF assms(1) _ assms(3,4)] assms(2) prefix_order.trans)+

lemmas part_calls_True = part_calls [THEN calls_mono, OF TrueI]

lemma halts_distribution:
  assumes g: "prefix h0 g"
  shows "halts g (panic_cause C J h0) (distribution_state C height)"
proof -
  note seq = halts_seqp [where Q = "\<lambda>_. True"]
  have visit: "halts g' (panic_cause C J h0) (iterate (IterateValidators C) (withdraw_commission C height))"
    "halts g' (panic_cause C J h0) (iterate (IterateValidators C) (reinit_validator C 0))"
    if "prefix h0 g'" for g'
    using that by (intro halts_iterate part_calls_True halts_validator; auto intro: panic_cause.intros prefix_order.trans)+
  have rest: "halts g' (panic_cause C J h0) (seqp (each (withdraw_rewards C height) dels) (\<lambda>_.
      seqp (attempt C height DeleteAllValidatorSlashEvents) (\<lambda>_.
      seqp (attempt C height DeleteAllValidatorHistoricalRewards) (\<lambda>_.
      seqp (iterate (IterateValidators C) (reinit_validator C 0)) (\<lambda>_. each (reinit_delegation C 0) dels)))))"
    if g': "prefix h0 g'" and dels: "GetAllDelegations C g' = Inr dels" for dels g'
    by (intro seq halts_each halts_attempt visit [OF g'] part_calls_True calls_each calls_attempt calls_iterate
        halts_delegation [OF g' prefix_order.refl dels] TrueI) assumption+
  show ?thesis
    unfolding distribution_state_def
    by (intro seq visit [OF g] halts_lookup rest calls_iterate part_calls_True)
       (use g in \<open>auto intro: panic_cause.intros prefix_order.trans\<close>)
qed

lemma halts_staking:
  assumes g: "prefix h0 g"
  shows "halts g (panic_cause C J h0) (staking_state C app allowed height)"
proof -
  note seq = halts_seqp [where Q = "\<lambda>_. True"]
  have val: "halts g' (panic_cause C J h0) (reset_validator C app allowed height a)"
    if "prefix h0 g'" "a \<in> set (ValidatorKeys C g')" for a g'
    unfolding reset_validator_def Let_def
    by (intro halts_lookup halts_unwrap halts_must; auto simp: fun_eq_iff intro: panic_cause.intros that prefix_order.trans)
  have "halts g' (panic_cause C J h0) (iterate (IterateValidatorSigningInfos C) (reset_signing_info C height))"
    if "prefix h0 g'" for g'
    using that unfolding reset_signing_info_def
    by (intro halts_iterate; auto intro: panic_cause.intros halts_attempt calls_attempt prefix_order.trans)
  then have "halts g' (panic_cause C J h0) (finish_staking C height)" if "prefix h0 g'" for g'
    using that unfolding finish_staking_def
    by (intro halts_ask) (auto split: option.splits intro!: halts_ret seq halts_must calls_must simp: fun_eq_iff intro: prefix_order.trans)
  then have keys: "halts g' (panic_cause C J h0) (seqp (ask (ValidatorKeys C)) (\<lambda>keys.
      seqp (each (reset_validator C app allowed height) keys) (\<lambda>_. finish_staking C height)))"
    if "prefix h0 g'" for g'
    using that by (intro halts_ask seq halts_each calls_each part_calls_True val) (auto intro: prefix_order.trans)
  show ?thesis
    unfolding staking_state_def reset_redelegation_def reset_unbonding_def
    by (intro seq halts_iterate halts_guard keys halts_must calls_must calls_iterate TrueI;
        use g in \<open>auto simp: fun_eq_iff intro: panic_cause.intros prefix_order.trans\<close>)
qed

lemma allowed_map_error: "allowed_map C J m = Inl x \<Longrightarrow> \<exists>a \<in> set J. ValAddr C a = Inl x"
  by (induction J arbitrary: m) (auto simp: bindE_Inl_iff)

lemma distribution_calls: "calls (\<lambda>_. True) (distribution_state C height)"
  by (rule calls_mono [OF conjunct1 [OF distribution_runs [unfolded runs_def]] TrueI])

section \<open>Properties\<close>

text \<open>
  C6. The preparation works through its phases in order and never goes back: commissions,
  rewards, slash events, historical rewards, validators, delegations, redelegations, unbonding
  delegations, validator records, set update, signing infos. The distribution hooks and the fee
  pool are used at height 0, everything else at the chain's height; every redelegation, unbonding
  delegation, validator and signing info it writes has its heights reset. All of this holds also
  for the calls made before a panic.
\<close>

theorem prep_order:
  "\<exists>t. snd (prepForZeroHeightGenesis C height J h) = h @ t
    \<and> sorted (map (\<lambda>k. phase (snd k)) t)
    \<and> list_all (\<lambda>(ht, c). ht = (if phase c = 4 \<or> phase c = 5 then 0 else height) \<and> heights_reset c) t"
  using prep_runs [of height C J]
  unfolding runs_def calls_def in_phases_def proper_def
  by (metis (lifting) same_append_eq)


text \<open>
  The list of allowed validators is checked first: with an address that does not parse in it, the
  preparation panics before it made any call.
\<close>

theorem prep_invalid_allowed:
  assumes "a \<in> set J" "ValAddr C a = Inl x"
  shows "\<exists>y. prepForZeroHeightGenesis C height J h = (Inl (PanicErr y), h)"
proof -
  from allowed_map_Inl [of C J "\<lambda>_. False"] assms
  obtain y where "allowed_map C J (\<lambda>_. False) = Inl y" by blast
  then show ?thesis by (simp add: prepForZeroHeightGenesis_def stop_def)
qed

theorem prep_invalid_allowed_witness:
  "\<exists>y. prepForZeroHeightGenesis (sample_chain None) 42 [''tatvaloper1a'', ''bad''] [] = (Inl (PanicErr y), [])"
  by (rule prep_invalid_allowed [of "''bad''" _ _ "''bad address''"])
     (simp_all add: sample_chain_def sample_val_addr_def)

text \<open>
  C8. When the preparation returns, it has written every validator of the store exactly once,
  in the iterator's order, as it was read except for its unbonding height, now 0, and for the
  jailing of the validators whose address string is missing from a non-empty list of allowed ones.
\<close>

theorem prep_validators:
  assumes "prepForZeroHeightGenesis C height J h = (Inr u, h')"
  shows "\<exists>pre t post. h' = h @ pre @ t @ post
    \<and> filter (\<lambda>k. phase (snd k) = 8) (pre @ post) = []
    \<and> length t = length (ValidatorKeys C (h @ pre))
    \<and> (\<forall>i < length t. \<exists>v s. GetValidator C (ValidatorKeys C (h @ pre) ! i) (h @ pre @ take i t) = Inr v
        \<and> StakingValString C (ValidatorKeys C (h @ pre) ! i) = Inr s
        \<and> t ! i = (height, SetValidator
            (v\<lparr>UnbondingHeight := 0, Jailed := Jailed v \<or> (J \<noteq> [] \<and> s \<notin> set J)\<rparr>)))"
proof -
  from assms obtain t1 t2 t3 t4 t5 where s: "segments C height J h t1 t2 t3 t4 t5"
    and h': "h' = h @ t1 @ t2 @ t3 @ t4 @ t5"
    by (rule prep_segments)
  have keys: "length t4 = length (ValidatorKeys C (h @ t1 @ t2 @ t3))"
    and each: "\<forall>i < length t4. \<exists>v s.
      GetValidator C (ValidatorKeys C (h @ t1 @ t2 @ t3) ! i) (h @ t1 @ t2 @ t3 @ take i t4) = Inr v
      \<and> StakingValString C (ValidatorKeys C (h @ t1 @ t2 @ t3) ! i) = Inr s
      \<and> t4 ! i = (height, SetValidator (reset_of J s v))"
    using s unfolding segments_def by blast+
  show ?thesis
    by (rule exI [of _ "t1 @ t2 @ t3"], rule exI [of _ t4], rule exI [of _ t5])
       (intro conjI, simp only: h' append_assoc, simp only: append_assoc segments_phase(1) [OF s],
        simp only: append_assoc keys, simp only: append_assoc, rule each [unfolded reset_of_def])
qed

theorem prep_validators_witness:
  "\<exists>pre t post. sample_reset_calls False @ sample_final_calls = [] @ pre @ t @ post
    \<and> filter (\<lambda>k. phase (snd k) = 8) (pre @ post) = []
    \<and> length t = length (ValidatorKeys (sample_chain None) ([] @ pre))"
  using prep_validators [OF sample_run] by blast

text \<open>
  C15. When the preparation returns, it has written back every redelegation and then every
  unbonding delegation, once, in order, with the creation height of each entry 0 and nothing else
  changed.
\<close>

theorem prep_unbondings:
  assumes "prepForZeroHeightGenesis C height J h = (Inr u, h')"
  shows "\<exists>pre post. filter (\<lambda>k. phase (snd k) = 6 \<or> phase (snd k) = 7) (drop (length h) h')
      = map (\<lambda>r. (height, SetRedelegation (r\<lparr>Entries := map (\<lambda>e. e\<lparr>CreationHeight := 0\<rparr>) (Entries r)\<rparr>)))
          (fst (IterateRedelegations C pre))
      @ map (\<lambda>r. (height, SetUnbondingDelegation (r\<lparr>Entries := map (\<lambda>e. e\<lparr>CreationHeight := 0\<rparr>) (Entries r)\<rparr>)))
          (fst (IterateUnbondingDelegations C post))
    \<and> pre = take (length pre) h' \<and> post = take (length post) h' \<and> length pre \<le> length post"
proof -
  from assms obtain t1 t2 t3 t4 t5 where s: "segments C height J h t1 t2 t3 t4 t5"
    and h': "h' = h @ t1 @ t2 @ t3 @ t4 @ t5"
    by (rule prep_segments)
  have d: "drop (length h) h' = t1 @ t2 @ t3 @ t4 @ t5" by (simp add: h')
  have t: "t2 = map (\<lambda>r. (height, SetRedelegation (reset_entries r))) (fst (IterateRedelegations C (h @ t1)))"
    "t3 = map (\<lambda>r. (height, SetUnbondingDelegation (reset_entries r)))
      (fst (IterateUnbondingDelegations C (h @ t1 @ t2)))"
    using s unfolding segments_def by blast+
  show ?thesis
    unfolding d segments_phase(2) [OF s]
    by (rule exI [of _ "h @ t1"], rule exI [of _ "h @ t1 @ t2"])
       (simp add: t [unfolded reset_entries_def, symmetric] h')
qed

theorem prep_unbondings_witness:
  "\<exists>pre post. filter (\<lambda>k. phase (snd k) = 6 \<or> phase (snd k) = 7)
        (drop (length ([] :: (nat, unit) hcall list)) (sample_reset_calls False @ sample_final_calls))
      = map (\<lambda>r. (42, SetRedelegation (r\<lparr>Entries := map (\<lambda>e. e\<lparr>CreationHeight := 0\<rparr>) (Entries r)\<rparr>)))
          (fst (IterateRedelegations (sample_chain None) pre))
      @ map (\<lambda>r. (42, SetUnbondingDelegation (r\<lparr>Entries := map (\<lambda>e. e\<lparr>CreationHeight := 0\<rparr>) (Entries r)\<rparr>)))
          (fst (IterateUnbondingDelegations (sample_chain None) post))"
  using prep_unbondings [OF sample_run] by blast

lemma runs_extends:
  assumes "runs height a m b" "m h = (r, h')"
  obtains t where "h' = h @ t"
  using assms unfolding runs_def by (auto elim: callsD)

text \<open>
  C16. No outstanding reward is lost: when the preparation returns, each validator's outstanding
  rewards, as read when its turn came, have been added to the community pool one after the
  other, and nothing else of the fee pool changed on the way.
\<close>

theorem prep_community_pool:
  assumes "fee_pool_law C" "prepForZeroHeightGenesis C height J h = (Inr u, h')"
  shows "\<exists>pre t post vs rs. h' = h @ pre @ t @ post \<and> IterateValidators C (h @ pre) = (vs, None)
    \<and> (\<forall>p. FeePool_Get C (h @ pre) = Inr p \<longrightarrow>
        FeePool_Get C (h @ pre @ t) = Inr (p\<lparr>CommunityPool := foldl (Add C) (CommunityPool p) rs\<rparr>)
        \<and> length rs = length vs
        \<and> (\<forall>i < length vs. \<exists>a. StakingValAddr C (Operator (vs ! i)) = Inr a
            \<and> OutstandingRewards C a (h @ pre @ take (2 * i) t) = Inr (rs ! i)))"
proof -
  from assms(2) obtain h1 where d: "distribution_state C height h = (Inr (), h1)"
    and s: "staking_state C (length J > 0) (\<lambda>a. a \<in> set J) height h1 = (Inr (), h')"
    by (rule prep_Inr)
  from d obtain g1 dels g2 g3 where
    g1: "iterate (IterateValidators C) (withdraw_commission C height) h = (Inr (), g1)"
    and g2: "each (withdraw_rewards C height) dels g1 = (Inr (), g2)"
    and g3: "iterate (IterateValidators C) (reinit_validator C 0) (g2 @ [(height, DeleteAllValidatorSlashEvents),
        (height, DeleteAllValidatorHistoricalRewards)]) = (Inr (), g3)"
    and g4: "each (reinit_delegation C 0) dels g3 = (Inr (), h1)"
    by (rule distribution_Inr)
  obtain t1 where t1: "g1 = h @ t1" by (rule runs_extends [OF runs_iterate [OF part_calls(1)] g1])
  obtain t2 where t2: "g2 = g1 @ t2" by (rule runs_extends [OF runs_each [OF part_calls(2)] g2])
  obtain t4 where t4: "h1 = g3 @ t4" by (rule runs_extends [OF runs_each [OF part_calls(6)] g4])
  obtain t5 where t5: "h' = h1 @ t5" by (rule runs_extends [OF staking_runs s])
  let ?pre = "t1 @ t2 @ [(height, DeleteAllValidatorSlashEvents), (height, DeleteAllValidatorHistoricalRewards)]"
  have pre: "g2 @ [(height, DeleteAllValidatorSlashEvents), (height, DeleteAllValidatorHistoricalRewards)] = h @ ?pre"
    by (simp add: t1 t2)
  from g3 [unfolded pre] obtain vs where vs: "IterateValidators C (h @ ?pre) = (vs, None)"
    and e: "each (reinit_validator C 0) vs (h @ ?pre) = (Inr (), g3)"
    by (auto simp only: iterate_Inr)
  obtain t3 where t3: "g3 = (h @ ?pre) @ t3" by (rule runs_extends [OF runs_each [OF part_calls(5)] e])
  have "\<exists>rs. \<forall>p. FeePool_Get C (h @ ?pre) = Inr p \<longrightarrow>
        FeePool_Get C (h @ ?pre @ t3) = Inr (p\<lparr>CommunityPool := foldl (Add C) (CommunityPool p) rs\<rparr>)
        \<and> length rs = length vs
        \<and> (\<forall>i < length vs. \<exists>a. StakingValAddr C (Operator (vs ! i)) = Inr a
            \<and> OutstandingRewards C a (h @ ?pre @ take (2 * i) t3) = Inr (rs ! i))"
  proof (cases "FeePool_Get C (h @ ?pre)")
    case (Inr p)
    from each_pool [OF assms(1) e Inr] t3 show ?thesis by (simp add: Inr) blast
  qed simp
  moreover have "h' = h @ ?pre @ t3 @ t4 @ t5" by (simp add: t5 t4 t3)
  ultimately show ?thesis using vs by blast
qed

theorem prep_community_pool_witness:
  "\<exists>pre t post vs. sample_reset_calls False @ sample_final_calls = [] @ pre @ t @ post
    \<and> IterateValidators (sample_chain None) ([] @ pre) = (vs, None)"
  using prep_community_pool [OF sample_fee_pool_law sample_run] by blast

text \<open>
  C27. The end of a normal run: after the validator records, the validator set is updated and
  then every signing info is written back with start height 0. If closing the iterator over the
  validators fails, both steps are missing and the preparation returns as if nothing had happened.
\<close>

theorem prep_finish:
  assumes "prepForZeroHeightGenesis C height J h = (Inr u, h')"
  shows "\<exists>t. list_all (\<lambda>k. phase (snd k) \<le> 8) t \<and> h' = h @ t @
    (if IterClose C (h @ t) = None then (height, ApplyAndReturnValidatorSetUpdates)
       # map (\<lambda>(a, i). (height, SetValidatorSigningInfo a (i\<lparr>StartHeight := 0\<rparr>)))
           (fst (IterateValidatorSigningInfos C (h @ t @ [(height, ApplyAndReturnValidatorSetUpdates)])))
     else [])"
proof -
  from assms obtain t1 t2 t3 t4 t5 where s: "segments C height J h t1 t2 t3 t4 t5"
    and "h' = h @ t1 @ t2 @ t3 @ t4 @ t5"
    and f: "finish_staking C height (h @ t1 @ t2 @ t3 @ t4) = (Inr (), h')"
    by (rule prep_segments)
  have "list_all (\<lambda>k. phase (snd k) \<le> 8) (t1 @ t2 @ t3 @ t4)"
    using segments_upto [OF s] .
  with finish_exact [OF f] show ?thesis
    by (intro exI [of _ "t1 @ t2 @ t3 @ t4"]) (simp only: append_assoc simp_thms)
qed

theorem prep_finish_witness:
  "\<exists>t. list_all (\<lambda>k. phase (snd k) \<le> 8) t \<and> sample_reset_calls False = [] @ t @
    (if IterClose (sample_chain (Some ''close'')) ([] @ t) = None then (42, ApplyAndReturnValidatorSetUpdates)
       # map (\<lambda>(a, i). (42, SetValidatorSigningInfo a (i\<lparr>StartHeight := 0\<rparr>)))
           (fst (IterateValidatorSigningInfos (sample_chain (Some ''close''))
             ([] @ t @ [(42, ApplyAndReturnValidatorSetUpdates)])))
     else [])"
  by (rule prep_finish [OF sample_run_close])

text \<open>
  C36. Allowed validators are compared by spelling: a validator whose address is in the list of
  allowed ones, but spelled differently from the codec's output, is jailed although the list
  was accepted.
\<close>

theorem prep_jails_other_spelling:
  assumes "prepForZeroHeightGenesis C height J h = (Inr u, h')"
    and "a \<in> set J" "ValAddr C a = Inr key" "StakingValString C key = Inr s" "s \<notin> set J"
    and "\<And>h. key \<in> set (ValidatorKeys C h)"
  shows "\<exists>n v. n < length h' \<and> GetValidator C key (take n h') = Inr v
    \<and> h' ! n = (height, SetValidator (v\<lparr>UnbondingHeight := 0, Jailed := True\<rparr>))"
proof -
  from assms(1) obtain t1 t2 t3 t4 t5 where s: "segments C height J h t1 t2 t3 t4 t5"
    and h': "h' = h @ t1 @ t2 @ t3 @ t4 @ t5"
    by (rule prep_segments)
  let ?pre = "h @ t1 @ t2 @ t3"
  from assms(6) [of ?pre] obtain i where i: "i < length (ValidatorKeys C ?pre)" "ValidatorKeys C ?pre ! i = key"
    by (auto simp only: in_set_conv_nth)
  have l: "length t4 = length (ValidatorKeys C ?pre)" using s unfolding segments_def by blast
  obtain v where v: "GetValidator C key (?pre @ take i t4) = Inr v"
    "t4 ! i = (height, SetValidator (reset_of J s v))"
    using s i l assms(4) unfolding segments_def by auto
  have "J \<noteq> []" using assms(2) by auto
  with v(2) assms(5) have "t4 ! i = (height, SetValidator (v\<lparr>UnbondingHeight := 0, Jailed := True\<rparr>))"
    by (simp add: reset_of_simps)
  with v(1) i l show ?thesis
    by (intro exI [of _ "length ?pre + i"]) (simp add: h' nth_append)
qed

theorem prep_jails_other_spelling_witness:
  "\<exists>n v. n < length (sample_reset_calls True @ sample_final_calls)
    \<and> GetValidator (sample_chain None) [1] (take n (sample_reset_calls True @ sample_final_calls)) = Inr v
    \<and> (sample_reset_calls True @ sample_final_calls) ! n
        = (42, SetValidator (v\<lparr>UnbondingHeight := 0, Jailed := True\<rparr>))"
  by (rule prep_jails_other_spelling [OF sample_run_uppercase, of "''TATVALOPER1A''" _ "''tatvaloper1a''"])
     (simp_all add: sample_chain_def sample_val_addr_def)

text \<open>
  The height of the export: for a zero-height genesis 0, after the preparation; otherwise
  the last height plus one, and no keeper is called to change anything. Only the preparation can
  panic; every other failure is an error beside an empty result, or beside the full result when
  the validators could not be written.
\<close>

theorem export_height:
  assumes "ExportAppStateAndValidators C X zero J M h = (r, h')"
  shows "(\<not> zero \<longrightarrow> h' = h)
    \<and> (case r of
         Inl p \<Rightarrow> zero \<and> prepForZeroHeightGenesis C (LastBlockHeight X) J h = (Inl p, h')
       | Inr (e, err) \<Rightarrow>
           (zero \<longrightarrow> prepForZeroHeightGenesis C (LastBlockHeight X) J h = (Inr (), h'))
           \<and> (if AppState e = None then e = ExportedApp_zero \<and> err \<noteq> None
              else Height e = (if zero then 0 else goint (LastBlockHeight X + 1))
                \<and> err = snd (WriteValidators X h')))"
proof -
  let ?prep = "if zero then prepForZeroHeightGenesis C (LastBlockHeight X) J else ret ()"
  obtain r1 h1 where p: "?prep h = (r1, h1)" by (cases "?prep h")
  have np: "h1 = h" if "\<not> zero" using p that by simp
  show ?thesis
  proof (cases r1)
    case (Inl e)
    with p have zero by (cases zero) auto
    with Inl p assms show ?thesis
      by (auto simp: ExportAppStateAndValidators_def seqp_def)
  next
    case (Inr u)
    with assms p np show ?thesis
      by (cases "ExportGenesisForModules X M h1"; cases "WriteValidators X h1")
         (auto simp: ExportAppStateAndValidators_def seqp_def ask_def ret_def ExportedApp_zero_def
           split: if_splits sum.splits)
  qed
qed

definition sample_exporter :: "(nat, unit, string, nat, string, unit, unit) exporter" where
  "sample_exporter = \<lparr>LastBlockHeight = 41, ExportGenesisForModules = (\<lambda>M h. Inr (length M)),
     MarshalIndent = (\<lambda>n. Inr ''{}''), WriteValidators = (\<lambda>h. ([()], None)), GetConsensusParams = (\<lambda>h. ())\<rparr>"

lemma sample_export_run:
  "ExportAppStateAndValidators (sample_chain None) sample_exporter False [] [''bank''] [] =
    (Inr (\<lparr>AppState = Some ''{}'', Validators = [()], Height = 42, ConsensusParams = Some ()\<rparr>, None), [])"
  by (simp add: ExportAppStateAndValidators_def sample_exporter_def prog_defs)

theorem export_height_witness:
  "Height \<lparr>AppState = Some ''{}'', Validators = [()], Height = 42, ConsensusParams = Some ()\<rparr>
    = LastBlockHeight sample_exporter + 1"
  using export_height [OF sample_export_run] by (simp add: sample_exporter_def)

end
