(* ===== verification/Restart.thy ===== *)
theory Restart
  imports ExportProperties AppModule
begin

text \<open>
  The export of the application (app/export.go), the genesis of the application (app/genesis.go) and that of the module
  (x/tatcore/module/module.go, x/tatcore/keeper/genesis.go) together: a chain whose state was exported, and a new
  chain that starts from this export. The module manager, which collects the raw genesis of every module
  under its name, and the JSON encoder are parameters.
\<close>

section \<open>The export as a whole\<close>

text \<open>\<^verbatim>\<open>GenesisState\<close> of app/genesis.go: raw JSON by the name of the module\<close>

type_synonym app_genesis = "string \<Rightarrow> string option"

lemma exported_from:
  assumes "ExportAppStateAndValidators C X zero J M h = (Inr (app, None), h')" (is "_ = ?result")
  obtains h1 g where "ExportGenesisForModules X M h1 = Inr g" "AppState app \<noteq> None"
    "MarshalIndent X g = Inr (the (AppState app))"
proof -
  from assms obtain h1 where run: "seqp (ask (ExportGenesisForModules X M)) (\<lambda>r. case r of
        Inl err \<Rightarrow> ret (ExportedApp_zero, Some err)
      | Inr genState \<Rightarrow>
          (case MarshalIndent X genState of
             Inl err \<Rightarrow> ret (ExportedApp_zero, Some err)
           | Inr appState \<Rightarrow>
               seqp (ask (WriteValidators X)) (\<lambda>(validators, err).
               seqp (ask (GetConsensusParams X)) (\<lambda>params.
                 ret (\<lparr>AppState = Some appState, Validators = validators,
                       Height = (if zero then 0 else goint (LastBlockHeight X + 1)), ConsensusParams = Some params\<rparr>, err)))))
      h1 = ?result"
    unfolding ExportAppStateAndValidators_def Let_def by (rule seqp_InrE) (rule that)
  then obtain g where g: "ExportGenesisForModules X M h1 = Inr g"
    by (cases "ExportGenesisForModules X M h1") (simp_all add: seqp_Inr)
  with run obtain j where "MarshalIndent X g = Inr j" "AppState app = Some j"
    by (cases "MarshalIndent X g") (auto simp: seqp_Inr split: prod.splits)
  with g show ?thesis by (intro that) simp_all
qed

text \<open>
  An export of all modules (no list) or of a list with the module holds, under the module's name, what the module
  exports from the store \<open>s\<close>. A run of the export calls other modules' keepers only, so this does not depend on the calls.
\<close>

definition manager_law ::
  "('s, 'y, Params) sdk \<Rightarrow> (string, 'y) json_codec \<Rightarrow> keeper \<Rightarrow> 's
    \<Rightarrow> ('c, 'o, 'x, app_genesis, 'j, 'w, 'p) exporter \<Rightarrow> bool" where
  "manager_law E J k s X \<longleftrightarrow>
     (\<forall>M h g. M = [] \<or> ModuleName \<in> set M \<longrightarrow> ExportGenesisForModules X M h = Inr g
       \<longrightarrow> (\<exists>bz. AppModule_ExportGenesis E J k s = Inr bz \<and> g ModuleName = Some bz))"

text \<open>
  \<^verbatim>\<open>json.MarshalIndent\<close> writes a raw message in its own layout, so that the text read back for a module is not the
  one that was written, but one of the same JSON value. \<open>same_value\<close> relates two such texts; the module's codec
  decodes them alike.
\<close>

definition encoder_law ::
  "('c, 'o, 'x, app_genesis, 'j, 'w, 'p) exporter \<Rightarrow> ('j \<Rightarrow> app_genesis option) \<Rightarrow> (string \<Rightarrow> string \<Rightarrow> bool) \<Rightarrow> bool" where
  "encoder_law X parse same_value \<longleftrightarrow>
     (\<forall>g j. MarshalIndent X g = Inr j \<longrightarrow>
       (\<exists>g'. parse j = Some g'
         \<and> (\<forall>name bz. g name = Some bz \<longrightarrow> (\<exists>bz'. g' name = Some bz' \<and> same_value bz bz'))))"

definition layout_law :: "(string, 'y) json_codec \<Rightarrow> (string \<Rightarrow> string \<Rightarrow> bool) \<Rightarrow> bool" where
  "layout_law J same_value \<longleftrightarrow>
     (\<forall>bz bz' gs. same_value bz bz' \<longrightarrow> UnmarshalJSON J bz = Inr gs \<longrightarrow> UnmarshalJSON J bz' = Inr gs)"

section \<open>Properties\<close>

text \<open>
  C23. A chain can be restarted from an export of the application, of all modules or of a list with this one, for zero height
  or not: when the export of a chain in a reachable state ends without an error, its JSON parses into a genesis that has an
  entry for the module; the module accepts the entry, and a new chain that has imported it into whatever store
  it started with, also one with another authority, answers the parameter query, and every REST request, as
  the old one does. This relies on the module manager putting what the module exports under its name, on
  the encoder keeping the value of each entry, if not its layout, and on the codec not minding the layout.
\<close>

theorem restart_params:
  assumes "item_law E" "json_law J" "NewKeeper E auth = Inr k" "chain_state E J k s0 s"
    and "manager_law E J k s X" "encoder_law X parse same_value" "layout_law J same_value"
    and "M = [] \<or> ModuleName \<in> set M"
    and "ExportAppStateAndValidators C X zero jail M h = (Inr (app, None), h')"
  shows "\<exists>j g bz p. AppState app = Some j \<and> parse j = Some g \<and> g ModuleName = Some bz
    \<and> AppModule_ValidateGenesis J bz = None
    \<and> Query_Params E k s (Some q) = Inr \<lparr>qpr_Params = p\<rparr>
    \<and> (\<forall>auth' k' s1 s2. NewKeeper E auth' = Inr k' \<longrightarrow> AppModule_InitGenesis E J k' s1 bz = Inr s2 \<longrightarrow>
         Query_Params E k' s2 (Some q) = Inr \<lparr>qpr_Params = p\<rparr>
         \<and> RegisterQueryHandlerServer annotate (\<lambda>ctx. Query_Params E k' s2) req
           = RegisterQueryHandlerServer annotate (\<lambda>ctx. Query_Params E k s) req)"
proof -
  from assms(9) obtain h1 g0 where export: "ExportGenesisForModules X M h1 = Inr g0" "AppState app \<noteq> None"
    "MarshalIndent X g0 = Inr (the (AppState app))"
    by (rule exported_from)
  from export(1) assms(5,8) obtain bz0 where bz0: "AppModule_ExportGenesis E J k s = Inr bz0" "g0 ModuleName = Some bz0"
    unfolding manager_law_def by blast
  from export(3) assms(6) bz0(2) obtain g bz where parse: "parse (the (AppState app)) = Some g"
    and bz: "g ModuleName = Some bz" "same_value bz0 bz"
    unfolding encoder_law_def by blast
  from bz0(1) obtain gs where gs: "ExportGenesis E k s = Inr gs" "MarshalJSON J gs = Inr bz0"
    by (auto simp: AppModule_ExportGenesis_Inr)
  then have "UnmarshalJSON J bz0 = Inr gs" using assms(2) by (simp add: json_law_def)
  then have json: "UnmarshalJSON J bz = Inr gs" using assms(7) bz(2) unfolding layout_law_def by blast
  have reads: "\<exists>p. ExportGenesis E k s = Inr \<lparr>gs_Params = p\<rparr> \<and> (\<forall>q. Query_Params E k s (Some q) = Inr \<lparr>qpr_Params = p\<rparr>)"
    if "NewKeeper E a = Inr k" "params_stored E s" for a k s
    using that by (auto simp: params_stored_def Query_Params_def ExportGenesis_def DefaultGenesis_def NewKeeper_Inr)
  obtain p where p: "gs = \<lparr>gs_Params = p\<rparr>" "Query_Params E k s (Some q) = Inr \<lparr>qpr_Params = p\<rparr>" for q
    using reads [OF assms(3) chain_state_params [OF assms(1,3,4)]] gs(1) by auto
  have new: "Query_Params E k' s2 (Some q) = Inr \<lparr>qpr_Params = p\<rparr>"
    if "NewKeeper E auth' = Inr k'" "AppModule_InitGenesis E J k' s1 bz = Inr s2" for auth' k' s1 s2 q
  proof -
    have "params_stored E s2"
      using chain_state_params [OF assms(1) that(1) chain_state.genesis [OF that(2)]] .
    moreover have "ExportGenesis E k' s2 = Inr gs"
      using genesis_stored [OF assms(1) that(1)] that(2) json by (auto simp: AppModule_InitGenesis_Inr)
    ultimately show ?thesis using reads [OF that(1)] p(1) by fastforce
  qed
  have "RegisterQueryHandlerServer annotate (\<lambda>ctx. Query_Params E k' s2) req
      = RegisterQueryHandlerServer annotate (\<lambda>ctx. Query_Params E k s) req"
    if "NewKeeper E auth' = Inr k'" "AppModule_InitGenesis E J k' s1 bz = Inr s2" for auth' k' s1 s2
    using new [OF that] p(2)
    by (simp add: RegisterQueryHandlerServer_def local_request_Query_Params_0_def split: sum.split)
  moreover have "AppModule_ValidateGenesis J bz = None"
    using json by (simp add: AppModule_ValidateGenesis_def GenesisState_Validate_def Params_Validate_def)
  ultimately show ?thesis using export(2) parse bz(1) p(2) new by auto
qed

text \<open>An export of which only the module's entry is kept, written with a space; the codec drops spaces\<close>

definition no_space :: "string \<Rightarrow> string" where
  "no_space bz = filter (\<lambda>c. c \<noteq> CHR '' '') bz"

definition sample_layout_json :: "(string, sample_err) json_codec" where
  "sample_layout_json = \<lparr>MarshalJSON = (\<lambda>gs. Inr ''{}''),
     UnmarshalJSON = (\<lambda>bz. if no_space bz = ''{}'' then Inr DefaultGenesis else Inl SampleEmpty)\<rparr>"

definition sample_manager :: "(nat, unit, string, app_genesis, string, unit, unit) exporter" where
  "sample_manager = \<lparr>LastBlockHeight = 41, ExportGenesisForModules = (\<lambda>M h. Inr [''tatcore'' \<mapsto> ''{}'']),
     MarshalIndent = (\<lambda>g. if g = [''tatcore'' \<mapsto> ''{}''] then Inr ''{tatcore:{ }}'' else Inl ''unknown module''),
     WriteValidators = (\<lambda>h. ([()], None)), GetConsensusParams = (\<lambda>h. ())\<rparr>"

definition sample_parse :: "string \<Rightarrow> app_genesis option" where
  "sample_parse j = (if j = ''{tatcore:{ }}'' then Some [''tatcore'' \<mapsto> ''{ }''] else None)"

lemma sample_layout_laws:
  "json_law sample_layout_json" "layout_law sample_layout_json (\<lambda>a b. no_space a = no_space b)"
  "encoder_law sample_manager sample_parse (\<lambda>a b. no_space a = no_space b)"
proof -
  show "json_law sample_layout_json"
    unfolding json_law_def sample_layout_json_def
    by (auto simp: no_space_def DefaultGenesis_def DefaultParams_def NewParams_def intro: GenesisState_single [symmetric])
  show "layout_law sample_layout_json (\<lambda>a b. no_space a = no_space b)"
    by (simp add: layout_law_def sample_layout_json_def)
  show "encoder_law sample_manager sample_parse (\<lambda>a b. no_space a = no_space b)"
    by (auto simp: encoder_law_def sample_manager_def sample_parse_def no_space_def split: if_splits)
qed

lemma sample_layout_chain: "chain_state sample_sdk sample_layout_json sample_keeper Map.empty [ParamsKey \<mapsto> []]"
  by (rule chain_state.genesis [of _ _ _ _ "''{ }''"])
     (simp add: AppModule_InitGenesis_Inr InitGenesis_def, simp add: sample_layout_json_def no_space_def)

lemma sample_manager_law: "manager_law sample_sdk sample_layout_json sample_keeper [ParamsKey \<mapsto> []] sample_manager"
proof -
  have "AppModule_ExportGenesis sample_sdk sample_layout_json sample_keeper [ParamsKey \<mapsto> []] = Inr ''{}''"
    using chain_state_params [OF sample_laws(2) sample_NewKeeper sample_layout_chain]
    by (auto simp: AppModule_ExportGenesis_Inr sample_layout_json_def dest!: params_stored_reads)
  then show ?thesis by (auto simp: manager_law_def sample_manager_def ModuleName_def)
qed

lemma sample_manager_run:
  "ExportAppStateAndValidators (sample_chain None) sample_manager False [] [] [] =
    (Inr (\<lparr>AppState = Some ''{tatcore:{ }}'', Validators = [()], Height = 42, ConsensusParams = Some ()\<rparr>, None), [])"
  by (simp add: ExportAppStateAndValidators_def sample_manager_def prog_defs)

theorem restart_params_witness:
  "\<exists>j g bz p. Some ''{tatcore:{ }}'' = Some j \<and> sample_parse j = Some g \<and> g ModuleName = Some bz
    \<and> AppModule_ValidateGenesis sample_layout_json bz = None
    \<and> Query_Params sample_sdk sample_keeper [ParamsKey \<mapsto> []] (Some QueryParamsRequest_struct) = Inr \<lparr>qpr_Params = p\<rparr>"
  using restart_params [where q = QueryParamsRequest_struct and annotate = Inr and req = "()",
      OF sample_laws(2) sample_layout_laws(1) sample_NewKeeper sample_layout_chain sample_manager_law
        sample_layout_laws(3,2) disjI1 [OF refl] sample_manager_run]
  by - (unfold exported.simps, elim exE conjE, intro exI conjI; assumption)

end
