(* ===== verification/Generated.thy ===== *)
theory Generated
  imports Keeper
begin

text \<open>
  The rest of the generated code for the messages (the five .pb.go files): what the protobuf runtime calls
  on a message (\<^verbatim>\<open>Reset\<close>, \<^verbatim>\<open>XXX_Size\<close>, \<^verbatim>\<open>XXX_Unmarshal\<close>, \<^verbatim>\<open>String\<close>), the names that \<^verbatim>\<open>init\<close> registers, and
  the servers for methods that nobody implemented. A method with a pointer receiver is a
  function of the message it points to. The property is the path the runtime takes: it allocates
  \<^verbatim>\<open>XXX_Size\<close> bytes, has \<^verbatim>\<open>XXX_Marshal\<close> fill them, and reads them with \<^verbatim>\<open>XXX_Unmarshal\<close> into a message after \<^verbatim>\<open>Reset\<close>.
\<close>

section \<open>The methods of the messages\<close>

definition Params_Reset :: "Params \<Rightarrow> Params" where
  "Params_Reset m = Params_zero"

definition Params_XXX_Size :: "Params \<Rightarrow> int" where
  "Params_XXX_Size m = Params_Size (Some m)"

definition Params_XXX_Unmarshal :: "Params \<Rightarrow> byte list \<Rightarrow> perr + Params" where
  "Params_XXX_Unmarshal m b = Params_Unmarshal m b"

definition Params_String :: "(Params \<Rightarrow> string) \<Rightarrow> Params \<Rightarrow> string" where
  "Params_String CompactTextString m = CompactTextString m"

definition MsgUpdateParams_Reset :: "MsgUpdateParams \<Rightarrow> MsgUpdateParams" where
  "MsgUpdateParams_Reset m = MsgUpdateParams_zero"

definition MsgUpdateParams_XXX_Size :: "MsgUpdateParams \<Rightarrow> int" where
  "MsgUpdateParams_XXX_Size m = MsgUpdateParams_Size (Some m)"

definition MsgUpdateParams_XXX_Unmarshal :: "MsgUpdateParams \<Rightarrow> byte list \<Rightarrow> perr + MsgUpdateParams" where
  "MsgUpdateParams_XXX_Unmarshal m b = MsgUpdateParams_Unmarshal m b"

definition MsgUpdateParams_String :: "(MsgUpdateParams \<Rightarrow> string) \<Rightarrow> MsgUpdateParams \<Rightarrow> string" where
  "MsgUpdateParams_String CompactTextString m = CompactTextString m"

definition MsgUpdateParamsResponse_Reset :: "MsgUpdateParamsResponse \<Rightarrow> MsgUpdateParamsResponse" where
  "MsgUpdateParamsResponse_Reset m = MsgUpdateParamsResponse_struct"

definition MsgUpdateParamsResponse_XXX_Size :: "MsgUpdateParamsResponse \<Rightarrow> int" where
  "MsgUpdateParamsResponse_XXX_Size m = MsgUpdateParamsResponse_Size (Some m)"

definition MsgUpdateParamsResponse_XXX_Unmarshal :: "MsgUpdateParamsResponse \<Rightarrow> byte list \<Rightarrow> perr + MsgUpdateParamsResponse" where
  "MsgUpdateParamsResponse_XXX_Unmarshal m b = MsgUpdateParamsResponse_Unmarshal m b"

definition MsgUpdateParamsResponse_String :: "(MsgUpdateParamsResponse \<Rightarrow> string) \<Rightarrow> MsgUpdateParamsResponse \<Rightarrow> string" where
  "MsgUpdateParamsResponse_String CompactTextString m = CompactTextString m"

definition QueryParamsRequest_Reset :: "QueryParamsRequest \<Rightarrow> QueryParamsRequest" where
  "QueryParamsRequest_Reset m = QueryParamsRequest_struct"

definition QueryParamsRequest_XXX_Size :: "QueryParamsRequest \<Rightarrow> int" where
  "QueryParamsRequest_XXX_Size m = QueryParamsRequest_Size (Some m)"

definition QueryParamsRequest_XXX_Unmarshal :: "QueryParamsRequest \<Rightarrow> byte list \<Rightarrow> perr + QueryParamsRequest" where
  "QueryParamsRequest_XXX_Unmarshal m b = QueryParamsRequest_Unmarshal m b"

definition QueryParamsRequest_String :: "(QueryParamsRequest \<Rightarrow> string) \<Rightarrow> QueryParamsRequest \<Rightarrow> string" where
  "QueryParamsRequest_String CompactTextString m = CompactTextString m"

definition QueryParamsResponse_Reset :: "QueryParamsResponse \<Rightarrow> QueryParamsResponse" where
  "QueryParamsResponse_Reset m = QueryParamsResponse_zero"

definition QueryParamsResponse_XXX_Size :: "QueryParamsResponse \<Rightarrow> int" where
  "QueryParamsResponse_XXX_Size m = QueryParamsResponse_Size (Some m)"

definition QueryParamsResponse_XXX_Unmarshal :: "QueryParamsResponse \<Rightarrow> byte list \<Rightarrow> perr + QueryParamsResponse" where
  "QueryParamsResponse_XXX_Unmarshal m b = QueryParamsResponse_Unmarshal m b"

definition QueryParamsResponse_String :: "(QueryParamsResponse \<Rightarrow> string) \<Rightarrow> QueryParamsResponse \<Rightarrow> string" where
  "QueryParamsResponse_String CompactTextString m = CompactTextString m"

definition GenesisState_Reset :: "GenesisState \<Rightarrow> GenesisState" where
  "GenesisState_Reset m = GenesisState_zero"

definition GenesisState_XXX_Size :: "GenesisState \<Rightarrow> int" where
  "GenesisState_XXX_Size m = GenesisState_Size (Some m)"

definition GenesisState_XXX_Unmarshal :: "GenesisState \<Rightarrow> byte list \<Rightarrow> perr + GenesisState" where
  "GenesisState_XXX_Unmarshal m b = GenesisState_Unmarshal m b"

definition GenesisState_String :: "(GenesisState \<Rightarrow> string) \<Rightarrow> GenesisState \<Rightarrow> string" where
  "GenesisState_String CompactTextString m = CompactTextString m"

definition Module_Reset :: "Module \<Rightarrow> Module" where
  "Module_Reset m = Module_zero"

definition Module_XXX_Size :: "Module \<Rightarrow> int" where
  "Module_XXX_Size m = Module_Size (Some m)"

definition Module_XXX_Unmarshal :: "Module \<Rightarrow> byte list \<Rightarrow> perr + Module" where
  "Module_XXX_Unmarshal m b = Module_Unmarshal m b"

definition Module_String :: "(Module \<Rightarrow> string) \<Rightarrow> Module \<Rightarrow> string" where
  "Module_String CompactTextString m = CompactTextString m"

section \<open>What the packages register when they are loaded\<close>

text \<open>\<^verbatim>\<open>proto.RegisterType\<close> with a nil pointer of the Go type and the name of the message\<close>

definition params_types :: "(string \<times> string) list" where
  "params_types = [(''Params'', ''tatcore.tatcore.v1.Params'')]"

definition tx_types :: "(string \<times> string) list" where
  "tx_types = [(''MsgUpdateParams'', ''tatcore.tatcore.v1.MsgUpdateParams''), (''MsgUpdateParamsResponse'', ''tatcore.tatcore.v1.MsgUpdateParamsResponse'')]"

definition query_types :: "(string \<times> string) list" where
  "query_types = [(''QueryParamsRequest'', ''tatcore.tatcore.v1.QueryParamsRequest''), (''QueryParamsResponse'', ''tatcore.tatcore.v1.QueryParamsResponse'')]"

definition genesis_types :: "(string \<times> string) list" where
  "genesis_types = [(''GenesisState'', ''tatcore.tatcore.v1.GenesisState'')]"

definition module_types :: "(string \<times> string) list" where
  "module_types = [(''Module'', ''tatcore.tatcore.module.v1.Module'')]"

section \<open>The servers of unimplemented methods\<close>

definition UnimplementedMsgServer_UpdateParams ::
  "'s \<Rightarrow> MsgUpdateParams \<Rightarrow> 's \<times> ('x kerr + MsgUpdateParamsResponse)" where
  "UnimplementedMsgServer_UpdateParams s req = (s, Inl (Status Unimplemented ''method UpdateParams not implemented''))"

definition UnimplementedQueryServer_Params ::
  "'s \<Rightarrow> QueryParamsRequest \<Rightarrow> 's \<times> ('x kerr + QueryParamsResponse)" where
  "UnimplementedQueryServer_Params s req = (s, Inl (Status Unimplemented ''method Params not implemented''))"

section \<open>Lemmas\<close>

lemmas generated_defs =
  Params_XXX_Size_def Params_Reset_def Params_XXX_Unmarshal_def Params_XXX_Marshal_def
  MsgUpdateParams_XXX_Size_def MsgUpdateParams_Reset_def MsgUpdateParams_XXX_Unmarshal_def MsgUpdateParams_XXX_Marshal_def
  MsgUpdateParamsResponse_XXX_Size_def MsgUpdateParamsResponse_Reset_def MsgUpdateParamsResponse_XXX_Unmarshal_def MsgUpdateParamsResponse_XXX_Marshal_def
  QueryParamsRequest_XXX_Size_def QueryParamsRequest_Reset_def QueryParamsRequest_XXX_Unmarshal_def QueryParamsRequest_XXX_Marshal_def
  QueryParamsResponse_XXX_Size_def QueryParamsResponse_Reset_def QueryParamsResponse_XXX_Unmarshal_def QueryParamsResponse_XXX_Marshal_def
  GenesisState_XXX_Size_def GenesisState_Reset_def GenesisState_XXX_Unmarshal_def GenesisState_XXX_Marshal_def
  Module_XXX_Size_def Module_Reset_def Module_XXX_Unmarshal_def Module_XXX_Marshal_def

text \<open>Every name is registered once, and no Go type twice.\<close>

lemma registered_names:
  "distinct (map fst (params_types @ tx_types @ query_types @ genesis_types @ module_types))"
  "distinct (map snd (params_types @ tx_types @ query_types @ genesis_types @ module_types))"
  by (simp_all add: params_types_def tx_types_def query_types_def genesis_types_def module_types_def)

text \<open>
  The path of the runtime for a message: a buffer with the capacity \<^verbatim>\<open>XXX_Size\<close> is filled by \<^verbatim>\<open>XXX_Marshal\<close>, and what
  it holds is read by \<^verbatim>\<open>XXX_Unmarshal\<close> into an old message after \<^verbatim>\<open>Reset\<close>.
\<close>

definition runtime_path ::
  "('m \<Rightarrow> int) \<Rightarrow> ('m \<Rightarrow> byte list \<Rightarrow> bool \<Rightarrow> perr + byte list) \<Rightarrow> ('m \<Rightarrow> 'm) \<Rightarrow> ('m \<Rightarrow> byte list \<Rightarrow> perr + 'm)
    \<Rightarrow> 'm \<Rightarrow> 'm \<Rightarrow> bool" where
  "runtime_path siz marshal reset unmarshal_m m old \<longleftrightarrow>
     (\<forall>b. int (length b) = siz m \<longrightarrow> (\<exists>out. length out = length b
        \<and> marshal m b False = Inr out \<and> unmarshal_m (reset old) out = Inr m))"

lemma fits_nil: "fits []"
  by (simp add: fits_def)

context message_codec
begin

lemma runtime_roundtrip:
  assumes "fits (enc m)" "int (length buf) = size_of m"
  shows "\<exists>out. length out = length buf \<and> xxx_marshal info (mts m) buf False = Inr out
    \<and> unmarshal f name flds zero out = Inr m"
proof -
  have l: "length buf = length (enc m)" using assms(2) size_enc [OF assms(1)] by simp
  then have "fits buf" using assms(1) by (simp add: fits_def)
  from xxx_marshal_enc [OF this l] show ?thesis using roundtrip [OF assms(1)] l by auto
qed

lemma runtime_path_of:
  assumes "fits (enc m)"
  shows "runtime_path size_of (\<lambda>m. xxx_marshal info (mts m)) (\<lambda>old. zero) (unmarshal f name flds) m old"
  unfolding runtime_path_def using runtime_roundtrip [OF assms] by blast

end

section \<open>Properties\<close>

text \<open>
  C31. The path of the protobuf runtime, for all seven message types: a buffer with the capacity \<^verbatim>\<open>XXX_Size\<close>, whatever
  it held, is filled completely by \<^verbatim>\<open>XXX_Marshal\<close>, and \<^verbatim>\<open>XXX_Unmarshal\<close> of it into any message after
  \<^verbatim>\<open>Reset\<close> gives the message back, so that nothing of the old message is left. When the runtime asks for a
  deterministic encoding, the method hands the buffer back to the runtime. (An authority is shorter than
  \<open>2 ^ 62\<close> bytes.)
\<close>

theorem xxx_roundtrip:
  assumes "length (mup_Authority m) < 2 ^ 62" "length (mod_Authority c) < 2 ^ 62"
  shows "runtime_path MsgUpdateParams_XXX_Size (MsgUpdateParams_XXX_Marshal info1) MsgUpdateParams_Reset MsgUpdateParams_XXX_Unmarshal m m0
    \<and> runtime_path Module_XXX_Size (Module_XXX_Marshal info2) Module_Reset Module_XXX_Unmarshal c c0
    \<and> runtime_path Params_XXX_Size (Params_XXX_Marshal info3) Params_Reset Params_XXX_Unmarshal p p0
    \<and> runtime_path MsgUpdateParamsResponse_XXX_Size (MsgUpdateParamsResponse_XXX_Marshal info4) MsgUpdateParamsResponse_Reset MsgUpdateParamsResponse_XXX_Unmarshal r r0
    \<and> runtime_path QueryParamsRequest_XXX_Size (QueryParamsRequest_XXX_Marshal info5) QueryParamsRequest_Reset QueryParamsRequest_XXX_Unmarshal q q0
    \<and> runtime_path QueryParamsResponse_XXX_Size (QueryParamsResponse_XXX_Marshal info6) QueryParamsResponse_Reset QueryParamsResponse_XXX_Unmarshal a a0
    \<and> runtime_path GenesisState_XXX_Size (GenesisState_XXX_Marshal info7) GenesisState_Reset GenesisState_XXX_Unmarshal g g0
    \<and> MsgUpdateParams_XXX_Marshal info1 m b True = info1 b
    \<and> Module_XXX_Marshal info2 c b True = info2 b
    \<and> Params_XXX_Marshal info3 p b True = info3 b
    \<and> MsgUpdateParamsResponse_XXX_Marshal info4 r b True = info4 b
    \<and> QueryParamsRequest_XXX_Marshal info5 q b True = info5 b
    \<and> QueryParamsResponse_XXX_Marshal info6 a b True = info6 b
    \<and> GenesisState_XXX_Marshal info7 g b True = info7 b"
proof -
  have "runtime_path MsgUpdateParams_XXX_Size (MsgUpdateParams_XXX_Marshal info1) MsgUpdateParams_Reset MsgUpdateParams_XXX_Unmarshal m m0
    \<and> runtime_path Module_XXX_Size (Module_XXX_Marshal info2) Module_Reset Module_XXX_Unmarshal c c0
    \<and> runtime_path Params_XXX_Size (Params_XXX_Marshal info3) Params_Reset Params_XXX_Unmarshal p p0
    \<and> runtime_path MsgUpdateParamsResponse_XXX_Size (MsgUpdateParamsResponse_XXX_Marshal info4) MsgUpdateParamsResponse_Reset MsgUpdateParamsResponse_XXX_Unmarshal r r0
    \<and> runtime_path QueryParamsRequest_XXX_Size (QueryParamsRequest_XXX_Marshal info5) QueryParamsRequest_Reset QueryParamsRequest_XXX_Unmarshal q q0
    \<and> runtime_path QueryParamsResponse_XXX_Size (QueryParamsResponse_XXX_Marshal info6) QueryParamsResponse_Reset QueryParamsResponse_XXX_Unmarshal a a0
    \<and> runtime_path GenesisState_XXX_Size (GenesisState_XXX_Marshal info7) GenesisState_Reset GenesisState_XXX_Unmarshal g g0"
    unfolding generated_defs [abs_def] codec_defs [abs_def]
    by (intro conjI msg.runtime_path_of [OF fits_enc_MsgUpdateParams [OF assms(1)]]
      modul.runtime_path_of [OF fits_enc_Module [OF assms(2)]]
      params.runtime_path_of [OF fits_nil]
      msg_response.runtime_path_of [OF fits_nil]
      query_request.runtime_path_of [OF fits_nil]
      query_response.runtime_path_of [OF fits_params_field]
      genesis.runtime_path_of [OF fits_params_field])
  then show ?thesis by (simp add: generated_defs xxx_marshal_def)
qed

theorem xxx_roundtrip_witness:
  "\<exists>out. length out = 11 \<and> MsgUpdateParams_XXX_Marshal Inr sample_msg (replicate 11 0xff) False = Inr out
    \<and> MsgUpdateParams_XXX_Unmarshal (MsgUpdateParams_Reset \<lparr>mup_Authority = ''old'', mup_Params = Params_struct\<rparr>) out
      = Inr sample_msg"
proof -
  have "fits (enc_MsgUpdateParams sample_msg)" by (simp add: sample_encoded fits_def)
  then have "int (length (replicate 11 (0xff :: byte))) = MsgUpdateParams_XXX_Size sample_msg"
    using msg.size_enc by (simp add: MsgUpdateParams_XXX_Size_def sample_encoded)
  moreover have "runtime_path MsgUpdateParams_XXX_Size (MsgUpdateParams_XXX_Marshal Inr) MsgUpdateParams_Reset
      MsgUpdateParams_XXX_Unmarshal sample_msg \<lparr>mup_Authority = ''old'', mup_Params = Params_struct\<rparr>"
    by (rule xxx_roundtrip [of sample_msg "\<lparr>mod_Authority = ''gov''\<rparr>", THEN conjunct1]) (simp_all add: sample_msg_def)
  ultimately show ?thesis unfolding runtime_path_def by (metis length_replicate)
qed

end
