(* ===== verification/AppConfig.thy ===== *)
theory AppConfig
  imports AppModule
begin

text \<open>
  The application's static configuration: app/app_config.go (module accounts, the order in
  which modules run, the configured modules), the address helpers at the end of app/app.go,
  the bech32 prefixes of app/config.go, and app/genesis_account.go. Names that the SDK and IBC
  packages declare are the record \<open>names\<close>; where a statement needs them to differ, it says so.
\<close>

section \<open>Names of other packages\<close>

record names =
  runtimeModule :: string
  authModule :: string
  vestingModule :: string
  bankModule :: string
  stakingModule :: string
  slashingModule :: string
  genutilModule :: string
  authzModule :: string
  upgradeModule :: string
  distrModule :: string
  evidenceModule :: string
  mintModule :: string
  groupModule :: string
  nftModule :: string
  feegrantModule :: string
  govModule :: string
  consensusModule :: string
  circuitModule :: string
  paramsModule :: string
  epochsModule :: string
  ibcexportedModule :: string
  ibctransferModule :: string
  icaModule :: string
  FeeCollectorName :: string
  BondedPoolName :: string
  NotBondedPoolName :: string
  Minter :: string
  Burner :: string

definition all_names :: "names \<Rightarrow> string list" where
  "all_names N =
     [runtimeModule N, authModule N, vestingModule N, bankModule N, stakingModule N,
      slashingModule N, genutilModule N, authzModule N, upgradeModule N, distrModule N,
      evidenceModule N, mintModule N, groupModule N, nftModule N, feegrantModule N,
      govModule N, consensusModule N, circuitModule N, paramsModule N, epochsModule N,
      ibcexportedModule N, ibctransferModule N, icaModule N, FeeCollectorName N,
      BondedPoolName N, NotBondedPoolName N, ModuleName, ''tx'']"

text \<open>The permissions of module accounts: the staking pools also hold staking's own name.\<close>

definition permission_names :: "names \<Rightarrow> string list" where
  "permission_names N = [Minter N, Burner N, stakingModule N]"

section \<open>Module accounts (app_config.go)\<close>

type_synonym permissions = "(string \<times> string list) list"

definition moduleAccPerms :: "names \<Rightarrow> permissions" where
  "moduleAccPerms N =
     [(FeeCollectorName N, []),
      (distrModule N, []),
      (mintModule N, [Minter N]),
      (BondedPoolName N, [Burner N, stakingModule N]),
      (NotBondedPoolName N, [Burner N, stakingModule N]),
      (govModule N, [Burner N]),
      (nftModule N, []),
      (ibctransferModule N, [Minter N, Burner N]),
      (icaModule N, [])]"

definition blockAccAddrs :: "names \<Rightarrow> string list" where
  "blockAccAddrs N =
     [FeeCollectorName N, distrModule N, mintModule N, BondedPoolName N, NotBondedPoolName N, nftModule N]"

section \<open>The order in which modules run (app_config.go)\<close>

definition PreBlockers :: "names \<Rightarrow> string list" where
  "PreBlockers N = [upgradeModule N, authModule N]"

definition BeginBlockers :: "names \<Rightarrow> string list" where
  "BeginBlockers N =
     [mintModule N, distrModule N, slashingModule N, evidenceModule N, stakingModule N, authzModule N, epochsModule N, ibcexportedModule N, ModuleName]"

definition EndBlockers :: "names \<Rightarrow> string list" where
  "EndBlockers N = [govModule N, stakingModule N, feegrantModule N, groupModule N, ModuleName]"

definition InitGenesis_order :: "names \<Rightarrow> string list" where
  "InitGenesis_order N =
     [consensusModule N, authModule N, bankModule N, distrModule N, stakingModule N, slashingModule N, govModule N, mintModule N, genutilModule N,
      evidenceModule N, authzModule N, feegrantModule N, vestingModule N, nftModule N, groupModule N, upgradeModule N, circuitModule N, epochsModule N,
      ibcexportedModule N, ibctransferModule N, icaModule N, ModuleName]"

section \<open>The configuration of the modules (app_config.go)\<close>

text \<open>The constants of app.go\<close>

definition AppName :: string where "AppName = ''tatcoin''"
definition AccountAddressPrefix :: string where "AccountAddressPrefix = ''tat''"
definition ChainCoinType :: nat where "ChainCoinType = 118"

text \<open>
  The \<^verbatim>\<open>Config\<close> of a module: the runtime's (application, order of the modules, overridden store
  keys), that of auth (prefix, permissions, unordered transactions), bank (blocked accounts) and
  group (period in seconds, metadata length), and the empty one of every other module
\<close>

datatype module_config =
    RuntimeModule string "string list" "string list" "string list" "(string \<times> string) list" "string list"
  | AuthModule string permissions bool
  | BankModule "string list"
  | GroupModule int int
  | EmptyModule

text \<open>The first entry of the configuration, for the runtime, and the entries of the modules\<close>

definition runtime_config :: "names \<Rightarrow> string \<times> module_config" where
  "runtime_config N =
     (runtimeModule N, RuntimeModule AppName (PreBlockers N) (BeginBlockers N) (EndBlockers N)
       [(authModule N, ''acc'')] (InitGenesis_order N))"

definition module_configs :: "names \<Rightarrow> (string \<times> module_config) list" where
  "module_configs N =
     [(authModule N, AuthModule AccountAddressPrefix (moduleAccPerms N) True),
      (vestingModule N, EmptyModule),
      (bankModule N, BankModule (blockAccAddrs N)),
      (stakingModule N, EmptyModule),
      (slashingModule N, EmptyModule),
      (''tx'', EmptyModule),
      (genutilModule N, EmptyModule),
      (authzModule N, EmptyModule),
      (upgradeModule N, EmptyModule),
      (distrModule N, EmptyModule),
      (evidenceModule N, EmptyModule),
      (mintModule N, EmptyModule),
      (groupModule N, GroupModule 1209600 255),
      (nftModule N, EmptyModule),
      (feegrantModule N, EmptyModule),
      (govModule N, EmptyModule),
      (consensusModule N, EmptyModule),
      (circuitModule N, EmptyModule),
      (paramsModule N, EmptyModule),
      (epochsModule N, EmptyModule),
      (ModuleName, EmptyModule)]"

definition appConfig :: "names \<Rightarrow> (string \<times> module_config) list" where
  "appConfig N = runtime_config N # module_configs N"

definition Modules :: "names \<Rightarrow> string list" where
  "Modules N = map fst (appConfig N)"

section \<open>Helpers of app.go\<close>

text \<open>\<^verbatim>\<open>for _, perms := range moduleAccPerms { dup[perms.GetAccount()] = perms.GetPermissions() }\<close>\<close>

definition GetMaccPerms :: "permissions \<Rightarrow> string \<Rightarrow> string list option" where
  "GetMaccPerms perms = fold (\<lambda>p dup. dup(fst p \<mapsto> snd p)) perms Map.empty"

definition BlockedAddresses :: "permissions \<Rightarrow> string list \<Rightarrow> string \<Rightarrow> bool option" where
  "BlockedAddresses perms addrs =
     (if length addrs > 0
      then fold (\<lambda>addr result. result(addr \<mapsto> True)) addrs Map.empty
      else (\<lambda>addr. if GetMaccPerms perms addr \<noteq> None then Some True else None))"

section \<open>Bech32 prefixes (config.go)\<close>

record sdk_config =
  DefaultBondDenom :: string
  CoinType :: nat
  AccountPrefixes :: "string \<times> string"
  ValidatorPrefixes :: "string \<times> string"
  ConsensusNodePrefixes :: "string \<times> string"
  Sealed :: bool

definition config_init :: "sdk_config \<Rightarrow> sdk_config" where
  "config_init config =
     (let accountPubKeyPrefix = AccountAddressPrefix @ ''pub'';
          validatorAddressPrefix = AccountAddressPrefix @ ''valoper'';
          validatorPubKeyPrefix = AccountAddressPrefix @ ''valoperpub'';
          consNodeAddressPrefix = AccountAddressPrefix @ ''valcons'';
          consNodePubKeyPrefix = AccountAddressPrefix @ ''valconspub''
      in config\<lparr>DefaultBondDenom := ''stake'',
           CoinType := ChainCoinType,
           AccountPrefixes := (AccountAddressPrefix, accountPubKeyPrefix),
           ValidatorPrefixes := (validatorAddressPrefix, validatorPubKeyPrefix),
           ConsensusNodePrefixes := (consNodeAddressPrefix, consNodePubKeyPrefix),
           Sealed := True\<rparr>)"

section \<open>Genesis accounts (genesis_account.go)\<close>

text \<open>\<open>'b\<close> is the SDK's \<^verbatim>\<open>BaseAccount\<close>, \<open>'c\<close> its \<^verbatim>\<open>Coins\<close>; \<open>account_ops\<close> are their methods.\<close>

record ('b, 'c) GenesisAccount =
  BaseAccount :: 'b
  OriginalVesting :: 'c
  DelegatedFree :: 'c
  DelegatedVesting :: 'c
  StartTime :: int
  EndTime :: int
  GA_ModuleName :: string
  ModulePermissions :: "string list"

record ('b, 'c, 'x) account_ops =
  IsZero :: "'c \<Rightarrow> bool"
  BaseAccount_Validate :: "'b \<Rightarrow> 'x option"
  ModuleAccount_Validate :: "'b \<Rightarrow> string \<Rightarrow> string list \<Rightarrow> 'x option"

definition GenesisAccount_Validate ::
  "('b, 'c, 'x) account_ops \<Rightarrow> ('b, 'c) GenesisAccount \<Rightarrow> (string + 'x) option" where
  "GenesisAccount_Validate A sga =
     (if \<not> IsZero A (OriginalVesting sga) \<and> StartTime sga \<ge> EndTime sga
      then Some (Inl ''vesting start-time cannot be before end-time'')
      else
        let ma = (if GA_ModuleName sga \<noteq> ''''
                  then ModuleAccount_Validate A (BaseAccount sga) (GA_ModuleName sga) (ModulePermissions sga)
                  else None)
        in case ma of
             Some err \<Rightarrow> Some (Inr err)
           | None \<Rightarrow> map_option Inr (BaseAccount_Validate A (BaseAccount sga)))"

section \<open>Lemmas\<close>

text \<open>\<open>precedes xs x y\<close>: in \<open>xs\<close>, both occur and \<open>x\<close> first occurs before \<open>y\<close> does.\<close>

definition precedes :: "'a list \<Rightarrow> 'a \<Rightarrow> 'a \<Rightarrow> bool" where
  "precedes xs x y \<longleftrightarrow> y \<in> set xs \<and> x \<in> set (takeWhile (\<lambda>z. z \<noteq> y) xs)"

lemmas order_defs =
  PreBlockers_def BeginBlockers_def EndBlockers_def InitGenesis_order_def Modules_def appConfig_def runtime_config_def module_configs_def

lemma GetMaccPerms_map_of: "GetMaccPerms perms = map_of (rev perms)"
  unfolding GetMaccPerms_def
  by (induction perms rule: rev_induct) (auto simp: map_add_def fun_eq_iff)

lemma fold_block: "fold (\<lambda>addr result. result(addr \<mapsto> True)) addrs Map.empty a
    = (if a \<in> set addrs then Some True else None)"
  by (induction addrs rule: rev_induct) auto

lemma BlockedAddresses_eq:
  "BlockedAddresses perms addrs a =
    (if a \<in> (if addrs = [] then fst ` set perms else set addrs) then Some True else None)"
  by (auto simp: BlockedAddresses_def fold_block GetMaccPerms_map_of map_of_eq_None_iff)

lemma account_names_distinct:
  assumes "distinct (all_names N)"
  shows "distinct (map fst (moduleAccPerms N))"
  using assms by (simp_all add: all_names_def moduleAccPerms_def eq_commute)

lemma GetMaccPerms_dom: "GetMaccPerms perms a \<noteq> None \<longleftrightarrow> a \<in> set (map fst perms)"
  by (simp add: GetMaccPerms_map_of map_of_eq_None_iff)

text \<open>The accounts that hold a permission, computed from the table\<close>

lemma permission_holders:
  assumes "distinct (map fst perms)"
  shows "{a. \<exists>ps. GetMaccPerms perms a = Some ps \<and> r \<in> set ps}
    = set (map fst (filter (\<lambda>p. r \<in> set (snd p)) perms))"
proof -
  have "GetMaccPerms perms a = Some ps \<longleftrightarrow> (a, ps) \<in> set perms" for a ps
    using assms by (simp add: GetMaccPerms_map_of rev_map [symmetric])
  then show ?thesis by force
qed

definition sample_names :: names where
  "sample_names = \<lparr>
     runtimeModule = ''runtime'', authModule = ''auth'', vestingModule = ''vesting'',
     bankModule = ''bank'', stakingModule = ''staking'', slashingModule = ''slashing'',
     genutilModule = ''genutil'', authzModule = ''authz'', upgradeModule = ''upgrade'',
     distrModule = ''distribution'', evidenceModule = ''evidence'', mintModule = ''mint'',
     groupModule = ''group'', nftModule = ''nft'', feegrantModule = ''feegrant'',
     govModule = ''gov'', consensusModule = ''consensus'', circuitModule = ''circuit'',
     paramsModule = ''params'', epochsModule = ''epochs'', ibcexportedModule = ''ibc'',
     ibctransferModule = ''transfer'', icaModule = ''interchainaccounts'',
     FeeCollectorName = ''fee_collector'', BondedPoolName = ''bonded_tokens_pool'',
     NotBondedPoolName = ''not_bonded_tokens_pool'', Minter = ''minter'', Burner = ''burner''\<rparr>"

lemma sample_names_simps:
  "upgradeModule sample_names = ''upgrade''" "distrModule sample_names = ''distribution''"
  "slashingModule sample_names = ''slashing''" "mintModule sample_names = ''mint''"
  "govModule sample_names = ''gov''" "ibctransferModule sample_names = ''transfer''"
  "icaModule sample_names = ''interchainaccounts''" "Minter sample_names = ''minter''"
  by (simp_all add: sample_names_def)

lemma sample_names_distinct: "distinct (all_names sample_names)"
  by (simp add: sample_names_def all_names_def ModuleName_def)


lemma sample_permissions_distinct: "distinct (permission_names sample_names)"
  by (simp add: sample_names_def permission_names_def)

section \<open>Properties\<close>

text \<open>
  The module order keeps the constraints that the comments in app_config.go state: upgrade
  runs first in the pre-block phase, slashing begins a block after distribution, and genutil is
  initialised after staking and after auth. No module is listed twice, and whatever is listed
  is configured or is one of the three IBC modules registered by hand.
\<close>

theorem module_order:
  assumes "distinct (all_names N)"
  shows "hd (PreBlockers N) = upgradeModule N
    \<and> precedes (BeginBlockers N) (distrModule N) (slashingModule N)
    \<and> precedes (InitGenesis_order N) (stakingModule N) (genutilModule N)
    \<and> precedes (InitGenesis_order N) (authModule N) (genutilModule N)
    \<and> distinct (PreBlockers N) \<and> distinct (BeginBlockers N) \<and> distinct (EndBlockers N)
    \<and> distinct (InitGenesis_order N) \<and> distinct (Modules N)
    \<and> set (PreBlockers N @ BeginBlockers N @ EndBlockers N @ InitGenesis_order N)
        \<subseteq> set (Modules N) \<union> {ibcexportedModule N, ibctransferModule N, icaModule N}"
proof (intro conjI)
  show "set (PreBlockers N @ BeginBlockers N @ EndBlockers N @ InitGenesis_order N)
        \<subseteq> set (Modules N) \<union> {ibcexportedModule N, ibctransferModule N, icaModule N}"
    by (simp add: order_defs)
qed (use assms in \<open>simp_all add: order_defs precedes_def all_names_def eq_commute\<close>)

theorem module_order_witness:
  "hd (PreBlockers sample_names) = ''upgrade''
    \<and> precedes (BeginBlockers sample_names) ''distribution'' ''slashing''
    \<and> distinct (InitGenesis_order sample_names)"
  using module_order [OF sample_names_distinct, unfolded sample_names_simps] by (elim conjE) (intro conjI)

text \<open>
  \<^verbatim>\<open>BlockedAddresses\<close> blocks exactly the listed module accounts, each of which has an entry
  in the permissions. The module accounts that can still receive funds are governance, as the
  comment says, and also the IBC transfer and interchain accounts, which it does not mention.
\<close>

theorem blocked_accounts:
  assumes "distinct (all_names N)"
  shows "(\<forall>a. BlockedAddresses (moduleAccPerms N) (blockAccAddrs N) a
          = (if a \<in> set (blockAccAddrs N) then Some True else None))
    \<and> set (blockAccAddrs N) \<subseteq> {a. GetMaccPerms (moduleAccPerms N) a \<noteq> None}
    \<and> {a. GetMaccPerms (moduleAccPerms N) a \<noteq> None
          \<and> BlockedAddresses (moduleAccPerms N) (blockAccAddrs N) a = None}
        = {govModule N, ibctransferModule N, icaModule N}"
proof -
  have b: "BlockedAddresses (moduleAccPerms N) (blockAccAddrs N) a
      = (if a \<in> set (blockAccAddrs N) then Some True else None)" for a
    by (simp add: BlockedAddresses_eq blockAccAddrs_def)
  have "{a. a \<in> set (map fst (moduleAccPerms N)) \<and> a \<notin> set (blockAccAddrs N)}
      = set (map fst (moduleAccPerms N)) - set (blockAccAddrs N)"
    by (simp add: set_diff_eq)
  also have "\<dots> = {govModule N, ibctransferModule N, icaModule N}"
    using account_names_distinct [OF assms]
    by (simp add: moduleAccPerms_def blockAccAddrs_def insert_Diff_if eq_commute)
  finally have open_accounts: "{a. a \<in> set (map fst (moduleAccPerms N)) \<and> a \<notin> set (blockAccAddrs N)}
      = {govModule N, ibctransferModule N, icaModule N}" .
  have blocked: "set (blockAccAddrs N) \<subseteq> set (map fst (moduleAccPerms N))"
    by (simp add: moduleAccPerms_def blockAccAddrs_def)
  show ?thesis
    using open_accounts blocked unfolding b GetMaccPerms_dom by (simp add: Collect_conj_eq)
qed

theorem blocked_accounts_witness:
  "{a. GetMaccPerms (moduleAccPerms sample_names) a \<noteq> None
          \<and> BlockedAddresses (moduleAccPerms sample_names) (blockAccAddrs sample_names) a = None}
        = {''gov'', ''transfer'', ''interchainaccounts''}"
  by (rule blocked_accounts [OF sample_names_distinct, unfolded sample_names_simps, THEN conjunct2, THEN conjunct2])

text \<open>
  Only the mint module and IBC transfer may create coins, and only the staking pools,
  governance and IBC transfer may destroy them.
\<close>

theorem minters_and_burners:
  assumes "distinct (all_names N)" "distinct (permission_names N)"
  shows "{a. \<exists>ps. GetMaccPerms (moduleAccPerms N) a = Some ps \<and> Minter N \<in> set ps}
      = {mintModule N, ibctransferModule N}
    \<and> {a. \<exists>ps. GetMaccPerms (moduleAccPerms N) a = Some ps \<and> Burner N \<in> set ps}
      = {BondedPoolName N, NotBondedPoolName N, govModule N, ibctransferModule N}"
  unfolding permission_holders [OF account_names_distinct [OF assms(1)]]
  using assms(2) by (simp add: moduleAccPerms_def permission_names_def eq_commute)

theorem minters_and_burners_witness:
  "{a. \<exists>ps. GetMaccPerms (moduleAccPerms sample_names) a = Some ps \<and> ''minter'' \<in> set ps}
      = {''mint'', ''transfer''}"
  by (rule minters_and_burners [OF sample_names_distinct sample_permissions_distinct, unfolded sample_names_simps, THEN conjunct1])

text \<open>
  The SDK configuration ends sealed with the coin type 118 and six pairwise different
  bech32 prefixes, all extending the account prefix \<^verbatim>\<open>tat\<close>, so that the text of an address
  shows which kind it is.
\<close>

definition config_prefixes :: "sdk_config \<Rightarrow> string list" where
  "config_prefixes c =
     [fst (AccountPrefixes c), snd (AccountPrefixes c), fst (ValidatorPrefixes c),
      snd (ValidatorPrefixes c), fst (ConsensusNodePrefixes c), snd (ConsensusNodePrefixes c)]"

theorem config_init_prefixes:
  "Sealed (config_init c) \<and> CoinType (config_init c) = 118 \<and> DefaultBondDenom (config_init c) = ''stake''
    \<and> distinct (config_prefixes (config_init c))
    \<and> list_all (\<lambda>p. \<exists>rest. p = ''tat'' @ rest) (config_prefixes (config_init c))"
  by (simp add: config_init_def config_prefixes_def AccountAddressPrefix_def ChainCoinType_def)

text \<open>
  A genesis account is valid exactly if its vesting period, when it vests anything, starts
  before it ends, and the SDK accepts the module account (when it names a module) and the base
  account; a wrong vesting period is reported first, whatever else is wrong.
\<close>

theorem GenesisAccount_Validate_iff:
  "(GenesisAccount_Validate A sga = None \<longleftrightarrow>
      (IsZero A (OriginalVesting sga) \<or> StartTime sga < EndTime sga)
      \<and> (GA_ModuleName sga = [] \<or>
          ModuleAccount_Validate A (BaseAccount sga) (GA_ModuleName sga) (ModulePermissions sga) = None)
      \<and> BaseAccount_Validate A (BaseAccount sga) = None)
    \<and> ((\<exists>msg. GenesisAccount_Validate A sga = Some (Inl msg)) \<longleftrightarrow>
      \<not> (IsZero A (OriginalVesting sga) \<or> StartTime sga < EndTime sga))"
  by (auto simp: GenesisAccount_Validate_def split: option.splits)

end
