(* ===== verification/Wiring.thy ===== *)
theory Wiring
  imports AppConfig Export Testnet
begin

text \<open>
  How the application is put together: \<^verbatim>\<open>New\<close> and the other functions of app/app.go, the IBC
  modules that are registered by hand (app/ibc.go), and \<^verbatim>\<open>newApp\<close> and \<^verbatim>\<open>appExport\<close> of
  cmd/tatcoind/cmd/commands.go. These are programs over the calls they make on the SDK's
  builder, keepers and routers; what these answer is the record \<open>builder\<close>. A keeper that is
  built is represented by what the code passes to its constructor and can get wrong: the store
  key, the parameter subspace and the authority.
\<close>

section \<open>Calls\<close>

record ibc_names = names +
  ibcStoreKey :: string
  transferStoreKey :: string
  icahostStoreKey :: string
  icacontrollerStoreKey :: string
  icahostSubModule :: string
  icacontrollerSubModule :: string
  transferPortID :: string
  tmModule :: string
  solomachineModule :: string

datatype keeper_kind = IBC | Transfer | ICAHost | ICAController

record keeper_args =
  StoreKeyOf :: "string option"    \<comment> \<open>the store service's key, \<^verbatim>\<open>nil\<close> is \<open>None\<close>\<close>
  SubspaceOf :: "string option"    \<comment> \<open>\<open>None\<close> is the zero \<^verbatim>\<open>Subspace\<close>\<close>
  AuthorityOf :: string

datatype ibc_module = CoreModule | TransferModule | InterchainAccountsModule | TendermintModule | SolomachineModule

datatype ibc_stack = TransferStack | ICAControllerStack | ICAHostStack | TransferStackV2

datatype 'b wcall =
    Inject
  | Build "'b list"
  | RegisterStores "string list"
  | SubspaceWithKeyTable string
  | NewIBCModuleKeeper keeper_kind keeper_args
  | AddRoute string ibc_stack
  | AddRouteV2 string ibc_stack
  | SetRouter
  | SetRouterV2
  | AddClientRoute string
  | RegisterModules "ibc_module list"
  | NewSimulationManager "string list"
  | RegisterStoreDecoders
  | SetInitChainer
  | LoadApp bool
  | LoadHeight int
  | SetModuleVersionMap
  | RegisterAPIRoutes
  | RegisterSwaggerAPI bool
  | RouterHandle string
  | RouterHandleFunc string
  | RegisterInterfaces ibc_module
  | InjectRoot
  | AddCommands string "string list"       \<comment> \<open>the command, and what makes its new subcommands\<close>
  | AddCommandsWithStartCmdOptions
  | EnhanceRootCommand
  | SetOut
  | SetErr
  | ReadPersistentCommandFlags
  | ReadFromClientConfig
  | SetCmdClientContextHandler
  | InterceptConfigsPreRunHandler
  | ExecuteRoot string string              \<comment> \<open>environment prefix, home directory\<close>
  | PrintError

datatype store_key = KVStoreKey string | OtherStoreKey

datatype ('b, 'x) wstop =
    WPanic 'x
  | NilPointer
  | ExportPanic "'x panic"
  | WExit nat

record ('b, 'x) builder =
  CallErr :: "'b wcall list \<Rightarrow> 'b wcall \<Rightarrow> 'x option"
  UnsafeFindStoreKey :: "'b wcall list \<Rightarrow> string \<Rightarrow> store_key option"
  FindSubspace :: "'b wcall list \<Rightarrow> string \<Rightarrow> string option"
  ModuleAddress :: "string \<Rightarrow> string"      \<comment> \<open>of a module account, as a string\<close>
  IsAppModuleBasic :: "ibc_module \<Rightarrow> bool"
  SetOptimisticExecution :: 'b
  RangeOrder :: "(string \<times> ibc_module) list \<Rightarrow> (string \<times> ibc_module) list"  \<comment> \<open>the order in which a loop visits a map\<close>

type_synonym ('b, 'x, 'a) wiring = "('b wcall, ('b, 'x) wstop, 'a) prog"

text \<open>A call that may panic, and one whose error the caller looks at\<close>

definition invoke :: "('b, 'x) builder \<Rightarrow> 'b wcall \<Rightarrow> ('b, 'x, unit) wiring" where
  "invoke E c = seqp (perform (CallErr E) c) (check WPanic)"

section \<open>The store keys and subspaces (app.go)\<close>

definition GetKey :: "('b, 'x) builder \<Rightarrow> string \<Rightarrow> 'b wcall list \<Rightarrow> string option" where
  "GetKey E storeKey h =
     (case UnsafeFindStoreKey E h storeKey of Some (KVStoreKey k) \<Rightarrow> Some k | _ \<Rightarrow> None)"

definition GetSubspace :: "('b, 'x) builder \<Rightarrow> string \<Rightarrow> 'b wcall list \<Rightarrow> string option" where
  "GetSubspace E moduleName h = FindSubspace E h moduleName"

section \<open>The IBC modules (ibc.go)\<close>

record ibc_app =
  IBCKeeper :: "keeper_args option"
  TransferKeeper :: "keeper_args option"
  ICAHostKeeper :: "keeper_args option"
  ICAControllerKeeper :: "keeper_args option"

definition no_ibc :: ibc_app where
  "no_ibc = \<lparr>IBCKeeper = None, TransferKeeper = None, ICAHostKeeper = None, ICAControllerKeeper = None\<rparr>"

definition GetIBCKeeper :: "ibc_app \<Rightarrow> keeper_args option" where
  "GetIBCKeeper app = IBCKeeper app"

text \<open>\<^verbatim>\<open>app.IBCKeeper.ChannelKeeper\<close> and \<^verbatim>\<open>app.IBCKeeper.ClientKeeper\<close> read through a pointer.\<close>

definition deref :: "'a option \<Rightarrow> ('b, 'x, 'a) wiring" where
  "deref p = (case p of None \<Rightarrow> stop NilPointer | Some k \<Rightarrow> ret k)"

definition new_keeper ::
  "('b, 'x) builder \<Rightarrow> keeper_kind \<Rightarrow> string \<Rightarrow> string \<Rightarrow> string \<Rightarrow> ('b, 'x, keeper_args) wiring" where
  "new_keeper E kind storeKey subspace authority =
     seqp (ask (GetKey E storeKey)) (\<lambda>k.
     seqp (ask (GetSubspace E subspace)) (\<lambda>s.
     let args = \<lparr>StoreKeyOf = k, SubspaceOf = s, AuthorityOf = authority\<rparr> in
     seqp (invoke E (NewIBCModuleKeeper kind args)) (\<lambda>_. ret args)))"

definition ibc_store_keys :: "ibc_names \<Rightarrow> string list" where
  "ibc_store_keys N = [ibcStoreKey N, transferStoreKey N, icahostStoreKey N, icacontrollerStoreKey N]"

definition register_key_tables :: "('b, 'x) builder \<Rightarrow> ibc_names \<Rightarrow> ('b, 'x, unit) wiring" where
  "register_key_tables E N =
     each (\<lambda>s. invoke E (SubspaceWithKeyTable s))
       [ibcexportedModule N, ibctransferModule N, icacontrollerSubModule N, icahostSubModule N]"

definition build_keepers :: "('b, 'x) builder \<Rightarrow> ibc_names \<Rightarrow> ibc_app \<Rightarrow> ('b, 'x, ibc_app) wiring" where
  "build_keepers E N app =
     (let govModuleAddr = ModuleAddress E (govModule N) in
      seqp (new_keeper E IBC (ibcStoreKey N) (ibcexportedModule N) govModuleAddr) (\<lambda>k.
      let app = app\<lparr>IBCKeeper := Some k\<rparr> in
      seqp (deref (IBCKeeper app)) (\<lambda>_.
      seqp (new_keeper E Transfer (transferStoreKey N) (ibctransferModule N) govModuleAddr) (\<lambda>k.
      let app = app\<lparr>TransferKeeper := Some k\<rparr> in
      seqp (new_keeper E ICAHost (icahostStoreKey N) (icahostSubModule N) govModuleAddr) (\<lambda>k.
      let app = app\<lparr>ICAHostKeeper := Some k\<rparr> in
      seqp (new_keeper E ICAController (icacontrollerStoreKey N) (icacontrollerSubModule N) govModuleAddr) (\<lambda>k.
        ret (app\<lparr>ICAControllerKeeper := Some k\<rparr>)))))))"

definition set_routes :: "('b, 'x) builder \<Rightarrow> ibc_names \<Rightarrow> ibc_app \<Rightarrow> ('b, 'x, unit) wiring" where
  "set_routes E N app =
     seqp (invoke E (AddRoute (ibctransferModule N) TransferStack)) (\<lambda>_.
     seqp (invoke E (AddRoute (icacontrollerSubModule N) ICAControllerStack)) (\<lambda>_.
     seqp (invoke E (AddRoute (icahostSubModule N) ICAHostStack)) (\<lambda>_.
     seqp (invoke E (AddRouteV2 (transferPortID N) TransferStackV2)) (\<lambda>_.
     seqp (deref (IBCKeeper app)) (\<lambda>_.
     seqp (invoke E SetRouter) (\<lambda>_.
     seqp (invoke E SetRouterV2) (\<lambda>_.
     seqp (invoke E (AddClientRoute (tmModule N))) (\<lambda>_.
       invoke E (AddClientRoute (solomachineModule N))))))))))"

definition ibc_modules :: "ibc_module list" where
  "ibc_modules = [CoreModule, TransferModule, InterchainAccountsModule, TendermintModule, SolomachineModule]"

text \<open>The application with its keepers, and the error\<close>

definition registerIBCModules ::
  "('b, 'x) builder \<Rightarrow> ibc_names \<Rightarrow> ibc_app \<Rightarrow> ('b, 'x, ibc_app \<times> 'x option) wiring" where
  "registerIBCModules E N app =
     seqp (perform (CallErr E) (RegisterStores (ibc_store_keys N))) (\<lambda>err. case err of
       Some e \<Rightarrow> ret (app, Some e)
     | None \<Rightarrow>
         seqp (register_key_tables E N) (\<lambda>_.
         seqp (build_keepers E N app) (\<lambda>app.
         seqp (set_routes E N app) (\<lambda>_.
         seqp (perform (CallErr E) (RegisterModules ibc_modules)) (\<lambda>err.
           ret (app, err))))))"

text \<open>
  \<^verbatim>\<open>RegisterIBC\<close> for the client side: the modules by name, and the interfaces they register. The
  loop visits the map in an order that Go leaves open.
\<close>

definition RegisterIBC_modules :: "ibc_names \<Rightarrow> (string \<times> ibc_module) list" where
  "RegisterIBC_modules N =
     [(ibcexportedModule N, CoreModule), (ibctransferModule N, TransferModule),
      (icaModule N, InterchainAccountsModule), (tmModule N, TendermintModule),
      (solomachineModule N, SolomachineModule)]"

definition RegisterIBC ::
  "('b, 'x) builder \<Rightarrow> ibc_names \<Rightarrow> ('b, 'x, (string \<times> ibc_module) list) wiring" where
  "RegisterIBC E N =
     (let modules = RegisterIBC_modules N in
      seqp (each (\<lambda>(_, m). if IsAppModuleBasic E m then invoke E (RegisterInterfaces m) else ret ())
              (RangeOrder E modules)) (\<lambda>_.
        ret modules))"

section \<open>The application (app.go)\<close>

text \<open>\<^verbatim>\<open>init\<close>: the environment prefix and the default home directory, or a panic\<close>

definition app_init :: "(string \<Rightarrow> 'x + string) \<Rightarrow> 'x + (string \<times> string)" where
  "app_init GetNodeHomeDirectory =
     (let EnvPrefix = AppName
      in bindE (GetNodeHomeDirectory (''.'' @ AppName)) (\<lambda>DefaultNodeHome. Inr (EnvPrefix, DefaultNodeHome)))"

definition New ::
  "('b, 'x) builder \<Rightarrow> ibc_names \<Rightarrow> bool \<Rightarrow> 'b list \<Rightarrow> ('b, 'x, ibc_app) wiring" where
  "New E N loadLatest baseAppOptions =
     (let app = no_ibc in
      seqp (invoke E Inject) (\<lambda>_.
      let baseAppOptions = baseAppOptions @ [SetOptimisticExecution E] in
      seqp (invoke E (Build baseAppOptions)) (\<lambda>_.
      seqp (registerIBCModules E N app) (\<lambda>(app, err).
      seqp (check WPanic err) (\<lambda>_.
      seqp (invoke E (NewSimulationManager [authModule N])) (\<lambda>_.
      seqp (invoke E RegisterStoreDecoders) (\<lambda>_.
      seqp (invoke E SetInitChainer) (\<lambda>_.
      seqp (invoke E (LoadApp loadLatest)) (\<lambda>_.
        ret app)))))))))"

text \<open>The function given to \<^verbatim>\<open>SetInitChainer\<close>; \<open>base\<close> is the runtime's \<^verbatim>\<open>InitChainer\<close>.\<close>

definition InitChainer ::
  "('b, 'x) builder \<Rightarrow> ('b wcall list \<Rightarrow> 'r option \<times> 'x option) \<Rightarrow> ('b, 'x, 'r option \<times> 'x option) wiring" where
  "InitChainer E base =
     seqp (perform (CallErr E) SetModuleVersionMap) (\<lambda>err. case err of
       Some e \<Rightarrow> ret (None, Some e)
     | None \<Rightarrow> ask base)"

text \<open>The routes of the API server and of docs/docs.go\<close>

definition RegisterOpenAPIService :: "('b, 'x) builder \<Rightarrow> string \<Rightarrow> ('b, 'x, unit) wiring" where
  "RegisterOpenAPIService E appName =
     seqp (invoke E (RouterHandle ''/static/openapi.json'')) (\<lambda>_.
       invoke E (RouterHandleFunc ''/''))"

definition App_RegisterAPIRoutes :: "('b, 'x) builder \<Rightarrow> bool \<Rightarrow> ('b, 'x, unit) wiring" where
  "App_RegisterAPIRoutes E swagger =
     seqp (invoke E RegisterAPIRoutes) (\<lambda>_.
     seqp (invoke E (RegisterSwaggerAPI swagger)) (\<lambda>_.
       RegisterOpenAPIService E AppName))"

section \<open>The commands that make an application (commands.go)\<close>

definition newApp :: "('b, 'x) builder \<Rightarrow> ibc_names \<Rightarrow> 'b list \<Rightarrow> ('b, 'x, ibc_app) wiring" where
  "newApp E N defaultBaseappOptions = New E N True defaultBaseappOptions"

text \<open>
  \<open>chain_of\<close> and \<open>exporter_of\<close> give the keepers and the module manager of the application that
  the calls have made. The options are a \<^verbatim>\<open>*viper.Viper\<close> or not.
\<close>

definition loaded_app :: "('b, 'x) builder \<Rightarrow> ibc_names \<Rightarrow> int \<Rightarrow> ('b, 'x, 'x option) wiring" where
  "loaded_app E N height =
     (if height \<noteq> -1
      then seqp (New E N False []) (\<lambda>_. perform (CallErr E) (LoadHeight height))
      else seqp (New E N True []) (\<lambda>_. ret None))"

definition appExport ::
  "('b, 'x) builder \<Rightarrow> ibc_names \<Rightarrow> ('b wcall list \<Rightarrow> ('c, 'o, 'x) chain)
    \<Rightarrow> ('b wcall list \<Rightarrow> ('c, 'o, 'x, 'g, 'j, 'w, 'p) exporter)
    \<Rightarrow> int \<Rightarrow> bool \<Rightarrow> string list \<Rightarrow> ('k, 'v) option_value \<Rightarrow> bool \<Rightarrow> string list
    \<Rightarrow> ('b, 'x, ('j, 'w, 'p) exported \<times> (string + 'x) option) wiring" where
  "appExport E N chain_of exporter_of height forZeroHeight jailAllowedAddrs home isViper modulesToExport =
     (case home of
        StringValue homePath \<Rightarrow>
          if homePath = '''' then ret (ExportedApp_zero, Some (Inl ''application home not set''))
          else if \<not> isViper then ret (ExportedApp_zero, Some (Inl ''appOpts is not viper.Viper''))
          else
            seqp (loaded_app E N height) (\<lambda>err. case err of
              Some e \<Rightarrow> ret (ExportedApp_zero, Some (Inr e))
            | None \<Rightarrow>
                seqp (ask (\<lambda>h. fst (ExportAppStateAndValidators (chain_of h) (exporter_of h)
                       forZeroHeight jailAllowedAddrs modulesToExport []))) (\<lambda>r.
                seqp (unwrap ExportPanic r) (\<lambda>(e, err). ret (e, map_option Inr err))))
      | _ \<Rightarrow> ret (ExportedApp_zero, Some (Inl ''application home not set'')))"

end
