(* ===== verification/WiringProperties.thy ===== *)
theory WiringProperties
  imports Wiring ExportProperties
begin

text \<open>
  What the construction of the application guarantees: no keeper is built over a missing store
  key or subspace and no nil pointer is read, the application is loaded last, and the export
  command exports the height it was asked for.
\<close>

lemma invoke_Inr [simp]: "invoke E c h = (Inr u, h') \<longleftrightarrow> CallErr E h c = None \<and> h' = h @ [c]"
  by (auto simp: invoke_def seqp_Inr)

lemma calls_invoke [calls_rules]: "Q c \<Longrightarrow> calls Q (invoke E c)"
  unfolding invoke_def by (intro calls_rules)

lemma calls_deref [calls_rules]: "calls Q (deref p)"
  unfolding deref_def by (intro calls_rules)

lemma deref_Some [simp]: "deref (Some x) = ret x"
  by (simp add: deref_def)

section \<open>Store keys and subspaces\<close>

text \<open>
  What the runtime and the params keeper promise: a store key that was registered without error
  and a subspace that was given a key table are found from then on.
\<close>

definition registry_law :: "('b, 'x) builder \<Rightarrow> bool" where
  "registry_law E \<longleftrightarrow>
     (\<forall>h ks k t. CallErr E h (RegisterStores ks) = None \<longrightarrow> k \<in> set ks
        \<longrightarrow> UnsafeFindStoreKey E (h @ RegisterStores ks # t) k = Some (KVStoreKey k))
     \<and> (\<forall>h s t. CallErr E h (SubspaceWithKeyTable s) = None
        \<longrightarrow> FindSubspace E (h @ SubspaceWithKeyTable s # t) s = Some s)"

text \<open>The store key and the subspace of a keeper\<close>

fun key_of :: "ibc_names \<Rightarrow> keeper_kind \<Rightarrow> string" where
  "key_of N IBC = ibcStoreKey N"
| "key_of N Transfer = transferStoreKey N"
| "key_of N ICAHost = icahostStoreKey N"
| "key_of N ICAController = icacontrollerStoreKey N"

fun subspace_of :: "ibc_names \<Rightarrow> keeper_kind \<Rightarrow> string" where
  "subspace_of N IBC = ibcexportedModule N"
| "subspace_of N Transfer = ibctransferModule N"
| "subspace_of N ICAHost = icahostSubModule N"
| "subspace_of N ICAController = icacontrollerSubModule N"

definition proper_args :: "('b, 'x) builder \<Rightarrow> ibc_names \<Rightarrow> keeper_kind \<Rightarrow> keeper_args" where
  "proper_args E N kind = \<lparr>StoreKeyOf = Some (key_of N kind), SubspaceOf = Some (subspace_of N kind),
     AuthorityOf = ModuleAddress E (govModule N)\<rparr>"

text \<open>All keys and subspaces are there, whatever is called next.\<close>

definition ready :: "('b, 'x) builder \<Rightarrow> ibc_names \<Rightarrow> 'b wcall list \<Rightarrow> bool" where
  "ready E N h \<longleftrightarrow>
     (\<forall>kind t. GetKey E (key_of N kind) (h @ t) = Some (key_of N kind)
        \<and> GetSubspace E (subspace_of N kind) (h @ t) = Some (subspace_of N kind))"

lemma ready_append: "ready E N h \<Longrightarrow> ready E N (h @ t)"
  by (simp add: ready_def)

lemma readyD:
  assumes "ready E N h"
  shows "GetKey E (key_of N kind) h = Some (key_of N kind)"
    "GetSubspace E (subspace_of N kind) h = Some (subspace_of N kind)"
  using assms unfolding ready_def by (metis append_Nil2)+

lemma key_tables_Inr:
  assumes "register_key_tables E N h = (Inr u, h')"
  shows "h' = h @ map SubspaceWithKeyTable
      [ibcexportedModule N, ibctransferModule N, icacontrollerSubModule N, icahostSubModule N]"
    and "CallErr E h (SubspaceWithKeyTable (ibcexportedModule N)) = None"
    and "CallErr E (h @ [SubspaceWithKeyTable (ibcexportedModule N)]) (SubspaceWithKeyTable (ibctransferModule N)) = None"
    and "CallErr E (h @ [SubspaceWithKeyTable (ibcexportedModule N), SubspaceWithKeyTable (ibctransferModule N)])
      (SubspaceWithKeyTable (icacontrollerSubModule N)) = None"
    and "CallErr E (h @ [SubspaceWithKeyTable (ibcexportedModule N), SubspaceWithKeyTable (ibctransferModule N),
      SubspaceWithKeyTable (icacontrollerSubModule N)]) (SubspaceWithKeyTable (icahostSubModule N)) = None"
  using assms by (simp_all add: register_key_tables_def seqp_Inr)

lemma key_tables_ready:
  assumes "registry_law E" "CallErr E h (RegisterStores (ibc_store_keys N)) = None"
    and "register_key_tables E N (h @ [RegisterStores (ibc_store_keys N)]) = (Inr u, h')"
  shows "ready E N h'"
  unfolding ready_def
proof (intro allI)
  fix kind t
  note k = key_tables_Inr [OF assms(3)]
  have "key_of N kind \<in> set (ibc_store_keys N)" by (cases kind) (simp_all add: ibc_store_keys_def)
  with assms(1,2) have "UnsafeFindStoreKey E (h' @ t) (key_of N kind) = Some (KVStoreKey (key_of N kind))"
    unfolding registry_law_def k(1) by simp
  moreover have "FindSubspace E (h' @ t) (subspace_of N kind) = Some (subspace_of N kind)"
    using assms(1) k(2-5) unfolding registry_law_def k(1)
    by (cases kind) (simp_all, (metis append.assoc append_Cons append_Nil)+)
  ultimately show "GetKey E (key_of N kind) (h' @ t) = Some (key_of N kind)
      \<and> GetSubspace E (subspace_of N kind) (h' @ t) = Some (subspace_of N kind)"
    by (simp add: GetKey_def GetSubspace_def)
qed

section \<open>Keepers\<close>

lemma new_keeper_ready:
  assumes "ready E N h"
  shows "new_keeper E kind (key_of N kind) (subspace_of N kind) (ModuleAddress E (govModule N)) h
    = (case CallErr E h (NewIBCModuleKeeper kind (proper_args E N kind)) of
         None \<Rightarrow> Inr (proper_args E N kind) | Some x \<Rightarrow> Inl (WPanic x),
       h @ [NewIBCModuleKeeper kind (proper_args E N kind)])"
  using readyD [OF assms, of kind]
  by (simp add: new_keeper_def seqp_def ask_def invoke_def perform_def Let_def proper_args_def ret_def
      check_def stop_def split: option.split)

text \<open>
  \<open>sound E N m\<close>: with the keys and subspaces in place, \<open>m\<close> builds keepers from the right ones only
  and reads no nil pointer.
\<close>

fun proper_call :: "('b, 'x) builder \<Rightarrow> ibc_names \<Rightarrow> 'b wcall \<Rightarrow> bool" where
  "proper_call E N (NewIBCModuleKeeper kind args) = (args = proper_args E N kind)"
| "proper_call E N c = True"

definition sound :: "('b, 'x) builder \<Rightarrow> ibc_names \<Rightarrow> ('b, 'x, 'a) wiring \<Rightarrow> bool" where
  "sound E N m \<longleftrightarrow> (\<forall>h. ready E N h \<longrightarrow>
     fst (m h) \<noteq> Inl NilPointer \<and> (\<exists>t. snd (m h) = h @ t \<and> list_all (proper_call E N) t))"

lemma sound_ret: "sound E N (ret x)"
  by (simp add: sound_def ret_def)

lemma sound_invoke: "proper_call E N c \<Longrightarrow> sound E N (invoke E c)"
  by (simp add: sound_def invoke_def seqp_def perform_def check_def ret_def stop_def split: option.split)

lemma sound_perform: "proper_call E N c \<Longrightarrow> sound E N (perform (CallErr E) c)"
  by (simp add: sound_def perform_def)

lemma sound_keeper:
  "sound E N (new_keeper E kind (key_of N kind) (subspace_of N kind) (ModuleAddress E (govModule N)))"
  by (simp add: sound_def new_keeper_ready split: option.split)

lemma sound_seqp:
  assumes "sound E N m" "\<And>x. sound E N (k x)"
  shows "sound E N (seqp m k)"
  unfolding sound_def
proof (intro allI impI)
  fix h
  assume r: "ready E N h"
  obtain a h1 where m: "m h = (a, h1)" by (cases "m h")
  from assms(1) r m obtain t where a: "a \<noteq> Inl NilPointer" and t: "h1 = h @ t" "list_all (proper_call E N) t"
    unfolding sound_def by fastforce
  show "fst (seqp m k h) \<noteq> Inl NilPointer \<and> (\<exists>t. snd (seqp m k h) = h @ t \<and> list_all (proper_call E N) t)"
  proof (cases a)
    case (Inl e)
    with m a t show ?thesis by (simp add: seqp_def)
  next
    case (Inr x)
    from assms(2) [of x] ready_append [OF r, of t] obtain u where
      "fst (k x h1) \<noteq> Inl NilPointer" "snd (k x h1) = h1 @ u" "list_all (proper_call E N) u"
      unfolding sound_def t(1) by blast
    with m Inr t show ?thesis by (simp add: seqp_def)
  qed
qed

lemmas sound_rules = sound_seqp sound_ret sound_invoke sound_perform

lemma sound_build_keepers: "sound E N (build_keepers E N app)"
  unfolding build_keepers_def Let_def
  by (simp, intro sound_rules sound_keeper [of _ _ IBC, simplified]
      sound_keeper [of _ _ Transfer, simplified] sound_keeper [of _ _ ICAHost, simplified]
      sound_keeper [of _ _ ICAController, simplified])

definition wired :: "('b, 'x) builder \<Rightarrow> ibc_names \<Rightarrow> ibc_app" where
  "wired E N = \<lparr>IBCKeeper = Some (proper_args E N IBC), TransferKeeper = Some (proper_args E N Transfer),
     ICAHostKeeper = Some (proper_args E N ICAHost), ICAControllerKeeper = Some (proper_args E N ICAController)\<rparr>"

lemma new_keeper_Inr:
  assumes "ready E N h"
    and "new_keeper E kind (key_of N kind) (subspace_of N kind) (ModuleAddress E (govModule N)) h = (Inr a, h')"
  shows "a = proper_args E N kind \<and> h' = h @ [NewIBCModuleKeeper kind (proper_args E N kind)]"
  using assms(2) unfolding new_keeper_ready [OF assms(1)] by (auto split: option.splits)

lemma build_keepers_Inr:
  assumes "ready E N h" "build_keepers E N app h = (Inr app', h')"
  shows "app' = wired E N" and "ready E N h'"
proof -
  note k = new_keeper_Inr [of E N _ IBC, simplified] new_keeper_Inr [of E N _ Transfer, simplified]
    new_keeper_Inr [of E N _ ICAHost, simplified] new_keeper_Inr [of E N _ ICAController, simplified]
  from assms(2) obtain a1 h1 a2 h2 a3 h3 a4 where
    "new_keeper E IBC (ibcStoreKey N) (ibcexportedModule N) (ModuleAddress E (govModule N)) h = (Inr a1, h1)"
    "new_keeper E Transfer (transferStoreKey N) (ibctransferModule N) (ModuleAddress E (govModule N)) h1 = (Inr a2, h2)"
    "new_keeper E ICAHost (icahostStoreKey N) (icahostSubModule N) (ModuleAddress E (govModule N)) h2 = (Inr a3, h3)"
    and last: "new_keeper E ICAController (icacontrollerStoreKey N) (icacontrollerSubModule N)
      (ModuleAddress E (govModule N)) h3 = (Inr a4, h')"
    and app': "app' = app\<lparr>IBCKeeper := Some a1, TransferKeeper := Some a2, ICAHostKeeper := Some a3,
      ICAControllerKeeper := Some a4\<rparr>"
    by (auto simp: build_keepers_def Let_def seqp_Inr)
  note e1 = k(1) [OF assms(1) this(1)]
  then have r1: "ready E N h1" using ready_append [OF assms(1)] by blast
  note e2 = k(2) [OF r1 \<open>new_keeper E Transfer _ _ _ h1 = _\<close>]
  then have r2: "ready E N h2" using ready_append [OF r1] by blast
  note e3 = k(3) [OF r2 \<open>new_keeper E ICAHost _ _ _ h2 = _\<close>]
  then have r3: "ready E N h3" using ready_append [OF r2] by blast
  note e4 = k(4) [OF r3 last]
  show "app' = wired E N" using e1 e2 e3 e4 unfolding app' by (simp add: wired_def)
  show "ready E N h'" using e4 ready_append [OF r3] by blast
qed

lemma sound_set_routes: "sound E N (set_routes E N (wired E N))"
  unfolding set_routes_def by (simp add: wired_def, intro sound_rules) simp_all

lemma sound_seqp_under:
  assumes "sound E N m" "\<And>x h h'. ready E N h \<Longrightarrow> m h = (Inr x, h') \<Longrightarrow> sound E N (k x)"
  shows "sound E N (seqp m k)"
  unfolding sound_def
proof (intro allI impI)
  fix h
  assume r: "ready E N h"
  have "seqp m k h = seqp m (\<lambda>x. if (\<exists>h'. m h = (Inr x, h')) then k x else ret undefined) h"
    by (auto simp: seqp_def split: prod.splits sum.splits)
  moreover have "sound E N (seqp m (\<lambda>x. if (\<exists>h'. m h = (Inr x, h')) then k x else ret undefined))"
    using assms(2) [OF r] by (intro sound_seqp assms(1)) (auto intro: sound_ret)
  ultimately show "fst (seqp m k h) \<noteq> Inl NilPointer
      \<and> (\<exists>t. snd (seqp m k h) = h @ t \<and> list_all (proper_call E N) t)"
    using r unfolding sound_def by simp
qed

lemma sound_after_tables:
  "sound E N (seqp (build_keepers E N app) (\<lambda>app. seqp (set_routes E N app) (\<lambda>_.
     seqp (perform (CallErr E) (RegisterModules ibc_modules)) (\<lambda>err. ret (app, err)))))"
  by (rule sound_seqp_under [OF sound_build_keepers], drule (1) build_keepers_Inr(1))
     (simp, intro sound_rules sound_set_routes, simp)

text \<open>The part before the keys are in place: it cannot read a nil pointer and builds no keeper.\<close>

lemma register_key_tables_not_nil: "fst (register_key_tables E N h) \<noteq> Inl NilPointer"
  by (simp add: register_key_tables_def seqp_def invoke_def perform_def check_def ret_def stop_def
      split: option.split)

lemma register_key_tables_calls: "calls (proper_call E N) (register_key_tables E N)"
  unfolding register_key_tables_def by (intro calls_rules) simp

text \<open>The whole registration builds proper keepers only and reads no nil pointer.\<close>

lemma registerIBCModules_sound:
  assumes "registry_law E"
  shows "fst (registerIBCModules E N app h) \<noteq> Inl NilPointer
    \<and> (\<exists>t. snd (registerIBCModules E N app h) = h @ t \<and> list_all (proper_call E N) t)
    \<and> (\<forall>app'. fst (registerIBCModules E N app h) = Inr (app', None) \<longrightarrow> app' = wired E N)"
    (is "fst ?run \<noteq> _ \<and> _")
proof -
  let ?keys = "RegisterStores (ibc_store_keys N)"
  let ?rest = "seqp (build_keepers E N app) (\<lambda>app. seqp (set_routes E N app) (\<lambda>_.
     seqp (perform (CallErr E) (RegisterModules ibc_modules)) (\<lambda>err. ret (app, err))))"
  show ?thesis
  proof (cases "CallErr E h ?keys")
    case (Some x)
    then show ?thesis by (simp add: registerIBCModules_def seqp_def perform_def ret_def)
  next
    case None
    obtain r h1 where k: "register_key_tables E N (h @ [?keys]) = (r, h1)"
      by (cases "register_key_tables E N (h @ [?keys])")
    with register_key_tables_calls obtain t1 where t1: "h1 = (h @ [?keys]) @ t1" "list_all (proper_call E N) t1"
      by (rule callsD)
    have run: "?run = (case r of Inl e \<Rightarrow> (Inl e, h1) | Inr u \<Rightarrow> ?rest h1)"
      using None k by (simp add: registerIBCModules_def seqp_def [of "perform _ _"] perform_def)
        (simp add: seqp_def)
    show ?thesis
    proof (cases r)
      case (Inl e)
      with k register_key_tables_not_nil [of E N "h @ [?keys]"] t1 run show ?thesis by simp
    next
      case (Inr u)
      with key_tables_ready [OF assms None] k have r1: "ready E N h1" by blast
      from sound_after_tables [of E N app] r1 obtain t2 where
        "fst (?rest h1) \<noteq> Inl NilPointer" "snd (?rest h1) = h1 @ t2" "list_all (proper_call E N) t2"
        unfolding sound_def by blast
      moreover have "app' = wired E N" if "fst (?rest h1) = Inr (app', None)" for app'
      proof -
        from that obtain h' where "?rest h1 = (Inr (app', None), h')" by (cases "?rest h1") simp
        then obtain h2 where "build_keepers E N app h1 = (Inr app', h2)" by (auto simp: seqp_Inr)
        with r1 show ?thesis by (rule build_keepers_Inr(1))
      qed
      ultimately show ?thesis using run Inr t1 by simp
    qed
  qed
qed

section \<open>Loading\<close>

lemma seqp_at: "m h = (Inr x, h1) \<Longrightarrow> seqp m k h = k x h1"
  by (simp add: seqp_def)

lemma invoke_ret: "seqp (invoke E c) (\<lambda>_. ret a) h
    = (case CallErr E h c of None \<Rightarrow> Inr a | Some x \<Rightarrow> Inl (WPanic x), h @ [c])"
  by (simp add: invoke_def seqp_def perform_def ret_def stop_def split: option.split)

lemma no_load:
  "calls (\<lambda>c. \<forall>b. c \<noteq> LoadApp b) (registerIBCModules E N app)"
  unfolding registerIBCModules_def register_key_tables_def build_keepers_def set_routes_def new_keeper_def Let_def
  by (intro calls_rules; simp)+

lemma registerIBCModules_last:
  assumes "registerIBCModules E N app h = (Inr (app', None), h')"
  obtains t where "h' = h @ RegisterStores (ibc_store_keys N) # t @ [RegisterModules ibc_modules]"
    "list_all (\<lambda>c. \<forall>b. c \<noteq> LoadApp b) t"
proof -
  let ?mid = "seqp (register_key_tables E N) (\<lambda>_. seqp (build_keepers E N app) (\<lambda>app.
      seqp (set_routes E N app) (\<lambda>_. ret app)))"
  from assms obtain h1 where mid: "?mid (h @ [RegisterStores (ibc_store_keys N)]) = (Inr app', h1)"
    and h': "h' = h1 @ [RegisterModules ibc_modules]"
    by (auto simp: registerIBCModules_def seqp_Inr split: option.splits)
  have "calls (\<lambda>c. \<forall>b. c \<noteq> LoadApp b) ?mid"
    unfolding register_key_tables_def build_keepers_def set_routes_def new_keeper_def Let_def
    by (intro calls_rules; simp)+
  then obtain t where "h1 = (h @ [RegisterStores (ibc_store_keys N)]) @ t" "list_all (\<lambda>c. \<forall>b. c \<noteq> LoadApp b) t"
    using mid by (rule callsD)
  with h' that show ?thesis by simp
qed

text \<open>The part of \<open>New\<close> before the load\<close>

definition before_load :: "('b, 'x) builder \<Rightarrow> ibc_names \<Rightarrow> 'b list \<Rightarrow> ('b, 'x, ibc_app) wiring" where
  "before_load E N opts =
     seqp (invoke E Inject) (\<lambda>_. seqp (invoke E (Build (opts @ [SetOptimisticExecution E]))) (\<lambda>_.
     seqp (registerIBCModules E N no_ibc) (\<lambda>(app, err). seqp (check WPanic err) (\<lambda>_.
     seqp (invoke E (NewSimulationManager [authModule N])) (\<lambda>_. seqp (invoke E RegisterStoreDecoders) (\<lambda>_.
     seqp (invoke E SetInitChainer) (\<lambda>_. ret app)))))))"

lemma New_split:
  "New E N b opts h = seqp (before_load E N opts) (\<lambda>app. seqp (invoke E (LoadApp b)) (\<lambda>_. ret app)) h"
  by (auto simp: New_def before_load_def Let_def seqp_def split: prod.splits sum.splits)

lemma before_load_calls: "calls (\<lambda>c. \<forall>b. c \<noteq> LoadApp b) (before_load E N opts)"
  unfolding before_load_def by (intro calls_rules no_load; simp)+

lemma before_load_Inr:
  assumes "before_load E N opts h = (Inr app, h')"
  obtains t where "h' = h @ [Inject, Build (opts @ [SetOptimisticExecution E]), RegisterStores (ibc_store_keys N)]
      @ t @ [RegisterModules ibc_modules, NewSimulationManager [authModule N], RegisterStoreDecoders, SetInitChainer]"
    "list_all (\<lambda>c. \<forall>b. c \<noteq> LoadApp b) t"
proof -
  from assms obtain h2 where i: "registerIBCModules E N no_ibc (h @ [Inject, Build (opts @ [SetOptimisticExecution E])])
      = (Inr (app, None), h2)"
    and h': "h' = h2 @ [NewSimulationManager [authModule N], RegisterStoreDecoders, SetInitChainer]"
    by (auto simp: before_load_def seqp_Inr)
  obtain u where "h2 = (h @ [Inject, Build (opts @ [SetOptimisticExecution E])])
        @ RegisterStores (ibc_store_keys N) # u @ [RegisterModules ibc_modules]"
      "list_all (\<lambda>c. \<forall>b. c \<noteq> LoadApp b) u"
    using registerIBCModules_last [OF i] .
  with h' that [of u] show ?thesis by simp
qed

lemma New_ends:
  assumes "New E N b opts h = (Inr app, h')"
  obtains t where "h' = h @ t @ [LoadApp b]"
proof -
  from assms obtain h1 where p: "before_load E N opts h = (Inr app, h1)" and h': "h' = h1 @ [LoadApp b]"
    by (auto simp: New_split seqp_Inr)
  obtain t where "h1 = h @ t" using before_load_calls p by (rule callsD)
  with h' that show ?thesis by simp
qed

section \<open>The export command\<close>

lemma export_value:
  assumes "fst (ExportAppStateAndValidators C X zero J M h) = Inr (e, err)"
  shows "(e = ExportedApp_zero \<and> err \<noteq> None)
    \<or> Height e = (if zero then 0 else goint (LastBlockHeight X + 1)) \<and> AppState e \<noteq> None"
  using assms
  by (auto simp: ExportAppStateAndValidators_def Let_def seqp_def ask_def ret_def
      split: prod.splits sum.splits if_splits)

section \<open>A sample builder\<close>

definition sample_builder :: "(nat, string) builder" where
  "sample_builder = \<lparr>CallErr = (\<lambda>h c. None),
     UnsafeFindStoreKey = (\<lambda>h k. if list_ex (\<lambda>c. case c of RegisterStores ks \<Rightarrow> k \<in> set ks | _ \<Rightarrow> False) h
       then Some (KVStoreKey k) else None),
     FindSubspace = (\<lambda>h s. if SubspaceWithKeyTable s \<in> set h then Some s else None),
     ModuleAddress = (\<lambda>m. ''tat1'' @ m), IsAppModuleBasic = (\<lambda>m. True), SetOptimisticExecution = 7, RangeOrder = rev\<rparr>"

definition sample_ibc_names :: ibc_names where
  "sample_ibc_names = names.extend sample_names
     \<lparr>ibcStoreKey = ''ibc'', transferStoreKey = ''transfer'', icahostStoreKey = ''icahost'',
      icacontrollerStoreKey = ''icacontroller'', icahostSubModule = ''icahost'',
      icacontrollerSubModule = ''icacontroller'', transferPortID = ''transfer'',
      tmModule = ''07-tendermint'', solomachineModule = ''06-solomachine''\<rparr>"

lemma sample_registry_law: "registry_law sample_builder"
  by (simp add: registry_law_def sample_builder_def)

section \<open>Properties\<close>

text \<open>
  C14. No IBC keeper is built over a nil store key, a zero subspace or another keeper's store: given that the
  runtime finds the stores and subspaces that were registered, every keeper the code builds gets the
  key and the subspace of its own module and the governance authority, no nil pointer is read, and
  when registration succeeds all four keepers are in place.
\<close>

theorem ibc_keepers_wired:
  assumes "registry_law E"
  shows "fst (registerIBCModules E N app h) \<noteq> Inl NilPointer
    \<and> (\<exists>t. snd (registerIBCModules E N app h) = h @ t
        \<and> list_all (\<lambda>c. case c of NewIBCModuleKeeper kind args \<Rightarrow>
              args = \<lparr>StoreKeyOf = Some (key_of N kind), SubspaceOf = Some (subspace_of N kind),
                AuthorityOf = ModuleAddress E (govModule N)\<rparr>
            | _ \<Rightarrow> True) t)
    \<and> (\<forall>app'. fst (registerIBCModules E N app h) = Inr (app', None)
        \<longrightarrow> IBCKeeper app' \<noteq> None \<and> TransferKeeper app' \<noteq> None
          \<and> ICAHostKeeper app' \<noteq> None \<and> ICAControllerKeeper app' \<noteq> None)"
proof -
  let ?run = "registerIBCModules E N app h"
  note all = registerIBCModules_sound [OF assms, of N app h]
  from all obtain t where t: "snd ?run = h @ t" "list_all (proper_call E N) t" by blast
  from t(2) have "list_all (\<lambda>c. case c of NewIBCModuleKeeper kind args \<Rightarrow>
              args = \<lparr>StoreKeyOf = Some (key_of N kind), SubspaceOf = Some (subspace_of N kind),
                AuthorityOf = ModuleAddress E (govModule N)\<rparr>
            | _ \<Rightarrow> True) t"
    by (rule list.pred_mono_strong) (auto simp: proper_args_def split: wcall.split)
  moreover have "IBCKeeper app' \<noteq> None \<and> TransferKeeper app' \<noteq> None
      \<and> ICAHostKeeper app' \<noteq> None \<and> ICAControllerKeeper app' \<noteq> None" if "fst ?run = Inr (app', None)" for app'
  proof -
    from all that have "app' = wired E N" by blast
    then show ?thesis by (simp add: wired_def)
  qed
  ultimately show ?thesis using all t(1) by (intro conjI allI impI exI [of _ t]) (assumption | simp)+
qed

theorem ibc_keepers_wired_witness:
  "fst (registerIBCModules sample_builder sample_ibc_names no_ibc []) \<noteq> Inl NilPointer"
  by (rule ibc_keepers_wired [OF sample_registry_law, THEN conjunct1])

text \<open>
  C25. The application is loaded last: whenever \<^verbatim>\<open>New\<close> returns, it has built the base application with the given options
  and optimistic execution, registered the IBC stores and then the IBC modules, and only after the init
  chainer was set has it loaded the store, once, at the version it was told to; and a run that panics has
  not got past a load.
\<close>

theorem New_loads_last:
  "case New E N loadLatest opts h of
     (Inr app, h') \<Rightarrow> \<exists>t. h' = h @ [Inject, Build (opts @ [SetOptimisticExecution E]), RegisterStores (ibc_store_keys N)]
        @ t @ [RegisterModules ibc_modules, NewSimulationManager [authModule N], RegisterStoreDecoders,
           SetInitChainer, LoadApp loadLatest]
        \<and> list_all (\<lambda>c. \<forall>b. c \<noteq> LoadApp b) t
   | (Inl e, h') \<Rightarrow> \<exists>t. h' = h @ t \<and> list_all (\<lambda>c. \<forall>b. c \<noteq> LoadApp b) (butlast t)"
proof -
  obtain r h1 where p: "before_load E N opts h = (r, h1)" by (cases "before_load E N opts h")
  with before_load_calls obtain t where t: "h1 = h @ t" "list_all (\<lambda>c. \<forall>b. c \<noteq> LoadApp b) t"
    by (rule callsD)
  show ?thesis
  proof (cases r)
    case (Inl e)
    have "list_all (\<lambda>c. \<forall>b. c \<noteq> LoadApp b) (butlast t)"
      using t(2) by (auto simp: list_all_iff dest: in_set_butlastD)
    with Inl p t show ?thesis by (simp add: New_split seqp_def)
  next
    case (Inr app)
    obtain u where "h1 = h @ [Inject, Build (opts @ [SetOptimisticExecution E]), RegisterStores (ibc_store_keys N)]
        @ u @ [RegisterModules ibc_modules, NewSimulationManager [authModule N], RegisterStoreDecoders, SetInitChainer]"
      "list_all (\<lambda>c. \<forall>b. c \<noteq> LoadApp b) u"
      using before_load_Inr [OF p [unfolded Inr]] .
    then have full: "h1 @ [LoadApp loadLatest] = h @ [Inject, Build (opts @ [SetOptimisticExecution E]),
        RegisterStores (ibc_store_keys N)] @ u @ [RegisterModules ibc_modules, NewSimulationManager [authModule N],
        RegisterStoreDecoders, SetInitChainer, LoadApp loadLatest] \<and> list_all (\<lambda>c. \<forall>b. c \<noteq> LoadApp b) u"
      by simp
    have new: "New E N loadLatest opts h = (case CallErr E h1 (LoadApp loadLatest) of
        None \<Rightarrow> Inr app | Some x \<Rightarrow> Inl (WPanic x), h1 @ [LoadApp loadLatest])"
      unfolding New_split seqp_at [where m = "before_load E N opts" and h = h, OF p [unfolded Inr]]
      by (rule invoke_ret)
    show ?thesis
    proof (cases "CallErr E h1 (LoadApp loadLatest)")
      case None
      then show ?thesis unfolding new by (simp only: option.case prod.case sum.case) (rule exI [of _ u], rule full)
    next
      case (Some x)
      then show ?thesis unfolding new using t
        by (simp only: option.case prod.case sum.case) (rule exI [of _ "t @ [LoadApp loadLatest]"], simp)
    qed
  qed
qed

text \<open>
  C24. The export command: without a home directory, or with options of the wrong type, it refuses with an
  error and touches nothing. Otherwise the application is loaded at the height that was asked for, or at
  the latest one for -1. If the load at a height fails, the result is empty beside this error. Else the export carries
  the height after the last one of the loaded application, as an \<^verbatim>\<open>int64\<close> (0 for a zero-height genesis), or is
  empty beside an error; after a positive height was loaded, the last one is this height.
\<close>

theorem appExport_height:
  assumes "appExport E N C X height zero J home isViper M h = (Inr (e, err), h')"
    and "\<And>g. 1 \<le> height \<Longrightarrow> CallErr E g (LoadHeight height) = None \<Longrightarrow> LastBlockHeight (X (g @ [LoadHeight height])) = height"
  shows "if isViper \<and> (case home of StringValue p \<Rightarrow> p \<noteq> '''' | _ \<Rightarrow> False)
    then (\<exists>t. h' = h @ t @ (if height = -1 then [LoadApp True] else [LoadApp False, LoadHeight height]))
      \<and> (e = ExportedApp_zero \<and> err \<noteq> None
         \<or> Height e = (if zero then 0 else goint ((if 1 \<le> height then height else LastBlockHeight (X h')) + 1))
           \<and> AppState e \<noteq> None)
      \<and> (\<forall>g x. h' = g @ [LoadHeight height] \<longrightarrow> CallErr E g (LoadHeight height) = Some x
           \<longrightarrow> e = ExportedApp_zero \<and> err = Some (Inr x))
    else e = ExportedApp_zero \<and> err \<noteq> None \<and> h' = h"
proof (cases "isViper \<and> (case home of StringValue p \<Rightarrow> p \<noteq> '''' | _ \<Rightarrow> False)")
  case False
  then show ?thesis using assms(1)
    by (auto simp: appExport_def split: option_value.splits if_splits)
next
  case True
  then obtain p where home: "home = StringValue p" "p \<noteq> ''''" and v: "isViper"
    by (auto split: option_value.splits)
  let ?load = "if height = -1 then [LoadApp True] else [LoadApp False, LoadHeight height]"
  from assms(1) home v obtain lerr where
    load: "loaded_app E N height h = (Inr lerr, h')"
    and res: "case lerr of Some x \<Rightarrow> e = ExportedApp_zero \<and> err = Some (Inr x)
      | None \<Rightarrow> \<exists>xerr. fst (ExportAppStateAndValidators (C h') (X h') zero J M []) = Inr (e, xerr)
          \<and> err = map_option Inr xerr"
    by (auto simp: appExport_def seqp_Inr split: option.splits)
  from load obtain app h1 where new: "New E N (height = -1) [] h = (Inr app, h1)"
    and h1: "h' = (if height = -1 then h1 else h1 @ [LoadHeight height])"
    and l: "lerr = (if height = -1 then None else CallErr E h1 (LoadHeight height))"
    by (auto simp: loaded_app_def seqp_Inr split: if_splits)
  obtain t where t1: "h1 = h @ t @ [LoadApp (height = -1)]"
    by (rule New_ends [OF new])
  with h1 have t: "h' = h @ t @ ?load" by simp
  have last: "LastBlockHeight (X h') = height" if "1 \<le> height" "lerr = None"
    using assms(2) [of h1] h1 l that by simp
  have "e = ExportedApp_zero \<and> err \<noteq> None
      \<or> Height e = (if zero then 0 else goint ((if 1 \<le> height then height else LastBlockHeight (X h')) + 1))
        \<and> AppState e \<noteq> None"
  proof (cases lerr)
    case None
    with res obtain xerr where x: "fst (ExportAppStateAndValidators (C h') (X h') zero J M []) = Inr (e, xerr)"
      "err = map_option Inr xerr" by auto
    from export_value [OF x(1)] x(2) last [OF _ None] show ?thesis by auto
  qed (use res in simp)
  moreover have "e = ExportedApp_zero \<and> err = Some (Inr x)"
    if "h' = g @ [LoadHeight height]" "CallErr E g (LoadHeight height) = Some x" for g x
  proof -
    have "height \<noteq> -1" using that(1) h1 t1 by auto
    then have "lerr = Some x" using that h1 l by simp
    with res show ?thesis by simp
  qed
  ultimately show ?thesis unfolding if_P [OF True] using t by (intro conjI exI [of _ t] allI impI) blast+
qed

definition sample_wired_exporter ::
  "nat wcall list \<Rightarrow> ('c, 'o, string, nat, nat, nat, nat) exporter" where
  "sample_wired_exporter h = \<lparr>LastBlockHeight = (case last h of LoadHeight n \<Rightarrow> n | _ \<Rightarrow> 100),
     ExportGenesisForModules = (\<lambda>M g. Inr 1), MarshalIndent = (\<lambda>g. Inr 2),
     WriteValidators = (\<lambda>g. ([3], None)), GetConsensusParams = (\<lambda>g. 4)\<rparr>"

lemma sample_CallErr: "CallErr sample_builder h c = None"
  by (simp add: sample_builder_def)

lemma sample_keepers:
  "new_keeper sample_builder kind k s a h =
    (Inr \<lparr>StoreKeyOf = GetKey sample_builder k h, SubspaceOf = GetSubspace sample_builder s h, AuthorityOf = a\<rparr>,
     h @ [NewIBCModuleKeeper kind \<lparr>StoreKeyOf = GetKey sample_builder k h,
       SubspaceOf = GetSubspace sample_builder s h, AuthorityOf = a\<rparr>])"
  by (simp add: new_keeper_def seqp_def ask_def invoke_def perform_def Let_def ret_def check_def sample_CallErr)

lemma sample_invoke: "invoke sample_builder c h = (Inr (), h @ [c])"
  by (simp add: invoke_def seqp_def perform_def check_def sample_CallErr ret_def)

lemma sample_new: "fst (New sample_builder N b opts h) \<noteq> Inl e"
  by (simp add: New_def Let_def registerIBCModules_def register_key_tables_def build_keepers_def set_routes_def
      seqp_def sample_invoke sample_keepers perform_def ret_def deref_def check_def sample_CallErr)

theorem appExport_height_witness:
  "\<exists>e err h'. appExport sample_builder sample_ibc_names (\<lambda>h. sample_chain None) sample_wired_exporter
      42 False [] (StringValue ''/h'' :: (nat, nat) option_value) True [] [] = (Inr (e, err), h')
    \<and> (e = ExportedApp_zero \<and> err \<noteq> None \<or> Height e = 43 \<and> AppState e \<noteq> None)"
proof -
  let ?run = "appExport sample_builder sample_ibc_names (\<lambda>h. sample_chain None) sample_wired_exporter
      42 False [] (StringValue ''/h'' :: (nat, nat) option_value) True [] []"
  obtain app h1 where new: "New sample_builder sample_ibc_names False [] [] = (Inr app, h1)"
    using sample_new [of sample_ibc_names False "[]" "[]"]
    by (cases "New sample_builder sample_ibc_names False [] []", cases "fst (New sample_builder sample_ibc_names False [] [])") auto
  have "\<exists>e err h'. ?run = (Inr (e, err), h')"
    using new
    by (simp add: appExport_def loaded_app_def seqp_def perform_def sample_CallErr ask_def ret_def ExportAppStateAndValidators_def Let_def sample_wired_exporter_def)
  then obtain e err h' where run: "?run = (Inr (e, err), h')" by blast
  have "LastBlockHeight (sample_wired_exporter (g @ [LoadHeight 42])) = 42" for g
    by (simp add: sample_wired_exporter_def)
  from appExport_height [OF run this] run show ?thesis by auto
qed

end
