(* ===== verification/Commands.thy ===== *)
theory Commands
  imports WiringProperties "HOL-Library.Multiset"
begin

text \<open>
  The command line of the daemon: the root command and its client context
  (cmd/tatcoind/cmd/root.go), the command tree (cmd/tatcoind/cmd/commands.go) and the default
  configuration files (cmd/tatcoind/cmd/config.go). A command that another package makes is
  represented by the name of the function that makes it.
\<close>

section \<open>The command tree (commands.go)\<close>

record command =
  Use :: string
  Aliases :: "string list"
  Short :: string
  RunE :: string                    \<comment> \<open>the function that runs it, empty for a command with subcommands only\<close>
  SilenceErrors :: bool
  DisableFlagParsing :: bool
  SuggestionsMinimumDistance :: nat
  Subcommands :: "string list"

definition queryCommand :: command where
  "queryCommand =
     \<lparr>Use = ''query'', Aliases = [''q''], Short = ''Querying subcommands'',
      RunE = ''client.ValidateCmd'', SilenceErrors = False, DisableFlagParsing = False,
      SuggestionsMinimumDistance = 2,
      Subcommands = [''rpc.WaitTxCmd'', ''rpc.ValidatorCommand'', ''server.QueryBlockCmd'',
        ''authcmd.QueryTxsByEventsCmd'', ''server.QueryBlocksCmd'', ''authcmd.QueryTxCmd'',
        ''server.QueryBlockResultsCmd'']\<rparr>"

definition txCommand :: command where
  "txCommand =
     \<lparr>Use = ''tx'', Aliases = [], Short = ''Transactions subcommands'',
      RunE = ''client.ValidateCmd'', SilenceErrors = False, DisableFlagParsing = False,
      SuggestionsMinimumDistance = 2,
      Subcommands = [''authcmd.GetSignCommand'', ''authcmd.GetSignBatchCommand'', ''authcmd.GetMultiSignCommand'',
        ''authcmd.GetMultiSignBatchCmd'', ''authcmd.GetValidateSignaturesCommand'', ''flags.LineBreak'',
        ''authcmd.GetBroadcastCommand'', ''authcmd.GetEncodeCommand'', ''authcmd.GetDecodeCommand'',
        ''authcmd.GetSimulateCmd'']\<rparr>"

text \<open>The root command before its subcommands are added; \<^verbatim>\<open>addModuleInitFlags\<close> leaves the start command as it is.\<close>

definition rootCmd :: command where
  "rootCmd =
     \<lparr>Use = AppName @ ''d'', Aliases = [], Short = ''tatcore node'', RunE = '''', SilenceErrors = True,
      DisableFlagParsing = False, SuggestionsMinimumDistance = 0, Subcommands = []\<rparr>"

definition addModuleInitFlags :: "'c \<Rightarrow> 'c" where
  "addModuleInitFlags startCmd = startCmd"

definition initRootCmd :: "('b, 'x) builder \<Rightarrow> ('b, 'x, unit) wiring" where
  "initRootCmd E =
     seqp (invoke E (AddCommands (Use rootCmd)
       [''genutilcli.InitCmd'', ''NewInPlaceTestnetCmd'', ''NewTestnetMultiNodeCmd'', ''debug.Cmd'',
        ''confixcmd.ConfigCommand'', ''pruning.Cmd'', ''snapshot.Cmd''])) (\<lambda>_.
     seqp (invoke E AddCommandsWithStartCmdOptions) (\<lambda>_.
     seqp (invoke E (AddCommands (Use queryCommand) (Subcommands queryCommand))) (\<lambda>_.
     seqp (invoke E (AddCommands (Use txCommand) (Subcommands txCommand))) (\<lambda>_.
       invoke E (AddCommands (Use rootCmd)
         [''server.StatusCommand'', ''genutilcli.Commands'', ''queryCommand'', ''txCommand'', ''keys.Commands''])))))"

section \<open>Configuration files (config.go)\<close>

text \<open>The defaults of CometBFT and of the SDK, unchanged\<close>

definition initCometBFTConfig :: "'o \<Rightarrow> 'o" where
  "initCometBFTConfig DefaultConfig = DefaultConfig"

definition initAppConfig :: "string \<Rightarrow> 'o \<Rightarrow> string \<times> 'o" where
  "initAppConfig DefaultConfigTemplate DefaultConfig =
     (let srvCfg = DefaultConfig; customAppConfig = srvCfg; customAppTemplate = DefaultConfigTemplate
      in (customAppTemplate, customAppConfig))"

section \<open>The root command (root.go)\<close>

text \<open>\<^verbatim>\<open>if err != nil { return err }\<close> in a function that returns only an error\<close>

fun first_error :: "('b, 'x) builder \<Rightarrow> 'b wcall list \<Rightarrow> ('b, 'x, 'x option) wiring" where
  "first_error E [] = ret None"
| "first_error E (c # cs) =
     seqp (perform (CallErr E) c) (\<lambda>err. case err of Some e \<Rightarrow> ret (Some e) | None \<Rightarrow> first_error E cs)"

definition PersistentPreRunE :: "('b, 'x) builder \<Rightarrow> ('b, 'x, 'x option) wiring" where
  "PersistentPreRunE E =
     seqp (invoke E SetOut) (\<lambda>_.
     seqp (invoke E SetErr) (\<lambda>_.
       first_error E [ReadPersistentCommandFlags, ReadFromClientConfig, SetCmdClientContextHandler,
         InterceptConfigsPreRunHandler]))"

text \<open>An entry of the module basics: what was there, or the adaptor of an IBC module\<close>

datatype 'm basic =
    Configured 'm
  | CoreAppModuleBasicAdaptor string ibc_module

definition add_ibc_modules ::
  "(string \<times> ibc_module) list \<Rightarrow> (string \<Rightarrow> 'm basic option) \<times> (string \<Rightarrow> ('m + ibc_module) option)
    \<Rightarrow> (string \<Rightarrow> 'm basic option) \<times> (string \<Rightarrow> ('m + ibc_module) option)" where
  "add_ibc_modules modules maps =
     fold (\<lambda>(name, m) (moduleBasicManager, autoCliModules).
       (moduleBasicManager(name \<mapsto> CoreAppModuleBasicAdaptor name m), autoCliModules(name \<mapsto> Inr m))) modules maps"

text \<open>The maps that the dependency injection fills, with the IBC modules added\<close>

definition NewRootCmd ::
  "('b, 'x) builder \<Rightarrow> ibc_names \<Rightarrow> (string \<Rightarrow> 'm basic option) \<Rightarrow> (string \<Rightarrow> ('m + ibc_module) option)
    \<Rightarrow> ('b, 'x, (string \<Rightarrow> 'm basic option) \<times> (string \<Rightarrow> ('m + ibc_module) option)) wiring" where
  "NewRootCmd E N moduleBasicManager autoCliModules =
     seqp (invoke E InjectRoot) (\<lambda>_.
     seqp (RegisterIBC E N) (\<lambda>ibcModules.
     let maps = add_ibc_modules (RangeOrder E ibcModules) (moduleBasicManager, autoCliModules) in
     seqp (initRootCmd E) (\<lambda>_.
     seqp (invoke E EnhanceRootCommand) (\<lambda>_.
       ret maps))))"

text \<open>The client context, with the fields that the code sets\<close>

record 'o client_context =
  Codec :: "'o option"
  InterfaceRegistry :: "'o option"
  LegacyAmino :: "'o option"
  Input :: string
  AccountRetriever :: string
  HomeDir :: string
  Viper :: string
  ClientTxConfig :: "'o option"

definition ProvideClientContext ::
  "('o client_context \<Rightarrow> 'o client_context \<times> 'x option) \<Rightarrow> ('o option \<Rightarrow> 'o client_context \<Rightarrow> 'x + 'o) \<Rightarrow> string
    \<Rightarrow> 'o \<Rightarrow> 'o \<Rightarrow> 'o \<Rightarrow> 'x + 'o client_context" where
  "ProvideClientContext readConfig newTxConfig DefaultNodeHome appCodec interfaceRegistry legacyAmino =
     (let clientCtx = \<lparr>Codec = Some appCodec, InterfaceRegistry = Some interfaceRegistry,
            LegacyAmino = Some legacyAmino, Input = ''os.Stdin'',
            AccountRetriever = ''types.AccountRetriever'', HomeDir = DefaultNodeHome, Viper = AppName, ClientTxConfig = None\<rparr>;
          (clientCtx, _) = readConfig clientCtx
      in bindE (newTxConfig (Codec clientCtx) clientCtx) (\<lambda>txConfig.
           Inr (clientCtx\<lparr>ClientTxConfig := Some txConfig\<rparr>)))"

section \<open>Lemmas\<close>

lemma add_ibc_modules_eq:
  assumes "distinct (map fst modules)"
  shows "add_ibc_modules modules (b, a) =
    (\<lambda>name. case map_of modules name of Some m \<Rightarrow> Some (CoreAppModuleBasicAdaptor name m) | None \<Rightarrow> b name,
     \<lambda>name. case map_of modules name of Some m \<Rightarrow> Some (Inr m) | None \<Rightarrow> a name)"
  using assms
proof (induction modules arbitrary: b a)
  case (Cons p modules)
  obtain n m where p: "p = (n, m)" by (cases p)
  have "map_of modules n = None" using Cons.prems by (simp add: p map_of_eq_None_iff)
  with Cons show ?case
    by (auto simp: p add_ibc_modules_def fun_eq_iff split: option.split)
qed (simp add: add_ibc_modules_def)

lemma first_error_None:
  "first_error E cs h = (Inr None, h') \<Longrightarrow> h' = h @ cs"
  by (induction cs arbitrary: h) (fastforce simp: seqp_Inr split: option.splits)+

definition all_ibc_names :: "ibc_names \<Rightarrow> string list" where
  "all_ibc_names N = all_names (names.truncate N) @ [tmModule N, solomachineModule N]"

lemma RegisterIBC_names:
  assumes "distinct (all_ibc_names N)"
  shows "distinct (map fst (RegisterIBC_modules N))"
    and "set (map fst (RegisterIBC_modules N)) \<inter> set (Modules (names.truncate N)) = {}"
  using assms
  by (simp_all add: all_ibc_names_def all_names_def RegisterIBC_modules_def Modules_def appConfig_def runtime_config_def module_configs_def
      names.truncate_def eq_commute)

lemma map_of_reordered:
  assumes "mset xs = mset ys" "distinct (map fst ys)"
  shows "distinct (map fst xs)" "map_of xs = map_of ys"
proof -
  from assms(1) have "mset (map fst xs) = mset (map fst ys)" by simp
  with assms(2) show d: "distinct (map fst xs)" by (metis distinct_count_atmost_1 set_mset_mset)
  from assms(1) have "set xs = set ys" by (rule mset_eq_setD)
  with d assms(2) show "map_of xs = map_of ys" by (intro map_of_inject_set [THEN iffD2])
qed

section \<open>Properties\<close>

text \<open>
  C33. The command line knows the modules the node runs: whatever order the loops visit the map in, after
  \<^verbatim>\<open>NewRootCmd\<close> the module basics and the automatic commands contain exactly the five IBC modules that
  the application registers by hand, under their names, and everything else as configured; none of these names
  belongs to a configured module, so none is replaced.
\<close>

theorem client_modules:
  assumes "distinct (all_ibc_names N)" "\<And>xs. mset (RangeOrder E xs) = mset xs"
    and "NewRootCmd E N basics auto h = (Inr (basics', auto'), h')"
  shows "basics' = (\<lambda>name. case map_of (RegisterIBC_modules N) name of
        Some m \<Rightarrow> Some (CoreAppModuleBasicAdaptor name m) | None \<Rightarrow> basics name)
    \<and> auto' = (\<lambda>name. case map_of (RegisterIBC_modules N) name of Some m \<Rightarrow> Some (Inr m) | None \<Rightarrow> auto name)
    \<and> map snd (RegisterIBC_modules N) = ibc_modules
    \<and> set (map fst (RegisterIBC_modules N)) \<inter> set (Modules (names.truncate N)) = {}"
proof -
  note names = RegisterIBC_names [OF assms(1)]
  note order = map_of_reordered [OF assms(2) names(1)]
  from assms(3) have "(basics', auto') = add_ibc_modules (RangeOrder E (RegisterIBC_modules N)) (basics, auto)"
    by (auto simp: NewRootCmd_def Let_def seqp_Inr RegisterIBC_def)
  then have "(basics', auto') = (\<lambda>name. case map_of (RegisterIBC_modules N) name of
        Some m \<Rightarrow> Some (CoreAppModuleBasicAdaptor name m) | None \<Rightarrow> basics name,
      \<lambda>name. case map_of (RegisterIBC_modules N) name of Some m \<Rightarrow> Some (Inr m) | None \<Rightarrow> auto name)"
    unfolding add_ibc_modules_eq [OF order(1)] order(2) .
  moreover have "map snd (RegisterIBC_modules N) = ibc_modules"
    by (simp add: RegisterIBC_modules_def ibc_modules_def)
  ultimately show ?thesis using names(2) by simp
qed

lemma sample_root: "fst (NewRootCmd sample_builder N basics auto h)
    = Inr (add_ibc_modules (rev (RegisterIBC_modules N)) (basics, auto))"
  by (simp add: NewRootCmd_def Let_def RegisterIBC_def RegisterIBC_modules_def initRootCmd_def seqp_def
      sample_invoke ret_def sample_builder_def [THEN arg_cong [of _ _ RangeOrder]]
      sample_builder_def [THEN arg_cong [of _ _ IsAppModuleBasic]])

theorem client_modules_witness:
  "\<exists>basics' auto'. fst (NewRootCmd sample_builder sample_ibc_names [''auth'' \<mapsto> Configured (1 :: nat)] Map.empty [])
      = Inr (basics', auto')
    \<and> basics' ''transfer'' = Some (CoreAppModuleBasicAdaptor ''transfer'' TransferModule)
    \<and> basics' ''auth'' = Some (Configured 1)"
proof -
  let ?run = "NewRootCmd sample_builder sample_ibc_names [''auth'' \<mapsto> Configured (1 :: nat)] Map.empty []"
  obtain basics' auto' h' where run: "?run = (Inr (basics', auto'), h')"
    using sample_root by (metis prod.collapse)
  have "distinct (all_ibc_names sample_ibc_names)"
    by (simp add: all_ibc_names_def all_names_def sample_ibc_names_def sample_names_def names.truncate_def
        names.extend_def ModuleName_def)
  moreover have "mset (RangeOrder sample_builder xs) = mset xs" for xs
    by (simp add: sample_builder_def)
  ultimately have "basics' = (\<lambda>name. case map_of (RegisterIBC_modules sample_ibc_names) name of
        Some m \<Rightarrow> Some (CoreAppModuleBasicAdaptor name m) | None \<Rightarrow> [''auth'' \<mapsto> Configured (1 :: nat)] name)"
    using client_modules [OF _ _ run] by blast
  then show ?thesis using run
    by (simp add: RegisterIBC_modules_def sample_ibc_names_def sample_names_def names.extend_def)
qed

end
