(* ===== verification/Daemon.thy ===== *)
theory Daemon
  imports Commands
begin

text \<open>
  The whole daemon around the parts modelled so far: the App structure of app/app.go with all its fields
  and getters, \<^verbatim>\<open>New\<close> as the function that fills them, the page of docs/docs.go, and \<^verbatim>\<open>main\<close>
  (cmd/tatcoind/main.go), from the initialisation of the packages to the exit status.
\<close>

section \<open>The App structure (app.go)\<close>

text \<open>The fields beside the IBC keepers; \<open>None\<close> is the zero value before anything is assigned.\<close>

record 'v App = ibc_app +
  runtime_App :: "'v option"
  legacyAmino :: "'v option"
  appCodec :: "'v option"
  txConfig :: "'v option"
  interfaceRegistry :: "'v option"
  AuthKeeper :: "'v option"
  BankKeeper :: "'v option"
  StakingKeeper :: "'v option"
  SlashingKeeper :: "'v option"
  MintKeeper :: "'v option"
  DistrKeeper :: "'v option"
  GovKeeper :: "'v option"
  UpgradeKeeper :: "'v option"
  AuthzKeeper :: "'v option"
  ConsensusParamsKeeper :: "'v option"
  CircuitBreakerKeeper :: "'v option"
  ParamsKeeper :: "'v option"
  sm :: "'v option"
  TatcoreKeeper :: "'v option"

definition App_zero :: "'v App" where
  "App_zero = ibc_app.extend no_ibc
     (App.fields None None None None None None None None None None None None None None None None None None None)"

definition App_LegacyAmino :: "'v App \<Rightarrow> 'v option" where
  "App_LegacyAmino app = legacyAmino app"

definition App_AppCodec :: "'v App \<Rightarrow> 'v option" where
  "App_AppCodec app = appCodec app"

definition App_InterfaceRegistry :: "'v App \<Rightarrow> 'v option" where
  "App_InterfaceRegistry app = interfaceRegistry app"

definition App_TxConfig :: "'v App \<Rightarrow> 'v option" where
  "App_TxConfig app = txConfig app"

definition App_SimulationManager :: "'v App \<Rightarrow> 'v option" where
  "App_SimulationManager app = sm app"

text \<open>
  The configuration of the container: the modules, and the values supplied beside them, each with the keys
  it has if it is a map
\<close>

datatype di_config =
    Compose "(string \<times> module_config) list"
  | Supply "(string \<times> string list) list"
  | Configs "di_config list"

definition App_Config :: "names \<Rightarrow> di_config" where
  "App_Config N = Configs [Compose (appConfig N), Supply [(''map[string]module.AppModuleBasic'', [genutilModule N])]]"

definition New_config :: "names \<Rightarrow> di_config" where
  "New_config N = Configs [App_Config N, Supply [(''appOpts'', []), (''logger'', []), (''app.GetIBCKeeper'', [])]]"

text \<open>
  \<^verbatim>\<open>depinject.Inject\<close>: for each target the container provides a value of its type, or ends with an error, for instance
  when no module provides this type. The first two targets are variables of \<^verbatim>\<open>New\<close>.
\<close>

definition inject :: "(string \<Rightarrow> 'x + 'v) \<Rightarrow> 'v App \<Rightarrow> 'x + ('v \<times> 'v \<times> 'v App)" where
  "inject provide app =
     bindE (provide ''*runtime.AppBuilder'') (\<lambda>appBuilder.
     bindE (provide ''map[string]appmodule.AppModule'') (\<lambda>appModules.
     bindE (provide ''codec.Codec'') (\<lambda>v. let app = app\<lparr>appCodec := Some v\<rparr> in
     bindE (provide ''*codec.LegacyAmino'') (\<lambda>v. let app = app\<lparr>legacyAmino := Some v\<rparr> in
     bindE (provide ''client.TxConfig'') (\<lambda>v. let app = app\<lparr>txConfig := Some v\<rparr> in
     bindE (provide ''codectypes.InterfaceRegistry'') (\<lambda>v. let app = app\<lparr>interfaceRegistry := Some v\<rparr> in
     bindE (provide ''authkeeper.AccountKeeper'') (\<lambda>v. let app = app\<lparr>AuthKeeper := Some v\<rparr> in
     bindE (provide ''bankkeeper.Keeper'') (\<lambda>v. let app = app\<lparr>BankKeeper := Some v\<rparr> in
     bindE (provide ''*stakingkeeper.Keeper'') (\<lambda>v. let app = app\<lparr>StakingKeeper := Some v\<rparr> in
     bindE (provide ''slashingkeeper.Keeper'') (\<lambda>v. let app = app\<lparr>SlashingKeeper := Some v\<rparr> in
     bindE (provide ''mintkeeper.Keeper'') (\<lambda>v. let app = app\<lparr>MintKeeper := Some v\<rparr> in
     bindE (provide ''distrkeeper.Keeper'') (\<lambda>v. let app = app\<lparr>DistrKeeper := Some v\<rparr> in
     bindE (provide ''*govkeeper.Keeper'') (\<lambda>v. let app = app\<lparr>GovKeeper := Some v\<rparr> in
     bindE (provide ''*upgradekeeper.Keeper'') (\<lambda>v. let app = app\<lparr>UpgradeKeeper := Some v\<rparr> in
     bindE (provide ''authzkeeper.Keeper'') (\<lambda>v. let app = app\<lparr>AuthzKeeper := Some v\<rparr> in
     bindE (provide ''consensuskeeper.Keeper'') (\<lambda>v. let app = app\<lparr>ConsensusParamsKeeper := Some v\<rparr> in
     bindE (provide ''circuitkeeper.Keeper'') (\<lambda>v. let app = app\<lparr>CircuitBreakerKeeper := Some v\<rparr> in
     bindE (provide ''paramskeeper.Keeper'') (\<lambda>v. let app = app\<lparr>ParamsKeeper := Some v\<rparr> in
     bindE (provide ''tatcoremodulekeeper.Keeper'') (\<lambda>v. let app = app\<lparr>TatcoreKeeper := Some v\<rparr> in
       Inr (appBuilder, appModules, app))))))))))))))))))))"

text \<open>\<^verbatim>\<open>New\<close> with the fields it assigns; \<open>built\<close> is the runtime application that the builder makes.\<close>

definition set_ibc :: "ibc_app \<Rightarrow> 'v App \<Rightarrow> 'v App" where
  "set_ibc ibc app = app\<lparr>IBCKeeper := IBCKeeper ibc, TransferKeeper := TransferKeeper ibc,
     ICAHostKeeper := ICAHostKeeper ibc, ICAControllerKeeper := ICAControllerKeeper ibc\<rparr>"

definition New_App ::
  "('b, 'x) builder \<Rightarrow> ibc_names \<Rightarrow> names \<Rightarrow> (di_config \<Rightarrow> string \<Rightarrow> 'x + 'v) \<Rightarrow> ('v \<Rightarrow> 'b list \<Rightarrow> 'v) \<Rightarrow> ('v option \<Rightarrow> 'v)
    \<Rightarrow> bool \<Rightarrow> 'b list \<Rightarrow> ('b, 'x, 'v App) wiring" where
  "New_App E N C provide built simulation loadLatest baseAppOptions =
     (let app = App_zero; config = New_config C in
      seqp (invoke E Inject) (\<lambda>_.
      seqp (unwrap WPanic (inject (provide config) app)) (\<lambda>(appBuilder, appModules, app).
      let baseAppOptions = baseAppOptions @ [SetOptimisticExecution E] in
      seqp (invoke E (Build baseAppOptions)) (\<lambda>_.
      let app = app\<lparr>runtime_App := Some (built appBuilder baseAppOptions)\<rparr> in
      seqp (registerIBCModules E N (ibc_app.truncate app)) (\<lambda>(ibc, err).
      let app = set_ibc ibc app in
      seqp (check WPanic err) (\<lambda>_.
      seqp (invoke E (NewSimulationManager [authModule N])) (\<lambda>_.
      let app = app\<lparr>sm := Some (simulation (AuthKeeper app))\<rparr> in
      seqp (invoke E RegisterStoreDecoders) (\<lambda>_.
      seqp (invoke E SetInitChainer) (\<lambda>_.
      seqp (invoke E (LoadApp loadLatest)) (\<lambda>_.
        ret app))))))))))"

section \<open>The page of the API documentation (docs.go)\<close>

definition apiFile :: string where "apiFile = ''/static/openapi.json''"
definition indexFile :: string where "indexFile = ''template/index.tpl''"

text \<open>
  The template is parsed when the handler is made, and an error there is dropped: the handler then executes a nil
  template. The error of the execution is dropped too. (\<^verbatim>\<open>ParseFS\<close> and \<^verbatim>\<open>Execute\<close> of html/template are parameters.)
\<close>

definition docs_handler ::
  "(string \<Rightarrow> 'x + 't) \<Rightarrow> ('t \<Rightarrow> string \<times> string \<Rightarrow> 'p \<times> 'x option) \<Rightarrow> string \<Rightarrow> 'r \<Rightarrow> ('b, 'x) wstop + 'p" where
  "docs_handler ParseFS Execute title =
     (let t = (case ParseFS indexFile of Inl _ \<Rightarrow> None | Inr t \<Rightarrow> Some t)
      in (\<lambda>req. case t of None \<Rightarrow> Inl NilPointer | Some t \<Rightarrow> Inr (fst (Execute t (title, apiFile)))))"

section \<open>The program (main.go)\<close>

text \<open>
  How the execution of a command ends: \<^verbatim>\<open>Execute\<close> returns the error of the command or nil, or the command panics, or it
  ends the process itself, as \<^verbatim>\<open>handleErr\<close> of the in-place testnet does. Which command it is and how it ends depend on
  the arguments of the process, and are a parameter.
\<close>

datatype 'x command_end =
    CommandReturned "'x option"
  | CommandPanicked 'x
  | CommandExited nat

definition execute :: "('b wcall list \<Rightarrow> 'b wcall \<Rightarrow> 'x command_end) \<Rightarrow> 'b wcall \<Rightarrow> ('b, 'x, 'x option) wiring" where
  "execute Execute c =
     (\<lambda>h. case Execute h c of
        CommandReturned err \<Rightarrow> (Inr err, h @ [c])
      | CommandPanicked x \<Rightarrow> (Inl (WPanic x), h @ [c])
      | CommandExited status \<Rightarrow> (Inl (WExit status), h @ [c]))"

definition main ::
  "(string \<Rightarrow> 'x + string) \<Rightarrow> ('b wcall list \<Rightarrow> 'b wcall \<Rightarrow> 'x command_end) \<Rightarrow> ('b, 'x) builder \<Rightarrow> ibc_names
    \<Rightarrow> (string \<Rightarrow> 'm basic option) \<Rightarrow> (string \<Rightarrow> ('m + ibc_module) option) \<Rightarrow> ('b, 'x, unit) wiring" where
  "main GetNodeHomeDirectory Execute E N basics auto =
     seqp (unwrap WPanic (app_init GetNodeHomeDirectory)) (\<lambda>(EnvPrefix, DefaultNodeHome).
     seqp (NewRootCmd E N basics auto) (\<lambda>rootCmd.
     seqp (execute Execute (ExecuteRoot EnvPrefix DefaultNodeHome)) (\<lambda>err. case err of
       None \<Rightarrow> ret ()
     | Some e \<Rightarrow> seqp (perform (CallErr E) PrintError) (\<lambda>_. stop (WExit 1)))))"

section \<open>Lemmas\<close>

text \<open>\<^verbatim>\<open>New\<close> of \<open>Wiring\<close> is this one, seen through the IBC keepers.\<close>

lemma set_ibc_truncate [simp]: "ibc_app.truncate (set_ibc ibc app) = ibc"
  by (simp add: set_ibc_def ibc_app.truncate_def)

text \<open>The type of each field that is injected (the declaration of App in app.go)\<close>

definition injected :: "'v App \<Rightarrow> (string \<times> 'v option) list" where
  "injected app =
     [(''codec.Codec'', appCodec app),
      (''*codec.LegacyAmino'', legacyAmino app),
      (''client.TxConfig'', txConfig app),
      (''codectypes.InterfaceRegistry'', interfaceRegistry app),
      (''authkeeper.AccountKeeper'', AuthKeeper app),
      (''bankkeeper.Keeper'', BankKeeper app),
      (''*stakingkeeper.Keeper'', StakingKeeper app),
      (''slashingkeeper.Keeper'', SlashingKeeper app),
      (''mintkeeper.Keeper'', MintKeeper app),
      (''distrkeeper.Keeper'', DistrKeeper app),
      (''*govkeeper.Keeper'', GovKeeper app),
      (''*upgradekeeper.Keeper'', UpgradeKeeper app),
      (''authzkeeper.Keeper'', AuthzKeeper app),
      (''consensuskeeper.Keeper'', ConsensusParamsKeeper app),
      (''circuitkeeper.Keeper'', CircuitBreakerKeeper app),
      (''paramskeeper.Keeper'', ParamsKeeper app),
      (''tatcoremodulekeeper.Keeper'', TatcoreKeeper app)]"

lemmas injected_simps = injected_def bindE_Inr_iff Let_def

text \<open>A field keeps its value when a later one is set, and each is set to what was provided for its type.\<close>

lemma inject_Inr:
  assumes "inject provide app0 = Inr (b, m, app)"
  shows "provide ''*runtime.AppBuilder'' = Inr b" "list_all (\<lambda>(t, v). \<exists>w. v = Some w \<and> provide t = Inr w) (injected app)"
    and "ibc_app.truncate app = ibc_app.truncate app0"
  using assms by (auto simp: inject_def injected_simps ibc_app.truncate_def)

lemma New_App_New:
  assumes "inject (provide (New_config C)) App_zero = Inr r"
  shows "New E N loadLatest opts = seqp (New_App E N C provide built simulation loadLatest opts) (\<lambda>app. ret (ibc_app.truncate app))"
proof
  fix h
  obtain b m app where i: "inject (provide (New_config C)) App_zero = Inr (b, m, app)" using assms by (metis prod_cases3)
  have t: "ibc_app.truncate (app\<lparr>runtime_App := v\<rparr>) = no_ibc" for v
    using inject_Inr(3) [OF i] by (simp add: ibc_app.truncate_def App_zero_def ibc_app.extend_def)
  show "New E N loadLatest opts h
      = seqp (New_App E N C provide built simulation loadLatest opts) (\<lambda>app. ret (ibc_app.truncate app)) h"
    by (auto simp: New_def New_App_def Let_def i t seqp_def ret_def split: prod.splits sum.splits)
      (simp_all add: set_ibc_def ibc_app.truncate_def)
qed

lemma build_keepers_set:
  assumes "build_keepers E N app h = (Inr app', h')"
  shows "None \<notin> {IBCKeeper app', TransferKeeper app', ICAHostKeeper app', ICAControllerKeeper app'}"
  using assms by (auto simp: build_keepers_def Let_def seqp_Inr)

lemma registerIBCModules_set:
  assumes "registerIBCModules E N app h = (Inr (app', None), h')"
  shows "None \<notin> {IBCKeeper app', TransferKeeper app', ICAHostKeeper app', ICAControllerKeeper app'}"
  using assms build_keepers_set [of E N app]
  by (fastforce simp: registerIBCModules_def seqp_Inr split: option.splits)

section \<open>Properties\<close>

text \<open>
  C26. When \<^verbatim>\<open>New\<close> returns, the application is complete: every codec and every keeper of the dependency
  injection is set to the value that the container provides for the type of its field, the runtime application
  is built from the builder that was provided, with the given options and optimistic execution, the
  simulation manager replaces the auth module by one over this auth keeper, and all IBC keepers are set. So a
  getter hands out what the container provided; a type that it cannot provide stops \<^verbatim>\<open>New\<close> with a panic.
\<close>

theorem New_complete:
  assumes "New_App E N C provide built simulation loadLatest opts h = (Inr app, h')"
  shows "list_all (\<lambda>(t, field). \<exists>v. field = Some v \<and> provide (New_config C) t = Inr v)
     [(''codec.Codec'', App_AppCodec app),
      (''*codec.LegacyAmino'', App_LegacyAmino app),
      (''client.TxConfig'', App_TxConfig app),
      (''codectypes.InterfaceRegistry'', App_InterfaceRegistry app),
      (''authkeeper.AccountKeeper'', AuthKeeper app),
      (''bankkeeper.Keeper'', BankKeeper app),
      (''*stakingkeeper.Keeper'', StakingKeeper app),
      (''slashingkeeper.Keeper'', SlashingKeeper app),
      (''mintkeeper.Keeper'', MintKeeper app),
      (''distrkeeper.Keeper'', DistrKeeper app),
      (''*govkeeper.Keeper'', GovKeeper app),
      (''*upgradekeeper.Keeper'', UpgradeKeeper app),
      (''authzkeeper.Keeper'', AuthzKeeper app),
      (''consensuskeeper.Keeper'', ConsensusParamsKeeper app),
      (''circuitkeeper.Keeper'', CircuitBreakerKeeper app),
      (''paramskeeper.Keeper'', ParamsKeeper app),
      (''tatcoremodulekeeper.Keeper'', TatcoreKeeper app)]
    \<and> (\<exists>appBuilder. provide (New_config C) ''*runtime.AppBuilder'' = Inr appBuilder
        \<and> runtime_App app = Some (built appBuilder (opts @ [SetOptimisticExecution E])))
    \<and> App_SimulationManager app = Some (simulation (AuthKeeper app))
    \<and> None \<notin> {IBCKeeper app, TransferKeeper app, ICAHostKeeper app, ICAControllerKeeper app}
    \<and> GetIBCKeeper (ibc_app.truncate app) = IBCKeeper app"
proof -
  from assms obtain b m app0 ibc h1 h2 where i: "inject (provide (New_config C)) App_zero = Inr (b, m, app0)"
    and ibc: "registerIBCModules E N (ibc_app.truncate (app0\<lparr>runtime_App := Some (built b (opts @ [SetOptimisticExecution E]))\<rparr>)) h1
      = (Inr (ibc, None), h2)"
    and app: "app = (set_ibc ibc (app0\<lparr>runtime_App := Some (built b (opts @ [SetOptimisticExecution E]))\<rparr>))
      \<lparr>sm := Some (simulation (AuthKeeper (set_ibc ibc (app0\<lparr>runtime_App := Some (built b (opts @ [SetOptimisticExecution E]))\<rparr>))))\<rparr>"
    by (auto simp: New_App_def Let_def seqp_Inr)
  have same: "injected app = injected app0" by (simp add: app set_ibc_def injected_def)
  have "list_all (\<lambda>(t, field). \<exists>v. field = Some v \<and> provide (New_config C) t = Inr v) (injected app)"
    unfolding same by (rule inject_Inr(2) [OF i])
  then show ?thesis
    using registerIBCModules_set [OF ibc] inject_Inr(1) [OF i]
    unfolding injected_def App_LegacyAmino_def App_AppCodec_def App_TxConfig_def App_InterfaceRegistry_def
    by (simp add: app set_ibc_def App_SimulationManager_def GetIBCKeeper_def ibc_app.truncate_def)
qed

lemma sample_inject: "\<exists>r. inject (\<lambda>t. Inr t :: string + string) App_zero = Inr r"
  by (simp add: inject_def Let_def)

theorem New_complete_witness:
  "\<exists>app h'. New_App sample_builder sample_ibc_names sample_names (\<lambda>_ t. Inr t) (\<lambda>b _. b) (\<lambda>_. ''sm'') True [] [] = (Inr app, h')
    \<and> AuthKeeper app = Some ''authkeeper.AccountKeeper'' \<and> App_SimulationManager app = Some ''sm''
    \<and> TatcoreKeeper app = Some ''tatcoremodulekeeper.Keeper''"
proof -
  let ?run = "New_App sample_builder sample_ibc_names sample_names (\<lambda>_ t. Inr t) (\<lambda>b _. b) (\<lambda>_. ''sm'') True []"
  obtain r h' where run: "?run [] = (r, h')" by (cases "?run []")
  obtain i where i: "inject (\<lambda>t. Inr t :: string + string) App_zero = Inr i" using sample_inject by blast
  have "fst (New sample_builder sample_ibc_names True [] []) \<noteq> Inl e" for e by (rule sample_new)
  then obtain app where "r = Inr app"
    using run unfolding New_App_New [where C = sample_names and provide = "\<lambda>_ t. Inr t" and built = "\<lambda>b _. b"
        and simulation = "\<lambda>_. ''sm''", OF i]
    by (cases r) (auto simp: seqp_def)
  with run have app: "?run [] = (Inr app, h')" by simp
  from New_complete [OF this] app show ?thesis
    by (intro exI [of _ app] exI [of _ h']) (simp del: App_SimulationManager_def)
qed

lemma stops_invoke [stops_rules]: "(\<And>x h. P (WPanic x) h) \<Longrightarrow> stops P (invoke E c)"
  unfolding invoke_def by (intro stops_rules)

lemma NewRootCmd_no_exit: "stops (\<lambda>e _. \<forall>c. e \<noteq> WExit c) (NewRootCmd E N basics auto)"
  unfolding NewRootCmd_def RegisterIBC_def initRootCmd_def Let_def by (intro stops_rules) simp_all

text \<open>
  C34. How the daemon ends. \<^verbatim>\<open>main\<close> returns only after the command was executed, with the environment prefix and the home
  directory of the application, and returned no error. It exits by itself only with status 1, after the
  command returned an error and this was printed. Otherwise it is stopped by the command, which may panic
  or end the process with a status of its own, or by a panic while the packages and the commands are
  set up; these never end the process.
\<close>

theorem main_exit:
  "case main GetNodeHomeDirectory Execute E N basics auto h of
     (Inr u, h') \<Rightarrow> \<exists>home cmd h1. GetNodeHomeDirectory ''.tatcoin'' = Inr home \<and> NewRootCmd E N basics auto h = (Inr cmd, h1)
       \<and> h' = h1 @ [ExecuteRoot ''tatcoin'' home] \<and> Execute h1 (ExecuteRoot ''tatcoin'' home) = CommandReturned None
   | (Inl e, h') \<Rightarrow>
       (\<exists>x. GetNodeHomeDirectory ''.tatcoin'' = Inl x \<and> e = WPanic x \<and> h' = h)
       \<or> NewRootCmd E N basics auto h = (Inl e, h') \<and> (\<forall>status. e \<noteq> WExit status)
       \<or> (\<exists>home cmd h1. GetNodeHomeDirectory ''.tatcoin'' = Inr home \<and> NewRootCmd E N basics auto h = (Inr cmd, h1) \<and>
           (case Execute h1 (ExecuteRoot ''tatcoin'' home) of
              CommandReturned None \<Rightarrow> False
            | CommandReturned (Some err) \<Rightarrow> e = WExit 1 \<and> h' = h1 @ [ExecuteRoot ''tatcoin'' home, PrintError]
            | CommandPanicked x \<Rightarrow> e = WPanic x \<and> h' = h1 @ [ExecuteRoot ''tatcoin'' home]
            | CommandExited status \<Rightarrow> e = WExit status \<and> h' = h1 @ [ExecuteRoot ''tatcoin'' home]))"
proof (cases "GetNodeHomeDirectory ''.tatcoin''")
  case (Inl x)
  then show ?thesis
    by (simp add: main_def app_init_def AppName_def bindE_def unwrap_def seqp_def stop_def)
next
  case (Inr home)
  obtain r h1 where r: "NewRootCmd E N basics auto h = (r, h1)" by (cases "NewRootCmd E N basics auto h")
  show ?thesis
  proof (cases r)
    case (Inl e)
    with r have "\<forall>c. e \<noteq> WExit c" using stopsD [OF NewRootCmd_no_exit] by metis
    then show ?thesis using Inr Inl r
      by (simp add: main_def app_init_def AppName_def bindE_def seqp_def)
  next
    case ok: (Inr a)
    have run: "main GetNodeHomeDirectory Execute E N basics auto h
        = seqp (execute Execute (ExecuteRoot ''tatcoin'' home)) (\<lambda>err. case err of
            None \<Rightarrow> ret ()
          | Some e \<Rightarrow> seqp (perform (CallErr E) PrintError) (\<lambda>_. stop (WExit 1))) h1"
      using Inr r ok by (simp add: main_def app_init_def AppName_def bindE_def seqp_def del: One_nat_def)
    show ?thesis
      using Inr r ok unfolding run
      by (cases "Execute h1 (ExecuteRoot ''tatcoin'' home)")
         (auto simp: execute_def seqp_def perform_def stop_def ret_def split: option.split)
  qed
qed

end
