(* ===== verification/Spec2Isabelle.thy ===== *)
theory Spec2Isabelle
  imports MultiNodeRuns TestnetProperties Services Restart Generated Daemon
begin

text \<open>
  Verification of the tatcore chain: a Cosmos SDK application with one module of its own,
  x/tatcore, its application wiring (app/), and its daemon tatcoind (cmd/tatcoind/).

  \<^bold>\<open>The program.\<close> The module keeps one value, its parameters, in one store item. A message
  \<^verbatim>\<open>MsgUpdateParams\<close> from the configured authority replaces it; a query, a REST route and the
  genesis import and export read and write it. Messages travel as protobuf bytes, read and written by
  generated code. The application assembles the SDK's modules, adds the IBC modules by hand, and can
  export its state as a new genesis. The daemon's commands build such an application, export
  it, lay out a testnet of several nodes, or turn a copy of a chain's data into a testnet.

  \<^bold>\<open>The theories\<close>, from the bottom:
  \<^item> \<open>Prelude\<close>: Go's integers with wrap-around, byte slices with checked access, errors as sums.
  \<^item> \<open>Effects\<close>: programs over calls to code outside the repository. Such a program is a function of
    the history of calls; a call is logged whether it fails or not, and what it answers may
    depend on everything called before. An index into a slice is checked (\<open>at_index\<close>, \<open>set_index\<close>), and
    one that is out of range stops the program as a panic.
  \<^item> \<open>GoStrings\<close>: the parts of strings, strconv and path/filepath (for Unix) the code uses.
  \<^item> \<open>Wire\<close>, \<open>Marshal\<close>, \<open>Messages\<close>: the generated codec in x/tatcore/types (tx.pb.go, query.pb.go,
    params.pb.go, genesis.pb.go, module.pb.go). One definition for each generated loop, with the
    index into the slice, 64-bit wrap-around and run-time panics; then every message with its Size,
    Marshal, MarshalTo, MarshalToSizedBuffer, XXX_Marshal and Unmarshal.
  \<^item> \<open>WireSpec\<close>, \<open>WireCorrect\<close>, \<open>MessagesCorrect\<close>: a wire grammar without indices; the loops refine it.
    The locales \<open>message_fields\<close> and \<open>message_codec\<close> state what the loops need of a message, and
    each message interprets them.
  \<^item> \<open>CodecProperties\<close>: round trips, totality on untrusted bytes, unknown fields, varints.
  \<^item> \<open>Generated\<close>: what the protobuf runtime calls on a message (Reset, XXX_Size, XXX_Unmarshal, String), the
    registered names and the unimplemented servers of the generated code.
  \<^item> \<open>Keeper\<close>: x/tatcore/keeper, and keys, params, genesis and errors of x/tatcore/types. The SDK's
    address codec and collections item are parameters with named laws.
  \<^item> \<open>AppModule\<close>: x/tatcore/module, the gRPC handlers and clients of the generated code, the
    REST gateway (query.pb.gw.go), and the reachable states of a chain (\<open>chain_state\<close>).
  \<^item> \<open>Services\<close>: the servers, the module value with its inputs and outputs (depinject.go), the registration of gRPC
    services, interfaces and REST routes, the connection dialled for the gateway, and a reference of what the
    node does with one request (\<open>spec_deliver\<close>). gRPC's router and the HTTP multiplexer are parameters with laws; that
    of the multiplexer allows a POST to fall back to a GET and a colon at the end of the path, as the gateway does.
  \<^item> \<open>AppConfig\<close>: app/app_config.go, app/config.go, app/genesis_account.go, and the address helpers of app/app.go.
  \<^item> \<open>Export\<close>, \<open>ExportProperties\<close>: app/export.go, whose zero-height preparation is a program of some
    dozen kinds of calls on the staking, distribution and slashing keepers, with the reasons for which it can panic
    (\<open>panic_cause\<close>).
  \<^item> \<open>Restart\<close>: the export of the application, its genesis (app/genesis.go) and the genesis of the
    module together, from an old chain to a new one.
  \<^item> \<open>MultiNode\<close>, \<open>MultiNodeProperties\<close>: cmd/tatcoind/cmd/testnet_multi_node.go; \<open>MultiNodeRuns\<close>: its runs from
    beginning to end, with the shared genesis, the cleaning up after a failure, and how a run stops or returns. A
    call may return with an error or without, panic, or end the process (\<open>Fatal\<close>, as \<^verbatim>\<open>WriteConfigFile\<close> does), and
    the operations without an error result that can panic are \<open>panic_op\<close>.
  \<^item> \<open>Testnet\<close>, \<open>TestnetProperties\<close>: cmd/tatcoind/cmd/testnet.go.
  \<^item> \<open>Wiring\<close>, \<open>WiringProperties\<close>: app/app.go, app/ibc.go, docs/docs.go (its routes), and the functions
    \<^verbatim>\<open>newApp\<close> and \<^verbatim>\<open>appExport\<close> of cmd/tatcoind/cmd/commands.go, over \<open>ExportAppStateAndValidators\<close>.
  \<^item> \<open>Commands\<close>: root.go, config.go and the command tree of commands.go.
  \<^item> \<open>Daemon\<close>: the App structure and its getters, \<^verbatim>\<open>New\<close> as the function that fills it, the page of docs/docs.go, and
    \<^verbatim>\<open>main\<close> with its exit status, over a command that may return, panic or end the process.
  \<^item> This theory: a parameter update from the bytes a node receives to the bytes it answers.

  \<^bold>\<open>What the lemmas show.\<close> The codec loops end and never go out of range on any input, accept exactly
  the grammar, and invert the encoders (\<open>refines\<close> and \<open>at\<close> lemmas of \<open>WireCorrect\<close>). For programs over
  calls, \<open>calls\<close>, \<open>in_phases\<close> and \<open>yields\<close> bound what any run does, also one that stops half-way, the
  \<open>_Inr\<close> lemmas say what a run did that returned, and \<open>stops\<close> and \<open>halts\<close> how a run can stop, and after
  which calls: no index panics, every panic of the export and every stop of the multi-node testnet has one
  of the listed causes at the place where it stops, and runs of the testnets in which nothing outside fails do return. The path lemmas of
  \<open>GoStrings\<close> show that each node of a testnet ends up with the gentx of every other node and keeps its own, for
  absolute and relative output directories. \<open>tidy\<close> of \<open>MultiNodeRuns\<close> says when a run removes what it wrote, also one that
  stops half-way. \<open>services_refine\<close> composes codec, handlers and keeper: any requests take
  the store where the reference takes it. Properties carry the ids C1 to C40 and stand in
  the theory of their component.

  \<^bold>\<open>Bounds and fuel.\<close> The loops of Unmarshal and of skipX carry fuel, one more than the bytes
  that remain: each iteration consumes at least one byte, and \<open>Unmarshal_total\<close> shows that the fuel never runs out. Slices
  are shorter than \<open>2 ^ 63\<close>, Go's bound, stated where it is used; the longest slice that \<^verbatim>\<open>make\<close> makes is a parameter
  (\<open>MaxSlice\<close>), beyond which the multi-node command panics. All other loops are structural.

  \<^bold>\<open>Environment.\<close> The SDK, CometBFT, ibc-go, cobra and the file system are not part of the repository. They
  appear as records of functions (\<open>sdk\<close>, \<open>json_codec\<close>, \<open>chain\<close>, \<open>exporter\<close>, \<open>host\<close>, \<open>testnet\<close>, \<open>builder\<close>,
  \<open>names\<close>); a theorem that relies on one of them names the law, and its witness shows that the law can hold.

  \<^bold>\<open>Not modelled.\<close> The compressed descriptors of the generated code and their registration, and its methods
  XXX_Merge and XXX_DiscardUnknown, which hand the message to tables that the protobuf runtime builds by reflection;
  the test helper in testutil; assertions of interfaces at compile time and empty marker methods; the source of
  randomness behind \<^verbatim>\<open>generateRandomString\<close> and the genesis time; running out of memory. Gas, consensus and the
  SDK's own keepers are behind the parameters. What is left of the implementation is imports and comments.
\<close>

section \<open>A parameter update over the wire\<close>

text \<open>
  C2. The only way to change the parameters from outside: whatever bytes a node receives for \<^verbatim>\<open>UpdateParams\<close>, if the
  handler answers with success or changes the store, then the bytes are in the wire grammar of the
  message, the authority string in them decodes to the module's authority, and the store is
  the one the item returns for the parameters in them. After a success, the encoded answer
  to a query decodes to these parameters.
\<close>

theorem wire_update:
  assumes "NewKeeper E auth = Inr k" "int (length bs) < 2 ^ 63"
    and "Msg_UpdateParams_Handler (UpdateParams E k) (\<lambda>m. map_sum err id (MsgUpdateParams_Unmarshal m bs)) None s = (s', r)"
    and "s' \<noteq> s \<or> (\<exists>resp. r = Inr resp)"
  shows "\<exists>m. decode MsgUpdateParams_grammar MsgUpdateParams_zero bs = Some m
    \<and> StringToBytes E (mup_Authority m) = Inr auth
    \<and> s' = fst (ItemSet E params_item s (mup_Params m))
    \<and> (item_law E \<longrightarrow> (\<exists>resp. r = Inr resp) \<longrightarrow>
        bindE (bindE (Query_Params E k s' (Some q)) (\<lambda>a. map_sum err id (QueryParamsResponse_Marshal a)))
          (\<lambda>out. map_sum err id (QueryParamsResponse_Unmarshal QueryParamsResponse_zero out))
        = Inr \<lparr>qpr_Params = mup_Params m\<rparr>)"
proof -
  have k: "k_authority k = auth" "k_Params k = params_item" using assms(1) by (simp_all add: NewKeeper_Inr)
  from assms(3,4) obtain m where u: "MsgUpdateParams_Unmarshal MsgUpdateParams_zero bs = Inr m"
    and up: "UpdateParams E k s m = (s', r)"
    by (cases "MsgUpdateParams_Unmarshal MsgUpdateParams_zero bs") (auto simp: Msg_UpdateParams_Handler_def)
  have g: "decode MsgUpdateParams_grammar MsgUpdateParams_zero bs = Some m"
    using u assms(2) msg.unmarshal_Inr_iff unfolding codec_defs fits_def [symmetric] by blast
  have a: "StringToBytes E (mup_Authority m) = Inr (k_authority k)"
    using up assms(4)
    by (auto simp: UpdateParams_def GetAuthority_def Let_def split: sum.splits if_splits)
  have s': "s' = fst (ItemSet E params_item s (mup_Params m))"
    using up by (auto simp: UpdateParams_authorized [OF a] k split: prod.splits option.splits)
  have "Query_Params E k s' (Some q) = Inr \<lparr>qpr_Params = mup_Params m\<rparr>"
    if "item_law E" "r = Inr resp" for resp
  proof -
    have "ItemSet E params_item s (mup_Params m) = (s', None)"
      using UpdateParams_Inr(2) [of E k s m s' resp] up that(2) by (simp add: k)
    with that(1) have "ItemGet E params_item s' = (mup_Params m, None)" by (rule params_get_after_set)
    then show ?thesis by (simp add: Query_Params_def k)
  qed
  moreover have "bindE (map_sum err id (QueryParamsResponse_Marshal a))
      (\<lambda>out. map_sum err id (QueryParamsResponse_Unmarshal QueryParamsResponse_zero out)) = Inr a" for a
    using QueryParamsResponse_roundtrip [of a] by (auto simp: bindE_Inr_iff)
  ultimately show ?thesis using g a s' by (intro exI [of _ m]) (auto simp: k)
qed

theorem wire_update_witness:
  "\<exists>m bs. decode MsgUpdateParams_grammar MsgUpdateParams_zero bs = Some m
    \<and> StringToBytes sample_sdk (mup_Authority m) = Inr (bytes_of ''tat1gov'')
    \<and> [ParamsKey \<mapsto> []] = fst (ItemSet sample_sdk params_item Map.empty (mup_Params m))"
proof -
  from msg_roundtrip [of sample_msg] obtain bs where bs: "MsgUpdateParams_Unmarshal MsgUpdateParams_zero bs = Inr sample_msg"
    and l: "int (length bs) < 2 ^ 63"
    by (auto simp: sample_msg_def)
  have h: "Msg_UpdateParams_Handler (UpdateParams sample_sdk sample_keeper)
      (\<lambda>m. map_sum (\<lambda>_. ErrInvalidSigner) id (MsgUpdateParams_Unmarshal m bs)) None Map.empty
    = ([ParamsKey \<mapsto> []], Inr MsgUpdateParamsResponse_struct)"
    by (simp add: Msg_UpdateParams_Handler_def bs sample_update)
  from wire_update [OF sample_NewKeeper l h] show ?thesis by blast
qed

end
